(* ===== verification/Prelude.thy ===== *)
theory Prelude
  imports Main "HOL-Library.Word"
begin

section \<open>Shared vocabulary of the development\<close>

text \<open>
  This theory holds what every component of the broker model uses: the result type that
  stands for Rust's \<open>Result\<close>, I/O errors, machine integers, the collections of facts that
  the component proofs hand to the simplifier, and the generic lemmas on lists that more than
  one component needs. A Rust \<open>Result<T, E>\<close> is a sum \<open>'e + 't\<close>, \<open>Inl\<close> being the error.
\<close>

subsection \<open>Collections of facts\<close>

named_theorems str_simps \<open>rewrite rules for the operations on strings\<close>
named_theorems str_dest \<open>what a successful string operation says about its input\<close>
named_theorems path_simps \<open>rewrite rules for the operations on paths\<close>
named_theorems table_defs \<open>constant tables of the program (flags, roles, names)\<close>

subsection \<open>Types shared by the components\<close>

type_synonym byte = "8 word"
type_synonym u32 = "32 word"
type_synonym u64 = "64 word"
type_synonym i32 = "32 word"
type_synonym path = string

text \<open>
  \<open>std::io::Error\<close> as the program observes it: its kind (the code branches on
  \<open>NotFound\<close>, \<open>PermissionDenied\<close> and \<open>UnexpectedEof\<close>) and the text it displays.
\<close>

datatype io_kind = NotFound | PermissionDenied | UnexpectedEof | InvalidData | OtherKind

record io_error =
  io_kind :: io_kind
  io_text :: string

subsection \<open>Results\<close>

definition map_err :: "('e \<Rightarrow> 'f) \<Rightarrow> 'e + 'a \<Rightarrow> 'f + 'a" where
  "map_err f r = (case r of Inl e \<Rightarrow> Inl (f e) | Inr x \<Rightarrow> Inr x)"

definition ok_or :: "'e \<Rightarrow> 'a option \<Rightarrow> 'e + 'a" where
  "ok_or e m = (case m of None \<Rightarrow> Inl e | Some x \<Rightarrow> Inr x)"

definition res_ok :: "'e + 'a \<Rightarrow> 'a option" where
  "res_ok r = (case r of Inl _ \<Rightarrow> None | Inr x \<Rightarrow> Some x)"

definition opt_or :: "'a option \<Rightarrow> 'a option \<Rightarrow> 'a option" where
  "opt_or a b = (case a of None \<Rightarrow> b | Some x \<Rightarrow> Some x)"

definition unwrap_or :: "'a \<Rightarrow> 'a option \<Rightarrow> 'a" where
  "unwrap_or d m = (case m of None \<Rightarrow> d | Some x \<Rightarrow> x)"

definition get :: "'a list \<Rightarrow> nat \<Rightarrow> 'a option" where
  "get xs i = (if i < length xs then Some (xs ! i) else None)"

lemma map_err_simps [simp]:
  "map_err f (Inl e) = Inl (f e)" "map_err f (Inr x) = Inr x"
  by (simp_all add: map_err_def)

lemma map_err_eq_Inr_iff [simp]: "map_err f r = Inr x \<longleftrightarrow> r = Inr x"
  by (cases r) auto

lemma ok_or_simps [simp]:
  "ok_or e None = Inl e" "ok_or e (Some x) = Inr x"
  by (simp_all add: ok_or_def)

lemma ok_or_eq_Inr_iff [simp]: "ok_or e m = Inr x \<longleftrightarrow> m = Some x"
  by (cases m) auto

lemma res_ok_simps [simp]:
  "res_ok (Inl e) = None" "res_ok (Inr x) = Some x"
  by (simp_all add: res_ok_def)

lemma res_ok_eq_Some_iff [simp]: "res_ok r = Some x \<longleftrightarrow> r = Inr x"
  by (cases r) auto

lemma opt_or_simps [simp]:
  "opt_or None b = b" "opt_or (Some x) b = Some x"
  by (simp_all add: opt_or_def)

lemma unwrap_or_simps [simp]:
  "unwrap_or d None = d" "unwrap_or d (Some x) = x"
  by (simp_all add: unwrap_or_def)

lemma not_isl_Inr: "isl r = False \<Longrightarrow> \<exists>x. r = Inr x"
  by (cases r) simp_all

lemma get_Nil [simp]: "get [] i = None"
  by (simp add: get_def)

lemma get_Cons [simp]:
  "get (x # xs) 0 = Some x" "get (x # xs) (Suc i) = get xs i"
  by (simp_all add: get_def)

lemma get_Cons_numeral [simp]: "get (x # xs) (numeral k) = get xs (pred_numeral k)"
  by (simp add: numeral_eq_Suc)

lemma get_Cons_one [simp]: "get (x # xs) 1 = get xs 0"
  by (simp add: get_def)

lemma get_0_eq: "get xs 0 = (case xs of [] \<Rightarrow> None | x # _ \<Rightarrow> Some x)"
  by (cases xs) auto

subsection \<open>Lists\<close>

lemma find_append: "find P (xs @ ys) = opt_or (find P xs) (find P ys)"
  by (induction xs) auto

lemma find_Some_split:
  "find P xs = Some x \<longleftrightarrow> (\<exists>ys zs. xs = ys @ x # zs \<and> P x \<and> (\<forall>y \<in> set ys. \<not> P y))"
proof (induction xs)
  case Nil
  then show ?case by simp
next
  case (Cons a xs)
  show ?case
  proof (cases "P a")
    case True
    then show ?thesis
      by (auto simp: Cons_eq_append_conv intro: exI [of _ "[]"])
  next
    case False
    then show ?thesis using Cons.IH
      by (auto simp: Cons_eq_append_conv) (metis set_ConsD)
  qed
qed

lemma dropWhile_hd_neq: "dropWhile P xs = y # ys \<Longrightarrow> \<not> P y"
  by (metis dropWhile_eq_Cons_conv)

lemma concat_map_append_single: "concat (xs @ [x]) = concat xs @ x"
  by simp

end
