(* ===== verification/Rust_Str.thy ===== *)
theory Rust_Str
  imports Prelude
begin

section \<open>Strings and paths of the Rust standard library\<close>

text \<open>
  The parts of \<open>str\<close>, \<open>std::fmt\<close> and \<open>std::path::Path\<close> the program calls. A Rust string is
  its sequence of UTF-8 bytes, a HOL \<open>string\<close>. Every delimiter the program splits at is ASCII,
  so splitting bytes and splitting characters agree; trimming removes the UTF-8 encodings of
  the Unicode characters with the property \<open>White_Space\<close>. A path is the byte string the
  program holds; \<open>path_join\<close> and \<open>path_parent\<close> follow \<open>PathBuf::push\<close> and
  \<open>Components::next_back\<close> on Unix.
\<close>

subsection \<open>Prefixes, suffixes and splitting\<close>

fun strip_prefix :: "'a list \<Rightarrow> 'a list \<Rightarrow> 'a list option" where
  "strip_prefix [] s = Some s"
| "strip_prefix (p # ps) (c # s) = (if p = c then strip_prefix ps s else None)"
| "strip_prefix (p # ps) [] = None"

definition starts_with :: "'a list \<Rightarrow> 'a list \<Rightarrow> bool" where
  "starts_with s p = (strip_prefix p s \<noteq> None)"

definition strip_suffix :: "'a list \<Rightarrow> 'a list \<Rightarrow> 'a list option" where
  "strip_suffix p s = map_option rev (strip_prefix (rev p) (rev s))"

fun split_once :: "'a \<Rightarrow> 'a list \<Rightarrow> ('a list \<times> 'a list) option" where
  "split_once d [] = None"
| "split_once d (c # s) =
     (if c = d then Some ([], s)
      else (case split_once d s of None \<Rightarrow> None | Some (a, b) \<Rightarrow> Some (c # a, b)))"

text \<open>\<open>split_once\<close> with the two-character pattern \<open>": "\<close>.\<close>

fun split_once_str :: "'a list \<Rightarrow> 'a list \<Rightarrow> ('a list \<times> 'a list) option" where
  "split_once_str p [] = (if p = [] then Some ([], []) else None)"
| "split_once_str p (c # s) =
     (case strip_prefix p (c # s) of
        Some r \<Rightarrow> Some ([], r)
      | None \<Rightarrow> (case split_once_str p s of None \<Rightarrow> None | Some (a, b) \<Rightarrow> Some (c # a, b)))"

fun split_on :: "'a \<Rightarrow> 'a list \<Rightarrow> 'a list list" where
  "split_on d [] = [[]]"
| "split_on d (c # s) =
     (if c = d then [] # split_on d s
      else (case split_on d s of [] \<Rightarrow> [[c]] | w # ws \<Rightarrow> (c # w) # ws))"

fun contains_str :: "'a list \<Rightarrow> 'a list \<Rightarrow> bool" where
  "contains_str p [] = (p = [])"
| "contains_str p (c # s) = (starts_with (c # s) p \<or> contains_str p s)"

definition trim_start_matches :: "'a list \<Rightarrow> 'a list \<Rightarrow> 'a list" where
  "trim_start_matches cs s = dropWhile (\<lambda>c. c \<in> set cs) s"

definition trim_end_matches :: "'a list \<Rightarrow> 'a list \<Rightarrow> 'a list" where
  "trim_end_matches cs s = rev (dropWhile (\<lambda>c. c \<in> set cs) (rev s))"

definition trim_matches :: "'a list \<Rightarrow> 'a list \<Rightarrow> 'a list" where
  "trim_matches cs s = trim_end_matches cs (trim_start_matches cs s)"

fun join_with :: "'a list \<Rightarrow> 'a list list \<Rightarrow> 'a list" where
  "join_with sep [] = []"
| "join_with sep [w] = w"
| "join_with sep (w # ws) = w @ sep @ join_with sep ws"

lemma strip_prefix_Some_iff [str_dest]: "strip_prefix p s = Some r \<longleftrightarrow> s = p @ r"
  by (induction p s rule: strip_prefix.induct) auto

lemma strip_prefix_append [simp, str_simps]: "strip_prefix p (p @ r) = Some r"
  by (simp add: strip_prefix_Some_iff)

lemma strip_prefix_self [simp, str_simps]: "strip_prefix p p = Some []"
  using strip_prefix_append [of p "[]"] by simp

lemma starts_with_iff: "starts_with s p \<longleftrightarrow> (\<exists>r. s = p @ r)"
  by (auto simp: starts_with_def strip_prefix_Some_iff)

lemma starts_with_single [simp, str_simps]:
  "starts_with [] [c] = False" "starts_with (d # s) [c] \<longleftrightarrow> d = c"
  by (auto simp: starts_with_def)

lemma strip_suffix_Some_iff [str_dest]: "strip_suffix p s = Some r \<longleftrightarrow> s = r @ p"
proof -
  have "strip_suffix p s = Some r \<longleftrightarrow> rev s = rev p @ rev r"
    by (auto simp: strip_suffix_def strip_prefix_Some_iff)
  also have "\<dots> \<longleftrightarrow> s = r @ p"
    by (metis rev_append rev_rev_ident)
  finally show ?thesis .
qed

lemma strip_suffix_append [simp, str_simps]: "strip_suffix p (r @ p) = Some r"
  by (simp add: strip_suffix_Some_iff)

lemma split_once_Some_iff [str_dest]:
  "split_once d s = Some (a, b) \<longleftrightarrow> s = a @ d # b \<and> d \<notin> set a"
proof (induction s arbitrary: a)
  case Nil
  then show ?case by simp
next
  case (Cons c s)
  have "split_once d (c # s) = Some (a, b) \<longleftrightarrow>
      c = d \<and> a = [] \<and> b = s \<or> (\<exists>a'. c \<noteq> d \<and> a = c # a' \<and> split_once d s = Some (a', b))"
    by (auto split: option.splits)
  also have "\<dots> \<longleftrightarrow> c # s = a @ d # b \<and> d \<notin> set a"
    unfolding Cons.IH by (cases a) auto
  finally show ?case .
qed

lemma split_once_None_iff [simp]: "split_once d s = None \<longleftrightarrow> d \<notin> set s"
  by (induction s) (auto split: option.splits)

lemma split_once_absent [simp]: "d \<notin> set s \<Longrightarrow> split_once d s = None"
  by simp

lemma split_once_append [str_simps]: "d \<notin> set a \<Longrightarrow> split_once d (a @ d # b) = Some (a, b)"
  by (simp add: split_once_Some_iff)

lemma split_on_not_Nil [simp]: "split_on d s \<noteq> []"
  by (induction s) (auto split: list.splits)

lemma split_on_no_delim: "d \<notin> set s \<Longrightarrow> split_on d s = [s]"
  by (induction s) auto

lemma split_on_append [str_simps]:
  "d \<notin> set a \<Longrightarrow> split_on d (a @ d # b) = a # split_on d b"
  by (induction a) auto

lemma split_on_parts: "w \<in> set (split_on d s) \<Longrightarrow> d \<notin> set w \<and> set w \<subseteq> set s"
proof (induction s arbitrary: w)
  case Nil
  then show ?case by simp
next
  case (Cons c s)
  then show ?case
    by (cases "split_on d s") (fastforce split: if_splits)+
qed

lemma trim_start_matches_id:
  "(case s of [] \<Rightarrow> True | c # _ \<Rightarrow> c \<notin> set cs) \<Longrightarrow> trim_start_matches cs s = s"
  by (cases s) (auto simp: trim_start_matches_def)

lemma trim_end_matches_id:
  "s = [] \<or> last s \<notin> set cs \<Longrightarrow> trim_end_matches cs s = s"
  by (cases s rule: rev_cases) (auto simp: trim_end_matches_def)

lemma trim_end_matches_snoc [simp]:
  "trim_end_matches cs (s @ [c]) = (if c \<in> set cs then trim_end_matches cs s else s @ [c])"
  by (simp add: trim_end_matches_def)

lemma trim_end_matches_last: "trim_end_matches cs s = t \<Longrightarrow> t = [] \<or> last t \<notin> set cs"
proof (induction s arbitrary: t rule: rev_induct)
  case Nil
  then show ?case by (simp add: trim_end_matches_def)
next
  case (snoc c s)
  then show ?case by (auto split: if_splits)
qed

lemma trim_end_matches_prefix: "\<exists>r. s = trim_end_matches cs s @ r \<and> set r \<subseteq> set cs"
proof (induction s rule: rev_induct)
  case Nil
  then show ?case by (simp add: trim_end_matches_def)
next
  case (snoc c s)
  then obtain r where r: "s = trim_end_matches cs s @ r" "set r \<subseteq> set cs" by blast
  show ?case
  proof (cases "c \<in> set cs")
    case True
    with r have "s @ [c] = trim_end_matches cs (s @ [c]) @ (r @ [c])" "set (r @ [c]) \<subseteq> set cs"
      by simp_all
    then show ?thesis by blast
  next
    case False
    then show ?thesis by simp
  qed
qed

subsection \<open>Whitespace\<close>

definition ws_codes :: "string list" where
  "ws_codes =
     [[CHR 0x09], [CHR 0x0A], [CHR 0x0B], [CHR 0x0C], [CHR 0x0D], [CHR 0x20],
      [CHR 0xC2, CHR 0x85], [CHR 0xC2, CHR 0xA0], [CHR 0xE1, CHR 0x9A, CHR 0x80]] @
     map (\<lambda>i. [CHR 0xE2, CHR 0x80, char_of (i :: nat)]) [0x80..<0x8B] @
     [[CHR 0xE2, CHR 0x80, CHR 0xA8], [CHR 0xE2, CHR 0x80, CHR 0xA9],
      [CHR 0xE2, CHR 0x80, CHR 0xAF], [CHR 0xE2, CHR 0x81, CHR 0x9F],
      [CHR 0xE3, CHR 0x80, CHR 0x80]]"

fun strip_any :: "'a list list \<Rightarrow> 'a list \<Rightarrow> 'a list option" where
  "strip_any [] s = None"
| "strip_any (p # ps) s =
     (if p = [] then strip_any ps s
      else (case strip_prefix p s of Some r \<Rightarrow> Some r | None \<Rightarrow> strip_any ps s))"

lemma strip_any_shorter: "strip_any ps s = Some r \<Longrightarrow> length r < length s"
  by (induction ps) (auto simp: strip_prefix_Some_iff split: if_splits option.splits)

function trim_codes :: "'a list list \<Rightarrow> 'a list \<Rightarrow> 'a list" where
  "trim_codes ps s = (case strip_any ps s of None \<Rightarrow> s | Some r \<Rightarrow> trim_codes ps r)"
  by pat_completeness auto
termination
  by (relation "measure (\<lambda>(ps, s). length s)") (auto dest: strip_any_shorter)

declare trim_codes.simps [simp del]

definition trim_start :: "string \<Rightarrow> string" where
  "trim_start s = trim_codes ws_codes s"

definition trim_end :: "string \<Rightarrow> string" where
  "trim_end s = rev (trim_codes (map rev ws_codes) (rev s))"

definition trim :: "string \<Rightarrow> string" where
  "trim s = trim_end (trim_start s)"

fun take_token :: "string \<Rightarrow> string" where
  "take_token [] = []"
| "take_token (c # s) = (if strip_any ws_codes (c # s) = None then c # take_token s else [])"

text \<open>\<open>s.split_whitespace().next().unwrap_or_default()\<close>\<close>

definition first_token :: "string \<Rightarrow> string" where
  "first_token s = take_token (trim_start s)"

text \<open>
  Visible ASCII characters are not whitespace, and no whitespace encoding starts or ends with
  one: text that starts and ends with visible ASCII is its own trim.
\<close>

definition visible :: "char \<Rightarrow> bool" where
  "visible c \<longleftrightarrow> 0x21 \<le> (of_char c :: nat) \<and> (of_char c :: nat) < 0x7F"

lemma ws_codes_ends:
  assumes "w \<in> set ws_codes"
  shows "w \<noteq> [] \<and> \<not> visible (hd w) \<and> \<not> visible (last w)"
proof -
  have "list_all (\<lambda>w. w \<noteq> [] \<and> \<not> visible (hd w) \<and> \<not> visible (last w)) ws_codes"
    unfolding ws_codes_def visible_def by code_simp
  with assms show ?thesis by (auto simp: list_all_iff)
qed

lemma strip_any_None:
  "(\<And>w. w \<in> set ps \<Longrightarrow> w \<noteq> [] \<and> hd w \<noteq> c) \<Longrightarrow> strip_any ps (c # s) = None"
proof (induction ps)
  case Nil
  then show ?case by simp
next
  case (Cons w ps)
  have "w \<noteq> [] \<and> hd w \<noteq> c" using Cons.prems [of w] by simp
  then obtain d w' where "w = d # w'" "d \<noteq> c" by (cases w) auto
  moreover have "strip_any ps (c # s) = None" using Cons by simp
  ultimately show ?case by simp
qed

lemma strip_any_Nil [simp]: "strip_any ps [] = None"
proof -
  have "strip_any ps [] = Some r \<Longrightarrow> False" for r
    using strip_any_shorter [of ps "[]" r] by simp
  then show ?thesis by (cases "strip_any ps []") auto
qed

lemma strip_ws_visible [simp]: "visible c \<Longrightarrow> strip_any ws_codes (c # s) = None"
  using ws_codes_ends by (intro strip_any_None) blast

lemma trim_start_Nil [simp]: "trim_start [] = []"
  by (simp add: trim_start_def trim_codes.simps)

lemma trim_end_Nil [simp]: "trim_end [] = []"
  by (simp add: trim_end_def trim_codes.simps)

lemma trim_Nil [simp]: "trim [] = []"
  by (simp add: trim_def)

lemma trim_start_visible [str_simps]: "visible c \<Longrightarrow> trim_start (c # s) = c # s"
  by (simp add: trim_start_def trim_codes.simps)

lemma trim_end_visible [str_simps]: "visible c \<Longrightarrow> trim_end (s @ [c]) = s @ [c]"
proof -
  assume c: "visible c"
  have "strip_any (map rev ws_codes) (c # rev s) = None"
  proof (rule strip_any_None)
    fix w assume "w \<in> set (map rev ws_codes)"
    then obtain v where "v \<in> set ws_codes" "w = rev v" by auto
    with ws_codes_ends c show "w \<noteq> [] \<and> hd w \<noteq> c" by (auto simp: hd_rev)
  qed
  then show ?thesis by (simp add: trim_end_def trim_codes.simps)
qed

lemma trim_visible:
  assumes "s \<noteq> []" "visible (hd s)" "visible (last s)"
  shows "trim s = s"
proof -
  from assms have "trim_start s = s" by (cases s) (auto simp: trim_start_visible)
  moreover from assms have "trim_end s = s"
    by (metis append_butlast_last_id trim_end_visible)
  ultimately show ?thesis by (simp add: trim_def)
qed

lemma strip_ws_space [simp]:
  "strip_any ws_codes (CHR 0x20 # s) = Some s"
  "strip_any ws_codes (CHR 0x09 # s) = Some s"
  "strip_any ws_codes (CHR 0x0A # s) = Some s"
  by (simp_all add: ws_codes_def)

lemma trim_start_space [simp]:
  "trim_start (CHR 0x20 # s) = trim_start s"
  "trim_start (CHR 0x09 # s) = trim_start s"
  "trim_start (CHR 0x0A # s) = trim_start s"
  by (simp_all add: trim_start_def trim_codes.simps)

lemma trim_end_newline [simp]: "trim_end (s @ [CHR 0x0A]) = trim_end s"
  by (simp add: trim_end_def ws_codes_def trim_codes.simps [of _ "CHR 0x0A # _"])

lemma trim_end_space [simp]: "trim_end (s @ [CHR 0x20]) = trim_end s"
  by (simp add: trim_end_def ws_codes_def trim_codes.simps [of _ "CHR 0x20 # _"])

definition plain :: "string \<Rightarrow> bool" where
  "plain s \<longleftrightarrow> s \<noteq> [] \<and> list_all visible s"

lemma plainD:
  "plain s \<Longrightarrow> s \<noteq> []" "plain s \<Longrightarrow> visible (hd s)" "plain s \<Longrightarrow> visible (last s)"
  "plain s \<Longrightarrow> c \<in> set s \<Longrightarrow> visible c"
  by (auto simp: plain_def list_all_iff)

lemma trim_plain [simp]: "plain s \<Longrightarrow> trim s = s"
  by (rule trim_visible) (auto dest: plainD)

lemma trim_plain_newline [simp]: "plain s \<Longrightarrow> trim (s @ [CHR 0x0A]) = s"
proof -
  assume s: "plain s"
  then have "trim_start (s @ [CHR 0x0A]) = s @ [CHR 0x0A]"
    by (cases s) (auto simp: trim_start_visible plain_def)
  moreover from s have "trim_end s = s"
    by (metis append_butlast_last_id plainD(1,3) trim_end_visible)
  ultimately show ?thesis by (simp add: trim_def)
qed

lemma not_visible [simp]:
  "\<not> visible CHR 0x0A" "\<not> visible CHR 0x0D" "\<not> visible CHR 0x20" "\<not> visible CHR 0x09"
  by (simp_all add: visible_def)

lemma plain_no_space:
  "plain s \<Longrightarrow> CHR 0x0A \<notin> set s" "plain s \<Longrightarrow> CHR 0x0D \<notin> set s" "plain s \<Longrightarrow> CHR 0x20 \<notin> set s"
  using plainD(4) not_visible by blast+

lemma trim_space [simp]:
  "trim (CHR 0x20 # s) = trim s" "trim (CHR 0x09 # s) = trim s" "trim (CHR 0x0A # s) = trim s"
  by (simp_all add: trim_def)

subsection \<open>Lines\<close>

definition strip_cr :: "string \<Rightarrow> string" where
  "strip_cr l = unwrap_or l (strip_suffix [CHR 0x0D] l)"

function lines :: "string \<Rightarrow> string list" where
  "lines s =
     (if s = [] then []
      else (case split_once (CHR 0x0A) s of
              None \<Rightarrow> [s]
            | Some (l, rest) \<Rightarrow> strip_cr l # lines rest))"
  by pat_completeness auto
termination
  by (relation "measure length") (auto simp: split_once_Some_iff)

declare lines.simps [simp del]

lemma lines_Nil [simp]: "lines [] = []"
  by (simp add: lines.simps)

lemma lines_append_nl [str_simps]:
  "CHR 0x0A \<notin> set l \<Longrightarrow> lines (l @ CHR 0x0A # rest) = strip_cr l # lines rest"
  by (subst lines.simps) (simp add: split_once_append)

lemma lines_single: "CHR 0x0A \<notin> set l \<Longrightarrow> l \<noteq> [] \<Longrightarrow> lines l = [l]"
  by (subst lines.simps) (auto split: option.splits simp: split_once_Some_iff)

lemma strip_cr_id: "l = [] \<or> last l \<noteq> CHR 0x0D \<Longrightarrow> strip_cr l = l"
proof (cases "strip_suffix [CHR 0x0D] l")
  case None
  then show ?thesis by (simp add: strip_cr_def)
next
  case (Some r)
  then have "l = r @ [CHR 0x0D]" by (simp add: strip_suffix_Some_iff)
  moreover assume "l = [] \<or> last l \<noteq> CHR 0x0D"
  ultimately show ?thesis by simp
qed

lemma lines_concat:
  "(\<And>l. l \<in> set ls \<Longrightarrow> CHR 0x0A \<notin> set l \<and> CHR 0x0D \<notin> set l) \<Longrightarrow>
   lines (concat (map (\<lambda>l. l @ [CHR 0x0A]) ls)) = ls"
proof (induction ls)
  case Nil
  then show ?case by simp
next
  case (Cons l ls)
  have l: "CHR 0x0A \<notin> set l" "CHR 0x0D \<notin> set l" using Cons.prems [of l] by simp_all
  then have "strip_cr l = l"
    by (intro strip_cr_id) (metis last_in_set)
  with l Cons show ?case by (simp add: lines_append_nl)
qed

subsection \<open>Formatting numbers\<close>

definition digit_char :: "nat \<Rightarrow> char" where
  "digit_char d = char_of (48 + d)"

fun show_base :: "nat \<Rightarrow> nat \<Rightarrow> string" where
  "show_base b n =
     (if b < 2 \<or> n < b then [digit_char n] else show_base b (n div b) @ [digit_char (n mod b)])"

declare show_base.simps [simp del]

definition show_nat :: "nat \<Rightarrow> string" where
  "show_nat n = show_base 10 n"

definition show_int :: "int \<Rightarrow> string" where
  "show_int i = (if i < 0 then ''-'' @ show_nat (nat (- i)) else show_nat (nat i))"

text \<open>The formats \<open>{:#o}\<close> and \<open>{:#05o}\<close> of a \<open>u32\<close>.\<close>

definition show_oct :: "u32 \<Rightarrow> string" where
  "show_oct w = ''0o'' @ show_base 8 (unat w)"

definition show_oct5 :: "u32 \<Rightarrow> string" where
  "show_oct5 w =
     (let ds = show_base 8 (unat w) in ''0o'' @ replicate (3 - length ds) CHR ''0'' @ ds)"

subsection \<open>ASCII case\<close>

definition to_ascii_lowercase :: "char \<Rightarrow> char" where
  "to_ascii_lowercase c =
     (if 65 \<le> (of_char c :: nat) \<and> (of_char c :: nat) \<le> 90
      then char_of ((of_char c :: nat) + 32) else c)"

definition eq_ignore_ascii_case :: "string \<Rightarrow> string \<Rightarrow> bool" where
  "eq_ignore_ascii_case s t = (map to_ascii_lowercase s = map to_ascii_lowercase t)"

definition is_ascii_alphanumeric :: "char \<Rightarrow> bool" where
  "is_ascii_alphanumeric c =
     (let n = (of_char c :: nat) in
        (48 \<le> n \<and> n \<le> 57) \<or> (65 \<le> n \<and> n \<le> 90) \<or> (97 \<le> n \<and> n \<le> 122))"

subsection \<open>Lossy UTF-8\<close>

text \<open>
  \<open>String::from_utf8_lossy\<close>: well-formed sequences stay, and each longest prefix of a sequence that
  cannot be completed becomes the replacement character. \<open>utf8_width\<close> is the length a first byte
  announces, \<open>utf8_second\<close> the range the byte after it must be in.
\<close>

definition utf8_width :: "nat \<Rightarrow> nat" where
  "utf8_width b =
     (if b < 0x80 then 1 else if 0xC2 \<le> b \<and> b \<le> 0xDF then 2
      else if 0xE0 \<le> b \<and> b \<le> 0xEF then 3 else if 0xF0 \<le> b \<and> b \<le> 0xF4 then 4 else 0)"

definition utf8_second :: "nat \<Rightarrow> nat \<Rightarrow> bool" where
  "utf8_second b c =
     ((if b = 0xE0 then 0xA0 else if b = 0xF0 then 0x90 else 0x80) \<le> c \<and>
      c \<le> (if b = 0xED then 0x9F else if b = 0xF4 then 0x8F else 0xBF))"

definition utf8_cont :: "char \<Rightarrow> bool" where
  "utf8_cont c = (0x80 \<le> (of_char c :: nat) \<and> (of_char c :: nat) \<le> 0xBF)"

text \<open>How many bytes of the text form the next sequence, and whether it is complete.\<close>

definition utf8_next :: "string \<Rightarrow> nat \<times> bool" where
  "utf8_next s =
     (case s of
        [] \<Rightarrow> (0, True)
      | b # rest \<Rightarrow>
          let w = utf8_width (of_char b);
              more = (case rest of
                        c # rest' \<Rightarrow>
                          if utf8_second (of_char b) (of_char c)
                          then Suc (length (takeWhile utf8_cont (take (w - 2) rest'))) else 0
                      | [] \<Rightarrow> 0) in
            if w \<le> 1 then (1, w = 1) else (Suc more, Suc more = w))"

lemma utf8_next_pos: "s \<noteq> [] \<Longrightarrow> 0 < fst (utf8_next s)"
  by (cases s) (simp_all add: utf8_next_def Let_def)

lemma utf8_next_shorter: "s \<noteq> [] \<Longrightarrow> (n, complete) = utf8_next s \<Longrightarrow> length (drop n s) < length s"
  using utf8_next_pos [of s] by (cases "utf8_next s") (auto simp: neq_Nil_conv)

function from_utf8_lossy :: "string \<Rightarrow> string" where
  "from_utf8_lossy s =
     (if s = [] then []
      else (case utf8_next s of
              (n, complete) \<Rightarrow>
                (if complete then take n s else [CHR 0xEF, CHR 0xBF, CHR 0xBD]) @ from_utf8_lossy (drop n s)))"
  by pat_completeness auto
termination
  by (relation "measure length") (simp_all only: wf_measure in_measure, erule (1) utf8_next_shorter)

declare from_utf8_lossy.simps [simp del]

lemma from_utf8_lossy_ascii: "list_all (\<lambda>c. of_char c < (0x80 :: nat)) s \<Longrightarrow> from_utf8_lossy s = s"
proof (induction s)
  case Nil
  show ?case by (subst from_utf8_lossy.simps) simp
next
  case (Cons c s)
  then have "utf8_next (c # s) = (1, True)" by (simp add: utf8_next_def utf8_width_def Let_def)
  with Cons show ?case by (subst from_utf8_lossy.simps) simp
qed

end
