(* ===== verification/Policy.thy ===== *)
theory Policy
  imports Rust_Str
begin

section \<open>The policy engine\<close>

text \<open>
  The model of \<open>src/src/policy.rs\<close>: the operation vocabulary with its tags, the two forms a
  rule names operations in, the built-in roles, rules and policies, validation on load, and the
  first-match evaluation of a request. The \<open>glob\<close> crate is a parameter
  \<open>string \<Rightarrow> string + (string \<Rightarrow> bool)\<close>: a pattern compiles to a matcher or is refused with an
  error text. The YAML parser is a parameter too. The table \<open>roles\<close> of a policy is a
  \<open>HashMap\<close>; it is kept as an association list in the order the map iterates in, and looked up
  with \<open>map_of\<close>.
\<close>

subsection \<open>Operations\<close>

datatype operation =
    Push | Fetch | Pull | Clone
  | PrOpen | PrComment | PrClose | PrMerge | PrReview
  | IssueOpen | IssueComment | IssueClose
  | ReleaseCreate | ReleaseDelete | ReleaseEdit | ReleaseUpload | ReleaseDeleteAsset
  | ReleaseList | ReleaseView | ReleaseDownload
  | GhApiRead string

definition has_branch :: "operation \<Rightarrow> bool" where
  "has_branch op = (op = Push)"

fun tag :: "operation \<Rightarrow> string" where
  "tag Push = ''push''"
| "tag Fetch = ''fetch''"
| "tag Pull = ''pull''"
| "tag Clone = ''clone''"
| "tag PrOpen = ''pr_open''"
| "tag PrComment = ''pr_comment''"
| "tag PrClose = ''pr_close''"
| "tag PrMerge = ''pr_merge''"
| "tag PrReview = ''pr_review''"
| "tag IssueOpen = ''issue_open''"
| "tag IssueComment = ''issue_comment''"
| "tag IssueClose = ''issue_close''"
| "tag ReleaseCreate = ''release_create''"
| "tag ReleaseDelete = ''release_delete''"
| "tag ReleaseEdit = ''release_edit''"
| "tag ReleaseUpload = ''release_upload''"
| "tag ReleaseDeleteAsset = ''release_delete_asset''"
| "tag ReleaseList = ''release_list''"
| "tag ReleaseView = ''release_view''"
| "tag ReleaseDownload = ''release_download''"
| "tag (GhApiRead _) = ''gh_api_read''"

definition from_tag :: "string \<Rightarrow> operation option" where
  "from_tag t =
     (if t = ''push'' then Some Push
      else if t = ''fetch'' then Some Fetch
      else if t = ''pull'' then Some Pull
      else if t = ''clone'' then Some Clone
      else if t = ''pr_open'' then Some PrOpen
      else if t = ''pr_comment'' then Some PrComment
      else if t = ''pr_close'' then Some PrClose
      else if t = ''pr_merge'' then Some PrMerge
      else if t = ''pr_review'' then Some PrReview
      else if t = ''issue_open'' then Some IssueOpen
      else if t = ''issue_comment'' then Some IssueComment
      else if t = ''issue_close'' then Some IssueClose
      else if t = ''release_create'' then Some ReleaseCreate
      else if t = ''release_delete'' then Some ReleaseDelete
      else if t = ''release_edit'' then Some ReleaseEdit
      else if t = ''release_upload'' then Some ReleaseUpload
      else if t = ''release_delete_asset'' then Some ReleaseDeleteAsset
      else if t = ''release_list'' then Some ReleaseList
      else if t = ''release_view'' then Some ReleaseView
      else if t = ''release_download'' then Some ReleaseDownload
      else if t = ''gh_api_read'' then Some (GhApiRead [])
      else None)"

definition parse_operation :: "string \<Rightarrow> operation option" where
  "parse_operation t = from_tag t"

definition same_kind :: "operation \<Rightarrow> operation \<Rightarrow> bool" where
  "same_kind a b = (tag a = tag b)"

subsection \<open>Serialisation of operations and of the operations field\<close>

text \<open>
  The custom \<open>Serialize\<close> and \<open>Deserialize\<close> implementations, over the values a YAML document
  is made of.
\<close>

datatype yaml = YStr string | YSeq "yaml list" | YOther

datatype de_error = UnknownVariant string | InvalidType

definition serialize_operation :: "operation \<Rightarrow> yaml" where
  "serialize_operation op = YStr (tag op)"

definition deserialize_operation :: "yaml \<Rightarrow> de_error + operation" where
  "deserialize_operation y =
     (case y of
        YStr t \<Rightarrow> ok_or (UnknownVariant t) (from_tag t)
      | _ \<Rightarrow> Inl InvalidType)"

datatype operations_spec = Role string | OpList "operation list"

definition serialize_operations_spec :: "operations_spec \<Rightarrow> yaml" where
  "serialize_operations_spec s =
     (case s of
        Role name \<Rightarrow> YStr name
      | OpList ops \<Rightarrow> YSeq (map serialize_operation ops))"

fun visit_seq :: "operation list \<Rightarrow> yaml list \<Rightarrow> de_error + operation list" where
  "visit_seq acc [] = Inr acc"
| "visit_seq acc (y # ys) =
     (case deserialize_operation y of
        Inl e \<Rightarrow> Inl e
      | Inr op \<Rightarrow> visit_seq (acc @ [op]) ys)"

definition deserialize_operations_spec :: "yaml \<Rightarrow> de_error + operations_spec" where
  "deserialize_operations_spec y =
     (case y of
        YStr name \<Rightarrow> Inr (Role name)
      | YSeq ys \<Rightarrow> (case visit_seq [] ys of Inl e \<Rightarrow> Inl e | Inr ops \<Rightarrow> Inr (OpList ops))
      | YOther \<Rightarrow> Inl InvalidType)"

subsection \<open>Built-in roles\<close>

definition read_only_ops :: "operation list" where
  "read_only_ops =
     [Fetch, Clone, Pull, PrReview, GhApiRead [], ReleaseList, ReleaseView, ReleaseDownload]"

definition write_ops :: "operation list" where
  "write_ops =
     read_only_ops @
     [Push, PrOpen, PrComment, PrClose, PrMerge, IssueOpen, IssueComment, IssueClose]"

definition maintain_ops :: "operation list" where
  "maintain_ops =
     write_ops @
     [ReleaseCreate, ReleaseDelete, ReleaseEdit, ReleaseUpload, ReleaseDeleteAsset]"

definition admin_ops :: "operation list" where
  "admin_ops = maintain_ops"

definition builtin_roles :: "(string \<times> operation list) list" where
  "builtin_roles =
     [(''read-only'', read_only_ops), (''write'', write_ops),
      (''maintain'', maintain_ops), (''admin'', admin_ops)]"

subsection \<open>Rules, policies, requests and decisions\<close>

datatype effect = EffAllow | EffDeny

record rule =
  rule_user :: string
  rule_org :: string
  rule_repo :: string
  rule_spec :: operations_spec
  rule_branches :: "string list"
  rule_effect :: effect

definition default_branches :: "string list" where
  "default_branches = [''*'']"

record policy =
  rules :: "rule list"
  roles :: "(string \<times> operation list) list"

record policy_request =
  req_user :: string
  req_org :: string
  req_repo :: string
  req_operation :: operation
  req_branch :: "string option"

datatype decision = Allow | Deny string

datatype policy_error =
    PolicyIo io_error
  | PolicyYaml string
  | EmptyOperations nat
  | UnknownRole nat string
  | EmptyRole string
  | InvalidBranchGlob nat string string

definition policy_error_text :: "policy_error \<Rightarrow> string" where
  "policy_error_text e =
     (case e of
        PolicyIo err \<Rightarrow> ''io error: '' @ io_text err
      | PolicyYaml err \<Rightarrow> ''yaml parse error: '' @ err
      | EmptyOperations i \<Rightarrow> ''rule '' @ show_nat i @ '' has empty operations list''
      | UnknownRole i name \<Rightarrow>
          ''rule '' @ show_nat i @ '' references unknown role '' @ [CHR 0x27] @ name @ [CHR 0x27]
      | EmptyRole name \<Rightarrow>
          ''role '' @ [CHR 0x27] @ name @ [CHR 0x27] @ '' has an empty operation set''
      | InvalidBranchGlob i pat src \<Rightarrow>
          ''rule '' @ show_nat i @ '' has invalid branch glob '' @ [CHR 0x27] @ pat @ [CHR 0x27] @
          '': '' @ src)"

type_synonym glob = "string \<Rightarrow> string + (string \<Rightarrow> bool)"
type_synonym yaml_parser = "string \<Rightarrow> string + policy"

subsection \<open>Loading and validation\<close>

definition resolve_role :: "policy \<Rightarrow> string \<Rightarrow> operation list option" where
  "resolve_role p name =
     (case map_of (roles p) name of
        Some ops \<Rightarrow> Some ops
      | None \<Rightarrow> map_of builtin_roles name)"

fun validate_roles :: "(string \<times> operation list) list \<Rightarrow> policy_error + unit" where
  "validate_roles [] = Inr ()"
| "validate_roles ((name, ops) # rs) =
     (if ops = [] then Inl (EmptyRole name) else validate_roles rs)"

fun validate_branches :: "glob \<Rightarrow> nat \<Rightarrow> string list \<Rightarrow> policy_error + unit" where
  "validate_branches glob i [] = Inr ()"
| "validate_branches glob i (pat # pats) =
     (case glob pat of
        Inl src \<Rightarrow> Inl (InvalidBranchGlob i pat src)
      | Inr _ \<Rightarrow> validate_branches glob i pats)"

definition validate_spec :: "policy \<Rightarrow> nat \<Rightarrow> operations_spec \<Rightarrow> policy_error + unit" where
  "validate_spec p i s =
     (case s of
        OpList ops \<Rightarrow> if ops = [] then Inl (EmptyOperations i) else Inr ()
      | Role name \<Rightarrow>
          (case resolve_role p name of
             None \<Rightarrow> Inl (UnknownRole i name)
           | Some _ \<Rightarrow> Inr ()))"

fun validate_rules :: "glob \<Rightarrow> policy \<Rightarrow> nat \<Rightarrow> rule list \<Rightarrow> policy_error + unit" where
  "validate_rules glob p i [] = Inr ()"
| "validate_rules glob p i (r # rs) =
     (case validate_spec p i (rule_spec r) of
        Inl e \<Rightarrow> Inl e
      | Inr _ \<Rightarrow>
          (case validate_branches glob i (rule_branches r) of
             Inl e \<Rightarrow> Inl e
           | Inr _ \<Rightarrow> validate_rules glob p (Suc i) rs))"

definition validate :: "glob \<Rightarrow> policy \<Rightarrow> policy_error + unit" where
  "validate glob p =
     (case validate_roles (roles p) of
        Inl e \<Rightarrow> Inl e
      | Inr _ \<Rightarrow> validate_rules glob p 0 (rules p))"

definition from_yaml :: "yaml_parser \<Rightarrow> glob \<Rightarrow> string \<Rightarrow> policy_error + policy" where
  "from_yaml parse glob text =
     (case parse text of
        Inl e \<Rightarrow> Inl (PolicyYaml e)
      | Inr p \<Rightarrow> (case validate glob p of Inl e \<Rightarrow> Inl e | Inr _ \<Rightarrow> Inr p))"

subsection \<open>Evaluation\<close>

definition rule_operations :: "policy \<Rightarrow> rule \<Rightarrow> operation list option" where
  "rule_operations p r =
     (case rule_spec r of
        OpList ops \<Rightarrow> Some ops
      | Role name \<Rightarrow> resolve_role p name)"

definition field_matches :: "string \<Rightarrow> string \<Rightarrow> bool" where
  "field_matches pat val = (pat = ''*'' \<or> pat = val)"

definition branch_matches :: "glob \<Rightarrow> string list \<Rightarrow> policy_request \<Rightarrow> bool" where
  "branch_matches glob branches q =
     (if \<not> has_branch (req_operation q) then True
      else (case req_branch q of
              None \<Rightarrow> list_ex (\<lambda>pat. pat = ''*'') branches
            | Some branch \<Rightarrow>
                list_ex (\<lambda>pat. case glob pat of Inl _ \<Rightarrow> False | Inr m \<Rightarrow> m branch) branches))"

definition rule_matches :: "glob \<Rightarrow> rule \<Rightarrow> operation list \<Rightarrow> policy_request \<Rightarrow> bool" where
  "rule_matches glob r ops q =
     (if \<not> field_matches (rule_user r) (req_user q) then False
      else if \<not> field_matches (rule_org r) (req_org q) then False
      else if \<not> field_matches (rule_repo r) (req_repo q) then False
      else if \<not> list_ex (\<lambda>op. same_kind op (req_operation q)) ops then False
      else if \<not> branch_matches glob (rule_branches r) q then False
      else True)"

definition rule_decision :: "rule \<Rightarrow> decision" where
  "rule_decision r =
     (case rule_effect r of
        EffAllow \<Rightarrow> Allow
      | EffDeny \<Rightarrow> Deny (''denied by policy rule for '' @ rule_org r @ ''/'' @ rule_repo r))"

fun evaluate_rules :: "glob \<Rightarrow> policy \<Rightarrow> rule list \<Rightarrow> policy_request \<Rightarrow> decision" where
  "evaluate_rules glob p [] q = Deny ''no matching rule''"
| "evaluate_rules glob p (r # rs) q =
     (case rule_operations p r of
        None \<Rightarrow> evaluate_rules glob p rs q
      | Some ops \<Rightarrow>
          if rule_matches glob r ops q then rule_decision r else evaluate_rules glob p rs q)"

definition evaluate :: "glob \<Rightarrow> policy \<Rightarrow> policy_request \<Rightarrow> decision" where
  "evaluate glob p q = evaluate_rules glob p (rules p) q"

subsection \<open>First-match engines\<close>

text \<open>
  The contract every first-match rule engine has: it walks the rules in order, the first rule
  that applies decides, and a default decides when none applies. Its clients rely on the
  characterisation by \<open>find\<close> and on how appending rules at the end acts.
\<close>

locale first_match =
  fixes applies :: "'r \<Rightarrow> 'q \<Rightarrow> bool"
    and verdict :: "'r \<Rightarrow> 'd"
    and fallback :: 'd
    and decide :: "'r list \<Rightarrow> 'q \<Rightarrow> 'd"
  assumes decide_Nil: "decide [] q = fallback"
    and decide_Cons: "decide (r # rs) q = (if applies r q then verdict r else decide rs q)"
begin

lemma decide_find:
  "decide rs q = (case find (\<lambda>r. applies r q) rs of None \<Rightarrow> fallback | Some r \<Rightarrow> verdict r)"
  by (induction rs) (simp_all add: decide_Nil decide_Cons)

lemma decide_append:
  "decide (rs @ ss) q = (if list_ex (\<lambda>r. applies r q) rs then decide rs q else decide ss q)"
  by (induction rs) (simp_all add: decide_Nil decide_Cons)

lemma decide_none: "\<not> list_ex (\<lambda>r. applies r q) rs \<Longrightarrow> decide rs q = fallback"
  by (induction rs) (simp_all add: decide_Nil decide_Cons)

lemma decide_eq_iff:
  "d \<noteq> fallback \<Longrightarrow>
   decide rs q = d \<longleftrightarrow>
   (\<exists>pre r post. rs = pre @ r # post \<and> applies r q \<and> verdict r = d \<and>
      (\<forall>s \<in> set pre. \<not> applies s q))"
proof -
  assume "d \<noteq> fallback"
  then have "decide rs q = d \<longleftrightarrow> (\<exists>r. find (\<lambda>r. applies r q) rs = Some r \<and> verdict r = d)"
    by (auto simp: decide_find split: option.splits)
  then show ?thesis by (auto simp: find_Some_split)
qed

lemma decide_filter: "decide (filter (\<lambda>r. applies r q) rs) q = decide rs q"
  by (induction rs) (simp_all add: decide_Nil decide_Cons)

end

text \<open>A rule applies when its operations resolve and it matches.\<close>

definition rule_applies :: "glob \<Rightarrow> policy \<Rightarrow> rule \<Rightarrow> policy_request \<Rightarrow> bool" where
  "rule_applies glob p r q =
     (case rule_operations p r of None \<Rightarrow> False | Some ops \<Rightarrow> rule_matches glob r ops q)"

interpretation engine: first_match
  "rule_applies glob p" rule_decision "Deny ''no matching rule''" "evaluate_rules glob p"
  for glob p
  by unfold_locales (auto simp: rule_applies_def split: option.splits)

lemma rule_decision_Allow_iff [simp]: "rule_decision r = Allow \<longleftrightarrow> rule_effect r = EffAllow"
  by (simp add: rule_decision_def split: effect.split)

subsection \<open>What policies denote\<close>

text \<open>
  Two policies with the same rules and the same role table as a map are the same policy: the
  iteration order of the \<open>HashMap\<close> does not reach any decision.
\<close>

definition same_policy :: "policy \<Rightarrow> policy \<Rightarrow> bool" where
  "same_policy p p' \<longleftrightarrow> rules p = rules p' \<and> map_of (roles p) = map_of (roles p')"

definition push_rule :: "rule \<Rightarrow> policy \<Rightarrow> policy" where
  "push_rule r p = p\<lparr>rules := rules p @ [r]\<rparr>"

text \<open>The well-formedness that loading a policy enforces.\<close>

definition wf_spec :: "policy \<Rightarrow> operations_spec \<Rightarrow> bool" where
  "wf_spec p s =
     (case s of OpList ops \<Rightarrow> ops \<noteq> [] | Role name \<Rightarrow> resolve_role p name \<noteq> None)"

definition wf_rule :: "glob \<Rightarrow> policy \<Rightarrow> rule \<Rightarrow> bool" where
  "wf_rule glob p r \<longleftrightarrow>
     wf_spec p (rule_spec r) \<and> list_all (\<lambda>pat. \<exists>m. glob pat = Inr m) (rule_branches r)"

definition wf_policy :: "glob \<Rightarrow> policy \<Rightarrow> bool" where
  "wf_policy glob p \<longleftrightarrow>
     list_all (\<lambda>(name, ops). ops \<noteq> []) (roles p) \<and> list_all (wf_rule glob p) (rules p)"

lemma validate_roles_ok:
  "validate_roles rs = Inr () \<longleftrightarrow> list_all (\<lambda>(name, ops). ops \<noteq> []) rs"
  by (induction rs rule: validate_roles.induct) auto

lemma validate_branches_ok:
  "validate_branches glob i pats = Inr () \<longleftrightarrow> list_all (\<lambda>pat. \<exists>m. glob pat = Inr m) pats"
  by (induction glob i pats rule: validate_branches.induct) (auto split: sum.splits)

lemma validate_spec_ok: "validate_spec p i s = Inr () \<longleftrightarrow> wf_spec p s"
  by (auto simp: validate_spec_def wf_spec_def split: operations_spec.splits option.splits)

lemma validate_rules_ok:
  "validate_rules glob p i rs = Inr () \<longleftrightarrow> list_all (wf_rule glob p) rs"
proof (induction glob p i rs rule: validate_rules.induct)
  case (1 glob p i)
  then show ?case by simp
next
  case (2 glob p i r rs)
  then show ?case
    by (auto simp: wf_rule_def validate_spec_ok [symmetric, where i = i]
        validate_branches_ok [symmetric, where i = i] split: sum.splits)
qed

lemma validate_ok: "validate glob p = Inr () \<longleftrightarrow> wf_policy glob p"
  by (auto simp: validate_def wf_policy_def validate_roles_ok [symmetric]
      validate_rules_ok [symmetric, where i = 0] split: sum.splits)

lemma from_yaml_ok:
  "from_yaml parse glob text = Inr p \<longleftrightarrow> parse text = Inr p \<and> wf_policy glob p"
  by (auto simp: from_yaml_def validate_ok [symmetric] split: sum.splits)

lemma resolve_role_same: "same_policy p p' \<Longrightarrow> resolve_role p = resolve_role p'"
  by (auto simp: same_policy_def resolve_role_def fun_eq_iff)

lemma rule_applies_same: "same_policy p p' \<Longrightarrow> rule_applies glob p = rule_applies glob p'"
  by (simp add: rule_applies_def rule_operations_def resolve_role_same [of p p'] fun_eq_iff
      split: operations_spec.split)

lemma evaluate_same: "same_policy p p' \<Longrightarrow> evaluate glob p q = evaluate glob p' q"
  by (simp add: evaluate_def engine.decide_find rule_applies_same [of p p'])
    (simp add: same_policy_def)

lemma rule_applies_push [simp]: "rule_applies glob (push_rule r p) = rule_applies glob p"
  by (simp add: rule_applies_def rule_operations_def resolve_role_def push_rule_def fun_eq_iff
      split: operations_spec.split)

lemma rules_push [simp]: "rules (push_rule r p) = rules p @ [r]"
  by (simp add: push_rule_def)

lemma roles_push [simp]: "roles (push_rule r p) = roles p"
  by (simp add: push_rule_def)

lemma wf_rule_push [simp]: "wf_rule glob (push_rule r p) s = wf_rule glob p s"
  by (simp add: wf_rule_def wf_spec_def resolve_role_def split: operations_spec.split)

lemma wf_policy_push: "wf_policy glob (push_rule r p) \<longleftrightarrow> wf_policy glob p \<and> wf_rule glob p r"
  by (auto simp: wf_policy_def list_all_iff)

lemma tag_inj_kind: "tag a = tag b \<Longrightarrow> (\<exists>x y. a = GhApiRead x \<and> b = GhApiRead y) \<or> a = b"
  by (cases a; cases b) simp_all

lemma from_tag_tag: "from_tag (tag op) = Some (case op of GhApiRead _ \<Rightarrow> GhApiRead [] | _ \<Rightarrow> op)"
  by (cases op) (simp_all add: from_tag_def)

lemma tag_from_tag: "from_tag t = Some op \<Longrightarrow> tag op = t"
  by (auto simp: from_tag_def split: if_splits)

lemma validate_roles_unknown: "validate_roles rs \<noteq> Inl (UnknownRole i n)"
  by (induction rs rule: validate_roles.induct) auto

lemma validate_branches_unknown: "validate_branches glob k pats \<noteq> Inl (UnknownRole i n)"
  by (induction glob k pats rule: validate_branches.induct) (auto split: sum.splits)

lemma validate_rules_unknown:
  "validate_rules glob p k rs = Inl (UnknownRole i n) \<Longrightarrow>
   \<exists>j. i = k + j \<and> j < length rs \<and> rule_spec (rs ! j) = Role n \<and> resolve_role p n = None \<and>
     list_all (wf_rule glob p) (take j rs)"
proof (induction glob p k rs rule: validate_rules.induct)
  case (1 glob p k)
  then show ?case by simp
next
  case (2 glob p k r rs)
  show ?case
  proof (cases "validate_spec p k (rule_spec r)")
    case (Inl e)
    with "2.prems" have "i = k" "rule_spec r = Role n" "resolve_role p n = None"
      by (auto simp: validate_spec_def split: operations_spec.splits option.splits if_splits)
    then show ?thesis by (intro exI [of _ 0]) simp
  next
    case (Inr u)
    then have spec: "wf_spec p (rule_spec r)" using validate_spec_ok [of p k "rule_spec r"] by simp
    from "2.prems" Inr obtain v where br: "validate_branches glob k (rule_branches r) = Inr v"
      by (auto split: sum.splits simp: validate_branches_unknown)
    with "2.prems" Inr have "validate_rules glob p (Suc k) rs = Inl (UnknownRole i n)" by simp
    from "2.IH" [OF Inr br this] obtain j where
      "i = Suc k + j" "j < length rs" "rule_spec (rs ! j) = Role n" "resolve_role p n = None"
      "list_all (wf_rule glob p) (take j rs)" by blast
    moreover have "wf_rule glob p r"
      using spec br validate_branches_ok [of glob k "rule_branches r"] by (simp add: wf_rule_def)
    ultimately show ?thesis by (intro exI [of _ "Suc j"]) simp
  qed
qed

lemma evaluate_Allow_aux:
  "evaluate glob p q = Allow \<Longrightarrow>
   \<exists>r \<in> set (rules p). rule_applies glob p r q \<and> rule_effect r = EffAllow"
  unfolding evaluate_def
  by (subst (asm) engine.decide_eq_iff) (auto intro: bexI)

subsection \<open>Example policies for the witnesses\<close>

definition example_glob :: glob where
  "example_glob pat = (if pat = ''['' then Inl ''bad range'' else Inr (\<lambda>b. pat = ''*'' \<or> pat = b))"

definition example_rule :: rule where
  "example_rule =
     \<lparr>rule_user = ''alice'', rule_org = ''acme'', rule_repo = ''web'', rule_spec = Role ''write'',
      rule_branches = [''main''], rule_effect = EffAllow\<rparr>"

definition example_policy :: policy where
  "example_policy = \<lparr>rules = [example_rule], roles = []\<rparr>"

subsection \<open>Properties\<close>

text \<open>
  What it means for a rule to cover a request, said without the engine: the operations it lists, or
  those of the role it names, contain one of the request's kind; each name is the request's or \<open>*\<close>;
  and where the operation has a branch, a pattern matches it, or is \<open>*\<close> if the branch is unknown.
\<close>

definition covers :: "glob \<Rightarrow> policy \<Rightarrow> rule \<Rightarrow> policy_request \<Rightarrow> bool" where
  "covers glob p r q \<longleftrightarrow>
     (\<exists>ops. (rule_spec r = OpList ops \<or> (\<exists>name. rule_spec r = Role name \<and> resolve_role p name = Some ops)) \<and>
        tag (req_operation q) \<in> tag ` set ops) \<and>
     rule_user r \<in> {''*'', req_user q} \<and> rule_org r \<in> {''*'', req_org q} \<and> rule_repo r \<in> {''*'', req_repo q} \<and>
     (has_branch (req_operation q) \<longrightarrow>
        (case req_branch q of
           None \<Rightarrow> ''*'' \<in> set (rule_branches r)
         | Some branch \<Rightarrow> (\<exists>pat \<in> set (rule_branches r). \<exists>m. glob pat = Inr m \<and> m branch)))"

lemma rule_matches_iff:
  "rule_matches glob r ops q \<longleftrightarrow>
     tag (req_operation q) \<in> tag ` set ops \<and>
     rule_user r \<in> {''*'', req_user q} \<and> rule_org r \<in> {''*'', req_org q} \<and> rule_repo r \<in> {''*'', req_repo q} \<and>
     branch_matches glob (rule_branches r) q"
proof -
  have "list_ex (\<lambda>op. same_kind op (req_operation q)) ops \<longleftrightarrow> tag (req_operation q) \<in> tag ` set ops"
    by (auto simp: list_ex_iff same_kind_def image_iff) metis
  then show ?thesis by (auto simp: rule_matches_def field_matches_def)
qed

lemma branch_matches_iff:
  "branch_matches glob pats q \<longleftrightarrow>
     (has_branch (req_operation q) \<longrightarrow>
        (case req_branch q of
           None \<Rightarrow> ''*'' \<in> set pats
         | Some branch \<Rightarrow> (\<exists>pat \<in> set pats. \<exists>m. glob pat = Inr m \<and> m branch)))"
proof -
  have "(case glob pat of Inl _ \<Rightarrow> False | Inr m \<Rightarrow> m branch) \<longleftrightarrow> (\<exists>m. glob pat = Inr m \<and> m branch)" for pat branch
    by (cases "glob pat") simp_all
  then show ?thesis by (auto simp: branch_matches_def list_ex_iff split: option.split)
qed

lemma rule_applies_covers: "rule_applies glob p r q \<longleftrightarrow> covers glob p r q"
  by (cases "rule_spec r")
    (auto simp: rule_applies_def covers_def rule_operations_def rule_matches_iff branch_matches_iff split: option.splits)

text \<open>
  C9. A request is allowed exactly when some rule that covers it has the effect \<open>allow\<close> and no rule
  before it in the document covers it: the first matching rule decides, and without a matching
  rule the answer is a denial.
\<close>

theorem evaluate_Allow_iff:
  "evaluate glob p q = Allow \<longleftrightarrow>
   (\<exists>pre r post. rules p = pre @ r # post \<and> covers glob p r q \<and>
      rule_effect r = EffAllow \<and> \<not> list_ex (\<lambda>s. covers glob p s q) pre)"
  unfolding evaluate_def rule_applies_covers [symmetric]
  by (subst engine.decide_eq_iff) (auto simp: list_ex_iff)

text \<open>
  C10. Loading a document succeeds with a policy exactly when the YAML parser yields that policy
  and the policy is well-formed: no declared role is empty, every rule has a non-empty operation
  list or a role that resolves, and every branch pattern compiles. A rejection for an unknown role
  names the index of the first rule at fault and the role it refers to, which does not resolve.
\<close>

theorem from_yaml_iff_wf:
  "(from_yaml parse glob text = Inr p \<longleftrightarrow> parse text = Inr p \<and> wf_policy glob p) \<and>
   (from_yaml parse glob text = Inl (UnknownRole i n) \<longrightarrow>
     (\<exists>p'. parse text = Inr p' \<and> i < length (rules p') \<and> rule_spec (rules p' ! i) = Role n \<and>
        resolve_role p' n = None \<and> list_all (wf_rule glob p') (take i (rules p'))))"
proof (intro conjI impI)
  show "from_yaml parse glob text = Inr p \<longleftrightarrow> parse text = Inr p \<and> wf_policy glob p"
    by (rule from_yaml_ok)
next
  assume "from_yaml parse glob text = Inl (UnknownRole i n)"
  then obtain p' where p': "parse text = Inr p'"
    "validate_rules glob p' 0 (rules p') = Inl (UnknownRole i n)"
    by (auto simp: from_yaml_def validate_def validate_roles_unknown split: sum.splits)
  with validate_rules_unknown [OF p'(2)] show "\<exists>p'. parse text = Inr p' \<and>
      i < length (rules p') \<and> rule_spec (rules p' ! i) = Role n \<and> resolve_role p' n = None \<and>
      list_all (wf_rule glob p') (take i (rules p'))"
    by auto
qed

definition example_bad_policy :: policy where
  "example_bad_policy =
     \<lparr>rules = [example_rule, example_rule\<lparr>rule_spec := Role ''maintainer''\<rparr>], roles = []\<rparr>"

theorem from_yaml_iff_wf_witness:
  "\<exists>p'. (Inr example_bad_policy :: string + policy) = Inr p' \<and> 1 < length (rules p') \<and>
     rule_spec (rules p' ! 1) = Role ''maintainer'' \<and>
     resolve_role p' ''maintainer'' = None \<and> list_all (wf_rule example_glob p') (take 1 (rules p'))"
proof -
  have "from_yaml (\<lambda>_. Inr example_bad_policy) example_glob [] = Inl (UnknownRole 1 ''maintainer'')"
    by (simp add: from_yaml_def validate_def example_bad_policy_def example_rule_def
        validate_spec_def resolve_role_def builtin_roles_def example_glob_def)
  with from_yaml_iff_wf [of "\<lambda>_. Inr example_bad_policy" example_glob "[]" example_bad_policy 1
      "''maintainer''"]
  show ?thesis by blast
qed

text \<open>
  In a policy that passed validation no rule is ever skipped: every rule's operations
  resolve, to a non-empty list, so a validated policy never holds an unresolved role.
\<close>

theorem wf_policy_resolves:
  assumes "validate glob p = Inr ()" and "r \<in> set (rules p)"
  shows "\<exists>ops. rule_operations p r = Some ops \<and> ops \<noteq> []"
proof -
  from assms(1) have wf: "wf_policy glob p" by (simp add: validate_ok)
  with assms(2) have "wf_spec p (rule_spec r)"
    by (auto simp: wf_policy_def list_all_iff wf_rule_def)
  moreover have "map_of (roles p) name = Some ops \<Longrightarrow> ops \<noteq> []" for name ops
    using wf by (auto simp: wf_policy_def list_all_iff dest: map_of_SomeD)
  moreover have "map_of builtin_roles name = Some ops \<Longrightarrow> ops \<noteq> []" for name ops
    by (auto simp: builtin_roles_def read_only_ops_def write_ops_def maintain_ops_def
        admin_ops_def split: if_splits)
  ultimately show ?thesis
    by (auto simp: wf_spec_def rule_operations_def resolve_role_def
        split: operations_spec.splits option.splits)
qed

theorem wf_policy_resolves_witness:
  "\<exists>ops. rule_operations example_policy example_rule = Some ops \<and> ops \<noteq> []"
proof (rule wf_policy_resolves)
  show "validate example_glob example_policy = Inr ()"
    by (simp add: validate_def example_policy_def example_rule_def validate_spec_def
        resolve_role_def builtin_roles_def example_glob_def)
  show "example_rule \<in> set (rules example_policy)"
    by (simp add: example_policy_def)
qed

lemma evaluate_no_rule:
  assumes "\<not> list_ex (\<lambda>r. rule_applies glob p r q) (rules p)"
  shows "evaluate glob p q = Deny ''no matching rule''"
proof -
  have "\<not> list_ex (\<lambda>r. rule_applies glob p r q) rs \<Longrightarrow> evaluate_rules glob p rs q = Deny ''no matching rule''" for rs
  proof -
    assume "\<not> list_ex (\<lambda>r. rule_applies glob p r q) rs"
    then have "find (\<lambda>r. rule_applies glob p r q) rs = None"
      by (auto simp: find_None_iff list_ex_iff)
    then show ?thesis by (simp add: engine.decide_find)
  qed
  with assms show ?thesis by (simp add: evaluate_def)
qed

lemma evaluate_push_aux:
  "evaluate glob (push_rule r p) q =
     (if list_ex (\<lambda>s. rule_applies glob p s q) (rules p) then evaluate glob p q
      else if rule_applies glob p r q then rule_decision r
      else Deny ''no matching rule'')"
proof -
  have same: "evaluate_rules glob (push_rule r p) rs q = evaluate_rules glob p rs q" for rs
    by (simp add: engine.decide_find)
  have "evaluate_rules glob p [r] q =
      (if rule_applies glob p r q then rule_decision r else Deny ''no matching rule'')"
    by (simp only: engine.decide_Cons engine.decide_Nil)
  then show ?thesis
    by (simp add: evaluate_def same engine.decide_append del: evaluate_rules.simps)
qed

text \<open>
  Appending a rule at the end of a policy, as a grant does, leaves the decision of every
  request some rule already applies to as it was; any other request is decided by the new rule
  if it applies and stays denied otherwise.
\<close>

theorem evaluate_push_rule:
  "evaluate glob (push_rule r p) q =
     (if list_ex (\<lambda>s. rule_applies glob p s q) (rules p) then evaluate glob p q
      else if rule_applies glob p r q then rule_decision r
      else Deny ''no matching rule'')"
  by (rule evaluate_push_aux)

text \<open>
  The decision depends on the branch only for a push, and never on the path of a
  \<open>gh api\<close> read: requests that agree on user, organisation, repository and operation kind get
  the same answer when the operation has no branch.
\<close>

theorem evaluate_kind_only:
  assumes "\<not> has_branch (req_operation q)" and "same_kind op (req_operation q)"
  shows "evaluate glob p (q\<lparr>req_operation := op, req_branch := b\<rparr>) = evaluate glob p q"
proof -
  have "\<not> has_branch op"
    using assms tag_inj_kind [of op "req_operation q"] by (auto simp: has_branch_def same_kind_def)
  then have "rule_applies glob p r (q\<lparr>req_operation := op, req_branch := b\<rparr>) = rule_applies glob p r q" for r
    using assms
    by (simp add: rule_applies_def rule_matches_def branch_matches_def same_kind_def
        split: option.split)
  then show ?thesis by (simp add: evaluate_def engine.decide_find)
qed

theorem evaluate_kind_only_witness:
  "evaluate example_glob example_policy
     \<lparr>req_user = ''alice'', req_org = ''acme'', req_repo = ''web'',
      req_operation = GhApiRead ''user'', req_branch = Some ''x''\<rparr> =
   evaluate example_glob example_policy
     \<lparr>req_user = ''alice'', req_org = ''acme'', req_repo = ''web'',
      req_operation = GhApiRead ''repos/acme/web'', req_branch = None\<rparr>"
  using evaluate_kind_only
    [of "\<lparr>req_user = ''alice'', req_org = ''acme'', req_repo = ''web'',
      req_operation = GhApiRead ''repos/acme/web'', req_branch = None\<rparr>" "GhApiRead ''user''"
      example_glob example_policy "Some ''x''"]
  by (simp add: has_branch_def same_kind_def)

text \<open>
  A push whose branch is unknown is allowed only by a rule that lists the literal pattern
  \<open>*\<close> among its branches: a rule for particular branches never lets it through.
\<close>

theorem unknown_branch_needs_wildcard:
  assumes "evaluate glob p q = Allow" and "req_operation q = Push" and "req_branch q = None"
  shows "\<exists>r \<in> set (rules p). rule_effect r = EffAllow \<and> ''*'' \<in> set (rule_branches r)"
proof -
  from evaluate_Allow_aux [OF assms(1)] obtain r where
    r: "r \<in> set (rules p)" "rule_applies glob p r q" "rule_effect r = EffAllow" by blast
  from r(2) assms(2,3) have "''*'' \<in> set (rule_branches r)"
    by (auto simp: rule_applies_def rule_matches_def branch_matches_def has_branch_def
        list_ex_iff split: option.splits if_splits)
  with r show ?thesis by blast
qed

theorem unknown_branch_needs_wildcard_witness:
  "\<exists>r \<in> set (rules (push_rule (example_rule\<lparr>rule_branches := [''*'']\<rparr>) example_policy)).
     rule_effect r = EffAllow \<and> ''*'' \<in> set (rule_branches r)"
proof (rule unknown_branch_needs_wildcard)
  show "evaluate example_glob (push_rule (example_rule\<lparr>rule_branches := [''*'']\<rparr>) example_policy)
      \<lparr>req_user = ''alice'', req_org = ''acme'', req_repo = ''web'',
       req_operation = Push, req_branch = None\<rparr> = Allow"
    by (simp add: evaluate_def push_rule_def example_policy_def example_rule_def
        rule_operations_def resolve_role_def builtin_roles_def write_ops_def read_only_ops_def
        rule_matches_def field_matches_def same_kind_def branch_matches_def has_branch_def
        rule_decision_def)
qed simp_all

text \<open>
  The built-in roles form the documented tiers: \<open>read-only\<close> is strictly inside \<open>write\<close>,
  \<open>write\<close> strictly inside \<open>maintain\<close>, \<open>admin\<close> equals \<open>maintain\<close> and covers every kind of
  operation there is; what \<open>write\<close> lacks is exactly the five operations that change releases,
  and \<open>read-only\<close> holds no operation that applies to a branch.
\<close>

theorem builtin_role_tiers:
  "tag ` set read_only_ops \<subset> tag ` set write_ops \<and>
   tag ` set write_ops \<subset> tag ` set maintain_ops \<and>
   map_of builtin_roles ''admin'' = map_of builtin_roles ''maintain'' \<and>
   tag ` set maintain_ops = range tag \<and>
   tag ` set maintain_ops - tag ` set write_ops =
     {''release_create'', ''release_delete'', ''release_edit'', ''release_upload'',
      ''release_delete_asset''} \<and>
   filter has_branch read_only_ops = []"
proof -
  have "tag op \<in> tag ` set maintain_ops" for op
    by (cases op) (simp_all add: maintain_ops_def write_ops_def read_only_ops_def)
  then have all: "tag ` set maintain_ops = range tag" by auto
  have 1: "tag ` set read_only_ops \<subset> tag ` set write_ops" by code_simp
  have 2: "tag ` set write_ops \<subset> tag ` set maintain_ops" by code_simp
  have 3: "map_of builtin_roles ''admin'' = map_of builtin_roles ''maintain''" by code_simp
  have 4: "tag ` set maintain_ops - tag ` set write_ops =
      {''release_create'', ''release_delete'', ''release_edit'', ''release_upload'',
       ''release_delete_asset''}" by code_simp
  have 5: "filter has_branch read_only_ops = []" by code_simp
  from 1 2 3 4 5 all show ?thesis by blast
qed

text \<open>
  Operation tags are the policy vocabulary: parsing a tag and printing an operation are
  inverse to each other up to the path of \<open>gh_api_read\<close>, which the tag drops, and an
  \<open>operations\<close> field written out reads back as the same role name or as the same list of kinds.
\<close>

theorem operation_tags_roundtrip:
  "parse_operation (tag op) = Some (case op of GhApiRead _ \<Rightarrow> GhApiRead [] | _ \<Rightarrow> op) \<and>
   (parse_operation t = Some op' \<longrightarrow> tag op' = t) \<and>
   deserialize_operations_spec (serialize_operations_spec s) =
     Inr (case s of Role n \<Rightarrow> Role n
                  | OpList ops \<Rightarrow> OpList (map (\<lambda>op. the (from_tag (tag op))) ops))"
proof -
  have "visit_seq acc (map serialize_operation ops) =
      Inr (acc @ map (\<lambda>op. the (from_tag (tag op))) ops)" for acc ops
    by (induction ops arbitrary: acc)
      (simp_all add: serialize_operation_def deserialize_operation_def from_tag_tag)
  then show ?thesis
    by (auto simp: parse_operation_def from_tag_tag deserialize_operations_spec_def
        serialize_operations_spec_def tag_from_tag split: operations_spec.split)
qed

theorem operation_tags_roundtrip_witness:
  "tag (GhApiRead []) = ''gh_api_read'' \<and>
   deserialize_operations_spec (serialize_operations_spec (OpList [Push, GhApiRead ''user''])) =
     Inr (OpList [Push, GhApiRead []])"
  using operation_tags_roundtrip
    [of Push "''gh_api_read''" "GhApiRead []" "OpList [Push, GhApiRead ''user'']"]
  by (simp add: parse_operation_def from_tag_def)

end
