(* ===== verification/Rust_Path.thy ===== *)
theory Rust_Path
  imports Rust_Str
begin

section \<open>Paths\<close>

text \<open>
  \<open>PathBuf::push\<close> (through \<open>Path::join\<close>) and \<open>Path::parent\<close> on Unix paths, and the view of
  the file system the program has: what \<open>symlink_metadata\<close>, \<open>metadata\<close> and
  \<open>read_to_string\<close> answer for a path. The file system itself is a parameter of every
  definition that reads it.
\<close>

subsection \<open>Joining and taking the parent\<close>

definition path_join :: "path \<Rightarrow> path \<Rightarrow> path" where
  "path_join b p =
     (if starts_with p ''/'' then p
      else if b = [] \<or> last b = CHR ''/'' then b @ p
      else b @ CHR ''/'' # p)"

definition has_root :: "path \<Rightarrow> bool" where
  "has_root p = starts_with p ''/''"

definition include_cur_dir :: "path \<Rightarrow> bool" where
  "include_cur_dir p = (\<not> has_root p \<and> (p = ''.'' \<or> starts_with p ''./''))"

definition len_before_body :: "path \<Rightarrow> nat" where
  "len_before_body p = (if has_root p \<or> include_cur_dir p then 1 else 0)"

text \<open>The last component of a path body and what stands before its separator.\<close>

definition last_component :: "path \<Rightarrow> path \<times> path" where
  "last_component b =
     (let nm = rev (takeWhile (\<lambda>c. c \<noteq> CHR ''/'') (rev b)) in
        (rev (tl (dropWhile (\<lambda>c. c \<noteq> CHR ''/'') (rev b))), nm))"

lemma last_component_shorter:
  "last_component b = (rest, nm) \<Longrightarrow> b \<noteq> [] \<Longrightarrow> length rest < length b"
proof -
  assume b: "b \<noteq> []" and "last_component b = (rest, nm)"
  then have rest: "length rest = length (dropWhile (\<lambda>c. c \<noteq> CHR ''/'') (rev b)) - 1"
    by (auto simp: last_component_def Let_def)
  have "length (dropWhile (\<lambda>c. c \<noteq> CHR ''/'') (rev b)) \<le> length b"
    by (metis length_dropWhile_le length_rev)
  with b rest show "length rest < length b"
    by (cases b) auto
qed

function trim_right :: "path \<Rightarrow> path" where
  "trim_right b =
     (if b = [] then []
      else (case last_component b of
              (rest, nm) \<Rightarrow> if nm = [] \<or> nm = ''.'' then trim_right rest else b))"
  by pat_completeness auto
termination
  by (relation "measure length") (auto dest: last_component_shorter [OF sym])

declare trim_right.simps [simp del]

definition path_parent :: "path \<Rightarrow> path option" where
  "path_parent p =
     (let n = len_before_body p; body = trim_right (drop n p) in
        if body = []
        then (if has_root p then None else if include_cur_dir p then Some [] else None)
        else Some (take n p @ trim_right (fst (last_component body))))"

lemma trim_right_length: "length (trim_right b) \<le> length b"
proof (induction b rule: trim_right.induct)
  case (1 b)
  show ?case
  proof (cases "b = []")
    case True
    then show ?thesis by (simp add: trim_right.simps)
  next
    case False
    obtain rest nm where lc: "last_component b = (rest, nm)" by fastforce
    show ?thesis
    proof (cases "nm = [] \<or> nm = ''.''")
      case True
      have "length (trim_right rest) \<le> length rest"
        by (rule "1.IH" [OF False lc [symmetric] True])
      with last_component_shorter [OF lc False] False lc True show ?thesis
        by (simp add: trim_right.simps [of b])
    next
      case False
      with lc show ?thesis by (simp add: trim_right.simps [of b])
    qed
  qed
qed

lemma include_cur_dir_not_Nil: "include_cur_dir p \<Longrightarrow> p \<noteq> []"
  by (auto simp: include_cur_dir_def starts_with_iff)

lemma path_parent_shorter: "path_parent p = Some q \<Longrightarrow> length q < length p"
proof -
  assume p: "path_parent p = Some q"
  let ?n = "len_before_body p" and ?body = "trim_right (drop (len_before_body p) p)"
  show "length q < length p"
  proof (cases "?body = []")
    case True
    with p show ?thesis
      by (auto simp: path_parent_def Let_def include_cur_dir_not_Nil split: if_splits)
  next
    case False
    obtain rest nm where lc: "last_component ?body = (rest, nm)" by fastforce
    with p False have q: "q = take ?n p @ trim_right rest"
      by (simp add: path_parent_def Let_def)
    have "length (trim_right rest) < length (drop ?n p)"
      using trim_right_length [of rest] last_component_shorter [OF lc False]
        trim_right_length [of "drop ?n p"] by linarith
    then show ?thesis by (simp add: q)
  qed
qed

lemma last_component_join:
  "CHR ''/'' \<notin> set n \<Longrightarrow> last_component (b @ CHR ''/'' # n) = (b, n)"
proof -
  assume "CHR ''/'' \<notin> set n"
  then have n: "\<And>c. c \<in> set (rev n) \<Longrightarrow> c \<noteq> CHR ''/''" by auto
  show ?thesis
    using takeWhile_append2 [where xs = "rev n" and P = "\<lambda>c. c \<noteq> CHR ''/''"
        and ys = "CHR ''/'' # rev b", OF n]
      dropWhile_append2 [where xs = "rev n" and P = "\<lambda>c. c \<noteq> CHR ''/''"
        and ys = "CHR ''/'' # rev b", OF n]
    by (simp add: last_component_def Let_def)
qed

lemma path_join_relative:
  "b \<noteq> [] \<Longrightarrow> last b \<noteq> CHR ''/'' \<Longrightarrow> \<not> starts_with p ''/'' \<Longrightarrow>
   path_join b p = b @ CHR ''/'' # p"
  by (simp add: path_join_def)

lemma path_join_absolute: "starts_with p ''/'' \<Longrightarrow> path_join b p = p"
  by (simp add: path_join_def)

subsection \<open>The file system\<close>

datatype file_kind = KDir | KFile | KOtherFile

record metadata =
  md_kind :: file_kind
  md_mode :: u32
  md_uid :: u32
  md_dev :: u64
  md_ino :: u64

record fs =
  fs_symlink_metadata :: "path \<Rightarrow> bool"
  fs_metadata :: "path \<Rightarrow> io_error + metadata"
  fs_read_to_string :: "path \<Rightarrow> io_error + string"

definition is_file :: "fs \<Rightarrow> path \<Rightarrow> bool" where
  "is_file f p = (case fs_metadata f p of Inl _ \<Rightarrow> False | Inr m \<Rightarrow> md_kind m = KFile)"

end
