(* ===== verification/Resolver_Repo.thy ===== *)
theory Resolver_Repo
  imports Rust_Path
begin

section \<open>Remotes and repositories\<close>

text \<open>
  The first half of \<open>src/src/resolver.rs\<close>: parsing a GitHub remote URL, reading the remote out of
  a git configuration file and the branch out of \<open>HEAD\<close>, and discovering the repository that
  contains a working directory. The file system is the parameter \<open>f\<close>.
\<close>

subsection \<open>Remote URLs\<close>

datatype url_scheme = Ssh | Https

record github_remote =
  gr_org :: string
  gr_repo :: string
  gr_scheme :: url_scheme

datatype resolver_error =
    NonGithubHost string
  | NoRepoContext path
  | NoRemoteConfigured
  | InvalidRemoteUrl string
  | UnknownGitSubcommand string
  | UnknownGhSubcommand string
  | UnknownGhCommand string
  | MissingGhArgument string
  | ResolverIo io_error

definition quoted :: "string \<Rightarrow> string" where
  "quoted s = [CHR 0x27] @ s @ [CHR 0x27]"

definition resolver_error_text :: "resolver_error \<Rightarrow> string" where
  "resolver_error_text e =
     (case e of
        NonGithubHost h \<Rightarrow> ''remote host '' @ quoted h @ '' is not GitHub''
      | NoRepoContext p \<Rightarrow> ''could not find a git repository starting from '' @ quoted p
      | NoRemoteConfigured \<Rightarrow> ''git config has no remote (origin or otherwise)''
      | InvalidRemoteUrl u \<Rightarrow> ''could not parse remote URL '' @ quoted u
      | UnknownGitSubcommand c \<Rightarrow> ''git subcommand '' @ quoted c @ '' is not supported''
      | UnknownGhSubcommand c \<Rightarrow> ''gh subcommand '' @ quoted c @ '' is not supported''
      | UnknownGhCommand c \<Rightarrow> ''gh command is not permitted: '' @ c
      | MissingGhArgument c \<Rightarrow> ''missing required argument for gh '' @ quoted c
      | ResolverIo err \<Rightarrow> ''io error: '' @ io_text err)"

definition GITHUB_HOST :: string where
  "GITHUB_HOST = ''github.com''"

definition split_org_repo :: "string \<Rightarrow> string \<Rightarrow> resolver_error + (string \<times> string)" where
  "split_org_repo path original =
     (let trimmed = trim_end_matches ''/'' (trim_start_matches ''/'' path);
          stripped = unwrap_or trimmed (strip_suffix ''.git'' trimmed) in
        case split_once CHR ''/'' stripped of
          None \<Rightarrow> Inl (InvalidRemoteUrl original)
        | Some (org, repo) \<Rightarrow>
            if org = [] \<or> repo = [] \<or> CHR ''/'' \<in> set repo then Inl (InvalidRemoteUrl original)
            else Inr (org, repo))"

definition parse_scp_like :: "string \<Rightarrow> string \<Rightarrow> resolver_error + github_remote" where
  "parse_scp_like rest original =
     (case split_once CHR '':'' rest of
        None \<Rightarrow> Inl (InvalidRemoteUrl original)
      | Some (host, path) \<Rightarrow>
          if host \<noteq> GITHUB_HOST then Inl (NonGithubHost host)
          else (case split_org_repo path original of
                  Inl e \<Rightarrow> Inl e
                | Inr (org, repo) \<Rightarrow> Inr \<lparr>gr_org = org, gr_repo = repo, gr_scheme = Ssh\<rparr>))"

definition parse_authority_path ::
    "string \<Rightarrow> url_scheme \<Rightarrow> string \<Rightarrow> resolver_error + github_remote" where
  "parse_authority_path rest scheme original =
     (case split_once CHR ''/'' rest of
        None \<Rightarrow> Inl (InvalidRemoteUrl original)
      | Some (authority, path) \<Rightarrow>
          let host = hd (split_on CHR '':'' (last (split_on CHR ''@'' authority))) in
            if host \<noteq> GITHUB_HOST then Inl (NonGithubHost host)
            else (case split_org_repo path original of
                    Inl e \<Rightarrow> Inl e
                  | Inr (org, repo) \<Rightarrow> Inr \<lparr>gr_org = org, gr_repo = repo, gr_scheme = scheme\<rparr>))"

definition parse_github_remote :: "string \<Rightarrow> resolver_error + github_remote" where
  "parse_github_remote url =
     (case strip_prefix ''git@'' url of
        Some rest \<Rightarrow> parse_scp_like rest url
      | None \<Rightarrow>
          (case strip_prefix ''ssh://git@'' url of
             Some rest \<Rightarrow> parse_authority_path rest Ssh url
           | None \<Rightarrow>
               (case strip_prefix ''ssh://'' url of
                  Some rest \<Rightarrow> parse_authority_path rest Ssh url
                | None \<Rightarrow>
                    (case strip_prefix ''https://'' url of
                       Some rest \<Rightarrow> parse_authority_path rest Https url
                     | None \<Rightarrow> Inl (InvalidRemoteUrl url)))))"

subsection \<open>Git configuration and HEAD\<close>

definition parse_remote_section :: "string \<Rightarrow> string option" where
  "parse_remote_section line =
     (case strip_prefix ''['' line of
        None \<Rightarrow> None
      | Some l \<Rightarrow>
          (case strip_suffix '']'' l of
             None \<Rightarrow> None
           | Some inner \<Rightarrow>
               (case strip_prefix ''remote'' (trim inner) of
                  None \<Rightarrow> None
                | Some rest \<Rightarrow>
                    let name = trim_matches [CHR 0x22] (trim_start rest) in
                      if name = [] then None else Some name)))"

definition parse_url_assignment :: "string \<Rightarrow> string option" where
  "parse_url_assignment line =
     (case split_once CHR ''='' line of
        None \<Rightarrow> None
      | Some (key, val) \<Rightarrow> if trim key \<noteq> ''url'' then None else Some (trim val))"

text \<open>The three variables of the loop over the lines of the configuration.\<close>

record cfg_scan =
  current_remote :: "string option"
  origin_url_seen :: "string option"
  first_url_seen :: "string option"

definition scan_line :: "cfg_scan \<Rightarrow> string \<Rightarrow> cfg_scan" where
  "scan_line st line =
     (let trimmed = trim line in
        if starts_with trimmed ''#'' \<or> starts_with trimmed '';'' \<or> trimmed = [] then st
        else (case parse_remote_section trimmed of
                Some name \<Rightarrow> st\<lparr>current_remote := Some name\<rparr>
              | None \<Rightarrow>
                  if starts_with trimmed ''['' then st\<lparr>current_remote := None\<rparr>
                  else (case (current_remote st, parse_url_assignment trimmed) of
                          (Some name, Some url) \<Rightarrow>
                            st\<lparr>origin_url_seen :=
                                 (if name = ''origin'' \<and> origin_url_seen st = None then Some url
                                  else origin_url_seen st),
                               first_url_seen :=
                                 (if first_url_seen st = None then Some url
                                  else first_url_seen st)\<rparr>
                        | _ \<Rightarrow> st)))"

definition cfg_start :: cfg_scan where
  "cfg_start = \<lparr>current_remote = None, origin_url_seen = None, first_url_seen = None\<rparr>"

definition parse_remote_url :: "string \<Rightarrow> string option" where
  "parse_remote_url text =
     (let st = foldl scan_line cfg_start (lines text) in
        opt_or (origin_url_seen st) (first_url_seen st))"

definition parse_head_branch :: "string \<Rightarrow> string option" where
  "parse_head_branch text =
     (case strip_prefix ''ref:'' (trim text) of
        None \<Rightarrow> None
      | Some target \<Rightarrow> strip_prefix ''refs/heads/'' (trim target))"

subsection \<open>Repository discovery\<close>

record local_repo =
  private_dir :: path
  common_dir :: path

definition private_dir_from_pointer :: "path \<Rightarrow> string \<Rightarrow> path option" where
  "private_dir_from_pointer work_dir content =
     (case lines content of
        [] \<Rightarrow> None
      | l # _ \<Rightarrow>
          (case strip_prefix ''gitdir:'' (trim_start l) of
             None \<Rightarrow> None
           | Some t \<Rightarrow> let target = trim t in
               if target = [] then None else Some (path_join work_dir target)))"

definition common_dir_from_pointer :: "path \<Rightarrow> string option \<Rightarrow> path" where
  "common_dir_from_pointer priv commondir =
     (case commondir of
        None \<Rightarrow> priv
      | Some t \<Rightarrow> if trim t = [] then priv else path_join priv (trim t))"

definition from_git_entry :: "fs \<Rightarrow> path \<Rightarrow> path \<Rightarrow> local_repo option" where
  "from_git_entry f work_dir git_entry =
     (case fs_metadata f git_entry of
        Inl _ \<Rightarrow> None
      | Inr m \<Rightarrow>
          (case (case md_kind m of
                   KDir \<Rightarrow> Some git_entry
                 | KFile \<Rightarrow>
                     (case fs_read_to_string f git_entry of
                        Inl _ \<Rightarrow> None
                      | Inr pointer \<Rightarrow> private_dir_from_pointer work_dir pointer)
                 | KOtherFile \<Rightarrow> None) of
             None \<Rightarrow> None
           | Some priv \<Rightarrow>
               let common = common_dir_from_pointer priv
                     (res_ok (fs_read_to_string f (path_join priv ''commondir''))) in
                 if \<not> is_file f (path_join common ''config'') then None
                 else Some \<lparr>private_dir = priv, common_dir = common\<rparr>))"

function discover :: "fs \<Rightarrow> path \<Rightarrow> local_repo option" where
  "discover f work_dir =
     (let git_entry = path_join work_dir ''.git'' in
        if fs_symlink_metadata f git_entry then from_git_entry f work_dir git_entry
        else (case path_parent work_dir of
                None \<Rightarrow> None
              | Some up \<Rightarrow> discover f up))"
  by pat_completeness auto
termination
  by (relation "measure (\<lambda>(f, p). length p)") (auto dest: path_parent_shorter)

declare discover.simps [simp del]

definition origin_url :: "fs \<Rightarrow> local_repo \<Rightarrow> resolver_error + string" where
  "origin_url f r =
     (case fs_read_to_string f (path_join (common_dir r) ''config'') of
        Inl e \<Rightarrow> Inl (ResolverIo e)
      | Inr text \<Rightarrow> ok_or NoRemoteConfigured (parse_remote_url text))"

definition head_branch :: "fs \<Rightarrow> local_repo \<Rightarrow> string option" where
  "head_branch f r =
     (case fs_read_to_string f (path_join (private_dir r) ''HEAD'') of
        Inl _ \<Rightarrow> None
      | Inr text \<Rightarrow> parse_head_branch text)"

definition repo_hints :: "fs \<Rightarrow> path \<Rightarrow> string option \<times> string option" where
  "repo_hints f dir =
     (case discover f dir of
        Some r \<Rightarrow> (res_ok (origin_url f r), head_branch f r)
      | None \<Rightarrow> (None, None))"

subsection \<open>Lemmas on URLs\<close>

lemma strip_suffix_after_slash:
  assumes "CHR ''/'' \<notin> set p" and "strip_suffix p s = None"
  shows "strip_suffix p (a @ CHR ''/'' # s) = None"
proof (cases "strip_suffix p (a @ CHR ''/'' # s)")
  case None
  then show ?thesis .
next
  case (Some r)
  then have "a @ CHR ''/'' # s = r @ p" by (simp add: strip_suffix_Some_iff)
  then obtain us where "(a = r @ us \<and> us @ CHR ''/'' # s = p) \<or> (a @ us = r \<and> CHR ''/'' # s = us @ p)"
    unfolding append_eq_append_conv2 by blast
  with assms(1) have "CHR ''/'' # s = us @ p" by auto
  with assms(1) obtain us' where "s = us' @ p" by (cases us) auto
  with assms(2) show ?thesis using strip_suffix_Some_iff [of p s us'] by simp
qed

lemma split_single_part: "split_on d s = [w] \<Longrightarrow> s = w"
  by (induction s arbitrary: w) (auto split: if_splits list.splits)

lemma split_on_snoc: "split_on d (a @ d # b) = split_on d a @ split_on d b"
  by (induction a) (auto split: list.splits)

lemma split_on_last: "\<exists>u. s = u @ last (split_on d s) \<and> (u = [] \<or> last u = d)"
proof (cases "d \<in> set s")
  case False
  then show ?thesis by (simp add: split_on_no_delim)
next
  case True
  then obtain a b where s: "s = a @ d # b" and b: "d \<notin> set b"
    using split_list_last by fast
  from b have "last (split_on d s) = b" by (simp add: s split_on_snoc split_on_no_delim)
  with s show ?thesis by (intro exI [of _ "a @ [d]"]) simp
qed

lemma split_on_hd: "\<exists>u. s = hd (split_on d s) @ u \<and> (u = [] \<or> hd u = d)"
  by (induction s) (auto split: list.splits)

text \<open>
  The grammar of the URLs that name a repository on GitHub: an owner and a repository without a
  slash in them, the repository with or without the suffix \<open>.git\<close>, any number of slashes before and
  after; in front of it either \<open>git@github.com:\<close>, or \<open>ssh://\<close> or \<open>https://\<close> with the host
  \<open>github.com\<close>, which a user part that ends in \<open>@\<close> may precede and a port that starts with a colon
  may follow.
\<close>

definition wf_name :: "string \<Rightarrow> bool" where
  "wf_name s \<longleftrightarrow> s \<noteq> [] \<and> CHR ''/'' \<notin> set s"

definition repo_path :: "string \<Rightarrow> string \<Rightarrow> string \<Rightarrow> bool" where
  "repo_path org repo path \<longleftrightarrow> wf_name org \<and> wf_name repo \<and>
     (\<exists>i j sfx. path = replicate i CHR ''/'' @ (org @ CHR ''/'' # repo @ sfx) @ replicate j CHR ''/'' \<and>
        (sfx = ''.git'' \<or> sfx = [] \<and> strip_suffix ''.git'' repo = None))"

definition github_authority :: "string \<Rightarrow> bool" where
  "github_authority a \<longleftrightarrow>
     (\<exists>ui port. a = ui @ ''github.com'' @ port \<and> (ui = [] \<or> last ui = CHR ''@'') \<and>
        (port = [] \<or> hd port = CHR '':'') \<and> CHR ''@'' \<notin> set port)"

definition github_url :: "string \<Rightarrow> url_scheme \<Rightarrow> string \<Rightarrow> string \<Rightarrow> bool" where
  "github_url url scheme org repo \<longleftrightarrow>
     (\<exists>path. repo_path org repo path \<and>
        (scheme = Ssh \<and> url = ''git@github.com:'' @ path \<or>
         (\<exists>authority. github_authority authority \<and> CHR ''/'' \<notin> set authority \<and>
            url = (case scheme of Ssh \<Rightarrow> ''ssh://'' | Https \<Rightarrow> ''https://'') @ authority @ CHR ''/'' # path)))"

lemma trim_end_replicate: "trim_end_matches [d] (t @ replicate j d) = trim_end_matches [d] t"
proof (induction j)
  case (Suc j)
  have "t @ replicate (Suc j) d = (t @ replicate j d) @ [d]" by (simp add: replicate_append_same)
  with Suc show ?case by (simp only: trim_end_matches_snoc) simp
qed simp

lemma trim_both_iff:
  assumes "t \<noteq> []"
  shows "trim_end_matches [d] (trim_start_matches [d] s) = t \<longleftrightarrow>
    hd t \<noteq> d \<and> last t \<noteq> d \<and> (\<exists>i j. s = replicate i d @ t @ replicate j d)"
  (is "?l \<longleftrightarrow> ?r")
proof
  assume l: ?l
  let ?u = "trim_start_matches [d] s"
  obtain r where u: "?u = t @ r" and r: "set r \<subseteq> {d}"
    using trim_end_matches_prefix [of ?u "[d]"] l by auto
  have "last t \<noteq> d" using trim_end_matches_last [OF l] assms by simp
  moreover have "hd t \<noteq> d"
  proof -
    have "hd ?u \<noteq> d" using u assms hd_dropWhile [of "\<lambda>c. c \<in> set [d]" s] by (simp add: trim_start_matches_def)
    with u assms show ?thesis by simp
  qed
  moreover have "r = replicate (length r) d" using r by (auto intro: replicate_eqI)
  moreover have "s = replicate (length (takeWhile (\<lambda>c. c = d) s)) d @ ?u"
  proof -
    have "takeWhile (\<lambda>c. c = d) s = replicate (length (takeWhile (\<lambda>c. c = d) s)) d"
      by (auto intro: replicate_eqI dest: set_takeWhileD)
    moreover have "s = takeWhile (\<lambda>c. c = d) s @ ?u" by (simp add: trim_start_matches_def)
    ultimately show ?thesis by metis
  qed
  ultimately show ?r using u by metis
next
  assume r: ?r
  then obtain i j where s: "s = replicate i d @ t @ replicate j d" by blast
  have "trim_start_matches [d] s = t @ replicate j d"
    unfolding s using r assms by (induction i; cases t) (simp_all add: trim_start_matches_def)
  with r assms show ?l by (simp add: trim_end_replicate trim_end_matches_id)
qed

lemma split_org_repo_iff: "split_org_repo path original = Inr (org, repo) \<longleftrightarrow> repo_path org repo path"
proof -
  define t where "t = trim_end_matches ''/'' (trim_start_matches ''/'' path)"
  define st where "st = unwrap_or t (strip_suffix ''.git'' t)"
  have val: "split_org_repo path original = Inr (org, repo) \<longleftrightarrow>
      wf_name org \<and> wf_name repo \<and> st = org @ CHR ''/'' # repo"
    unfolding split_org_repo_def Let_def t_def [symmetric] st_def [symmetric]
    using split_once_Some_iff [of "CHR ''/''" st org repo]
    by (cases "split_once CHR ''/'' st") (auto simp: wf_name_def split: if_split_asm)
  show ?thesis
  proof
    assume "split_org_repo path original = Inr (org, repo)"
    with val have w: "wf_name org" "wf_name repo" and s: "st = org @ CHR ''/'' # repo" by simp_all
    have "\<exists>sfx. t = org @ CHR ''/'' # repo @ sfx \<and> (sfx = ''.git'' \<or> sfx = [] \<and> strip_suffix ''.git'' repo = None)"
    proof (cases "strip_suffix ''.git'' t")
      case None
      have "strip_suffix ''.git'' repo = None"
      proof (rule ccontr)
        assume "strip_suffix ''.git'' repo \<noteq> None"
        then obtain v where "repo = v @ ''.git''" by (auto simp: strip_suffix_Some_iff)
        with None s have "strip_suffix ''.git'' ((org @ CHR ''/'' # v) @ ''.git'') = None" by (simp add: st_def)
        then show False by (simp only: strip_suffix_append option.distinct)
      qed
      with None s show ?thesis by (intro exI [of _ "[]"]) (simp add: st_def)
    next
      case (Some v)
      with s show ?thesis
        by (intro exI [of _ "''.git''"]) (simp add: st_def strip_suffix_Some_iff)
    qed
    then obtain sfx where sfx: "t = org @ CHR ''/'' # repo @ sfx"
      "sfx = ''.git'' \<or> sfx = [] \<and> strip_suffix ''.git'' repo = None" by blast
    then have "t \<noteq> []" by simp
    from trim_both_iff [OF this, of "CHR ''/''" path] t_def obtain i j where
      "path = replicate i CHR ''/'' @ t @ replicate j CHR ''/''" by auto
    with sfx w show "repo_path org repo path" unfolding repo_path_def by blast
  next
    assume "repo_path org repo path"
    then obtain i j sfx where w: "wf_name org" "wf_name repo" and
      p: "path = replicate i CHR ''/'' @ (org @ CHR ''/'' # repo @ sfx) @ replicate j CHR ''/''" and
      sfx: "sfx = ''.git'' \<or> sfx = [] \<and> strip_suffix ''.git'' repo = None"
      unfolding repo_path_def by blast
    let ?t = "org @ CHR ''/'' # repo @ sfx"
    have "last repo \<in> set repo" using w(2) by (simp add: wf_name_def)
    then have "last repo \<noteq> CHR ''/''" using w(2) unfolding wf_name_def by metis
    then have "last ?t \<noteq> CHR ''/''" using w(2) sfx by (auto simp: wf_name_def)
    moreover have "hd ?t \<noteq> CHR ''/''" using w(1) by (cases org) (auto simp: wf_name_def)
    moreover have "\<exists>i j. path = replicate i CHR ''/'' @ ?t @ replicate j CHR ''/''" using p by blast
    moreover have "?t \<noteq> []" by simp
    ultimately have t: "t = ?t" unfolding t_def by (simp only: trim_both_iff simp_thms)
    have "st = org @ CHR ''/'' # repo"
      using sfx
    proof
      assume "sfx = ''.git''"
      then have "t = (org @ CHR ''/'' # repo) @ ''.git''" unfolding t by simp
      then show ?thesis unfolding st_def by (simp only: strip_suffix_append unwrap_or_def option.case)
    next
      assume "sfx = [] \<and> strip_suffix ''.git'' repo = None"
      with strip_suffix_after_slash [of "''.git''" repo org] show ?thesis by (simp add: st_def t)
    qed
    with w val show "split_org_repo path original = Inr (org, repo)" by simp
  qed
qed

lemma authority_github:
  "hd (split_on CHR '':'' (last (split_on CHR ''@'' a))) = GITHUB_HOST \<longleftrightarrow> github_authority a"
proof
  assume h: "hd (split_on CHR '':'' (last (split_on CHR ''@'' a))) = GITHUB_HOST"
  let ?t = "last (split_on CHR ''@'' a)"
  obtain ui where ui: "a = ui @ ?t" "ui = [] \<or> last ui = CHR ''@''"
    using split_on_last [of a "CHR ''@''"] by blast
  obtain port where port: "?t = hd (split_on CHR '':'' ?t) @ port" "port = [] \<or> hd port = CHR '':''"
    using split_on_hd [of ?t "CHR '':''"] by blast
  have t: "?t = ''github.com'' @ port" using port(1) unfolding h GITHUB_HOST_def .
  have "CHR ''@'' \<notin> set ?t" using split_on_parts [of ?t "CHR ''@''" a] by simp
  with t have "CHR ''@'' \<notin> set port" by auto
  moreover have "a = ui @ ''github.com'' @ port" by (rule ui(1) [unfolded t])
  ultimately show "github_authority a" unfolding github_authority_def using ui(2) port(2) by blast
next
  assume "github_authority a"
  then obtain ui port where a: "a = ui @ ''github.com'' @ port" "ui = [] \<or> last ui = CHR ''@''"
    "port = [] \<or> hd port = CHR '':''" "CHR ''@'' \<notin> set port"
    unfolding github_authority_def by blast
  have one: "split_on CHR ''@'' (''github.com'' @ port) = [''github.com'' @ port]"
    using a(4) by (intro split_on_no_delim) simp
  have "last (split_on CHR ''@'' a) = ''github.com'' @ port"
  proof (cases ui rule: rev_cases)
    case Nil
    with a(1) one show ?thesis by simp
  next
    case (snoc v c)
    with a(1,2) have "a = v @ CHR ''@'' # (''github.com'' @ port)" by simp
    then show ?thesis unfolding one [symmetric] by (simp only: split_on_snoc one) simp
  qed
  moreover have "hd (split_on CHR '':'' (''github.com'' @ port)) = GITHUB_HOST"
    using a(3) by (cases port) (simp_all add: GITHUB_HOST_def)
  ultimately show "hd (split_on CHR '':'' (last (split_on CHR ''@'' a))) = GITHUB_HOST" by simp
qed

lemma parse_authority_path_iff:
  "parse_authority_path rest scheme original = Inr r \<longleftrightarrow>
     gr_scheme r = scheme \<and>
     (\<exists>authority path. rest = authority @ CHR ''/'' # path \<and> CHR ''/'' \<notin> set authority \<and>
        github_authority authority \<and> repo_path (gr_org r) (gr_repo r) path)"
proof (cases "split_once CHR ''/'' rest")
  case None
  then show ?thesis by (auto simp: parse_authority_path_def)
next
  case (Some ap)
  obtain a p where ap: "ap = (a, p)" by (cases ap)
  have uniq: "rest = authority @ CHR ''/'' # path \<and> CHR ''/'' \<notin> set authority \<longleftrightarrow> authority = a \<and> path = p"
    for authority path using Some ap split_once_Some_iff [of "CHR ''/''" rest authority path] by auto
  have "parse_authority_path rest scheme original = Inr r \<longleftrightarrow>
      github_authority a \<and> gr_scheme r = scheme \<and> split_org_repo p original = Inr (gr_org r, gr_repo r)"
    using Some ap
    by (cases r) (auto simp: parse_authority_path_def Let_def authority_github split: sum.splits)
  moreover have "(\<exists>authority path. rest = authority @ CHR ''/'' # path \<and> CHR ''/'' \<notin> set authority \<and>
      github_authority authority \<and> repo_path (gr_org r) (gr_repo r) path) \<longleftrightarrow>
    github_authority a \<and> repo_path (gr_org r) (gr_repo r) p" using uniq by metis
  ultimately show ?thesis by (auto simp: split_org_repo_iff)
qed

lemma parse_scp_like_iff:
  "parse_scp_like rest original = Inr r \<longleftrightarrow>
     gr_scheme r = Ssh \<and> (\<exists>path. rest = ''github.com:'' @ path \<and> repo_path (gr_org r) (gr_repo r) path)"
proof (cases "split_once CHR '':'' rest")
  case None
  then show ?thesis by (auto simp: parse_scp_like_def)
next
  case (Some hp)
  obtain h p where hp: "hp = (h, p)" by (cases hp)
  have uniq: "rest = ''github.com:'' @ path \<longleftrightarrow> h = GITHUB_HOST \<and> path = p" for path
  proof -
    have "split_once CHR '':'' rest = Some (GITHUB_HOST, path) \<longleftrightarrow> rest = GITHUB_HOST @ CHR '':'' # path"
      by (simp add: split_once_Some_iff GITHUB_HOST_def del: append_Cons)
    moreover have "GITHUB_HOST @ CHR '':'' # path = ''github.com:'' @ path" by (simp add: GITHUB_HOST_def)
    ultimately show ?thesis using Some hp by auto
  qed
  have "parse_scp_like rest original = Inr r \<longleftrightarrow>
      h = GITHUB_HOST \<and> gr_scheme r = Ssh \<and> split_org_repo p original = Inr (gr_org r, gr_repo r)"
    using Some hp by (cases r) (auto simp: parse_scp_like_def split: sum.splits)
  then show ?thesis unfolding uniq by (auto simp: split_org_repo_iff)
qed

lemma parse_authority_path_git:
  "parse_authority_path (''git@'' @ rest) scheme original = parse_authority_path rest scheme original"
proof -
  have host: "last (split_on CHR ''@'' (''git@'' @ a)) = last (split_on CHR ''@'' a)" for a
    using split_on_snoc [of "CHR ''@''" "''git''" a] by simp
  have "split_once CHR ''/'' (''git@'' @ rest) =
      (case split_once CHR ''/'' rest of None \<Rightarrow> None | Some (a, p) \<Rightarrow> Some (''git@'' @ a, p))"
    by (cases "split_once CHR ''/'' rest") auto
  then show ?thesis
    unfolding parse_authority_path_def
    by (cases "split_once CHR ''/'' rest") (auto simp: host simp del: append_Cons append_Nil)
qed

lemma parse_github_remote_forms:
  "parse_github_remote (''git@'' @ rest) = parse_scp_like rest (''git@'' @ rest)"
  "parse_github_remote (''ssh://'' @ rest) = parse_authority_path rest Ssh (''ssh://'' @ rest)"
  "parse_github_remote (''https://'' @ rest) = parse_authority_path rest Https (''https://'' @ rest)"
proof -
  show "parse_github_remote (''ssh://'' @ rest) = parse_authority_path rest Ssh (''ssh://'' @ rest)"
  proof (cases "strip_prefix ''git@'' rest")
    case None
    then show ?thesis by (simp add: parse_github_remote_def)
  next
    case (Some r)
    then have "rest = ''git@'' @ r" by (simp only: strip_prefix_Some_iff)
    then show ?thesis
      using parse_authority_path_git [of r Ssh "''ssh://'' @ rest"] by (simp add: parse_github_remote_def)
  qed
qed (simp_all add: parse_github_remote_def)

lemma parse_github_remote_iff:
  "parse_github_remote url = Inr r \<longleftrightarrow> github_url url (gr_scheme r) (gr_org r) (gr_repo r)"
proof
  assume ok: "parse_github_remote url = Inr r"
  then consider (scp) rest where "url = ''git@'' @ rest"
    | (ssh_git) rest where "url = ''ssh://git@'' @ rest"
    | (ssh) rest where "url = ''ssh://'' @ rest"
    | (https) rest where "url = ''https://'' @ rest"
    unfolding parse_github_remote_def
    by (simp only: strip_prefix_Some_iff sum.distinct split: option.splits)
  then show "github_url url (gr_scheme r) (gr_org r) (gr_repo r)"
  proof cases
    case (scp rest)
    with ok have "parse_scp_like rest url = Inr r" by (simp only: parse_github_remote_forms)
    with scp show ?thesis by (auto simp: parse_scp_like_iff github_url_def)
  next
    case (ssh_git rest)
    then have "url = ''ssh://'' @ (''git@'' @ rest)" by simp
    with ok have "parse_authority_path (''git@'' @ rest) Ssh url = Inr r" by (simp only: parse_github_remote_forms)
    with \<open>url = ''ssh://'' @ (''git@'' @ rest)\<close> show ?thesis
      unfolding parse_authority_path_iff github_url_def by (elim conjE exE) (intro exI disjI2 conjI; simp)
  next
    case (ssh rest)
    with ok have "parse_authority_path rest Ssh url = Inr r" by (simp only: parse_github_remote_forms)
    with ssh show ?thesis
      unfolding parse_authority_path_iff github_url_def by (elim conjE exE) (intro exI disjI2 conjI; simp)
  next
    case (https rest)
    with ok have "parse_authority_path rest Https url = Inr r" by (simp only: parse_github_remote_forms)
    with https show ?thesis
      unfolding parse_authority_path_iff github_url_def by (elim conjE exE) (intro exI disjI2 conjI; simp)
  qed
next
  assume "github_url url (gr_scheme r) (gr_org r) (gr_repo r)"
  then consider (scp) path where "gr_scheme r = Ssh" "url = ''git@'' @ (''github.com:'' @ path)"
      "repo_path (gr_org r) (gr_repo r) path"
    | (authority) a path where "url = (case gr_scheme r of Ssh \<Rightarrow> ''ssh://'' | Https \<Rightarrow> ''https://'') @ (a @ CHR ''/'' # path)"
      "github_authority a" "CHR ''/'' \<notin> set a" "repo_path (gr_org r) (gr_repo r) path"
    unfolding github_url_def by auto
  then show "parse_github_remote url = Inr r"
  proof cases
    case scp
    have "parse_github_remote url = parse_scp_like (''github.com:'' @ path) url"
      unfolding scp(2) by (rule parse_github_remote_forms)
    with scp show ?thesis by (auto simp: parse_scp_like_iff)
  next
    case authority
    then have "parse_authority_path (a @ CHR ''/'' # path) (gr_scheme r) url = Inr r"
      unfolding parse_authority_path_iff by blast
    with authority(1) show ?thesis by (cases "gr_scheme r") (simp_all only: parse_github_remote_forms url_scheme.case)
  qed
qed

lemma parse_github_remote_names:
  assumes "parse_github_remote url = Inr r"
  shows "wf_name (gr_org r) \<and> wf_name (gr_repo r)"
  using assms unfolding parse_github_remote_iff github_url_def repo_path_def by blast

subsection \<open>Lemmas on configuration files\<close>

text \<open>A remote section as git writes it.\<close>

definition section_line :: "string \<Rightarrow> string" where
  "section_line name = ''[remote '' @ [CHR 0x22] @ name @ [CHR 0x22] @ '']''"

definition url_line :: "string \<Rightarrow> string" where
  "url_line url = [CHR 0x09] @ ''url = '' @ url"

definition render_remote :: "string \<times> string \<Rightarrow> string" where
  "render_remote r = section_line (fst r) @ [CHR 0x0A] @ url_line (snd r) @ [CHR 0x0A]"

definition wf_remote :: "string \<times> string \<Rightarrow> bool" where
  "wf_remote r \<longleftrightarrow> plain (fst r) \<and> CHR 0x22 \<notin> set (fst r) \<and> plain (snd r)"

lemma visible_ascii [simp]:
  "visible CHR ''['' " "visible CHR '']''" "visible CHR ''r''" "visible CHR ''u''" "visible CHR 0x22"
  "visible CHR ''l''"
  by (simp_all add: visible_def)

lemma trim_quotes: "CHR 0x22 \<notin> set n \<Longrightarrow> n \<noteq> [] \<Longrightarrow>
   trim_matches [CHR 0x22] (CHR 0x22 # n @ [CHR 0x22]) = n"
proof -
  assume n: "CHR 0x22 \<notin> set n" "n \<noteq> []"
  have "trim_start_matches [CHR 0x22] (CHR 0x22 # n @ [CHR 0x22]) = n @ [CHR 0x22]"
    using n by (cases n) (auto simp: trim_start_matches_def)
  moreover have "trim_end_matches [CHR 0x22] n = n"
    using n last_in_set [OF n(2)] by (intro trim_end_matches_id) (metis empty_set list.set_intros(1) set_ConsD empty_iff)
  ultimately show ?thesis by (simp add: trim_matches_def)
qed

lemma parse_section_line:
  assumes "plain n" "CHR 0x22 \<notin> set n"
  shows "parse_remote_section (section_line n) = Some n"
proof -
  let ?inner = "''remote '' @ [CHR 0x22] @ n @ [CHR 0x22]"
  have "strip_prefix ''['' (section_line n) = Some (?inner @ '']'')"
    by (simp add: section_line_def)
  moreover have "strip_suffix '']'' (?inner @ '']'') = Some ?inner"
    by (rule strip_suffix_append)
  moreover have "trim ?inner = ?inner" by (rule trim_visible) simp_all
  moreover have "strip_prefix ''remote'' ?inner = Some (CHR 0x20 # CHR 0x22 # n @ [CHR 0x22])"
    by simp
  moreover have "trim_start (CHR 0x20 # CHR 0x22 # n @ [CHR 0x22]) = CHR 0x22 # n @ [CHR 0x22]"
    by (simp add: trim_start_visible)
  ultimately show ?thesis
    using assms trim_quotes [of n] by (simp add: parse_remote_section_def plainD(1))
qed

lemma scan_section_line:
  assumes "plain n" "CHR 0x22 \<notin> set n"
  shows "scan_line st (section_line n) = st\<lparr>current_remote := Some n\<rparr>"
proof -
  have "trim (section_line n) = section_line n"
    by (rule trim_visible) (simp_all add: section_line_def)
  moreover have "\<not> starts_with (section_line n) ''#''" "\<not> starts_with (section_line n) '';''"
    "section_line n \<noteq> []" by (simp_all add: section_line_def)
  ultimately show ?thesis
    by (simp add: scan_line_def Let_def parse_section_line [OF assms])
qed

lemma scan_url_line:
  assumes "plain u" "current_remote st = Some n"
  shows "scan_line st (url_line u) =
    st\<lparr>origin_url_seen := opt_or (origin_url_seen st) (if n = ''origin'' then Some u else None),
       first_url_seen := opt_or (first_url_seen st) (Some u)\<rparr>"
proof -
  let ?l = "''url = '' @ u"
  have "trim (url_line u) = ?l"
    using assms(1) trim_visible [of ?l] by (simp add: url_line_def plainD)
  moreover have "parse_remote_section ?l = None" by (simp add: parse_remote_section_def)
  moreover have "trim ''url '' = ''url''"
    using trim_end_space [of "''url''"] trim_end_visible [of "CHR ''l''" "''ur''"]
    by (simp add: trim_def trim_start_visible)
  then have "parse_url_assignment ?l = Some u"
    using assms(1) by (simp add: parse_url_assignment_def)
  ultimately show ?thesis
    using assms(2) by (auto simp: scan_line_def Let_def opt_or_def split: option.splits)
qed

lemma lines_render:
  assumes "wf_remote r"
  shows "lines (render_remote r @ rest) = section_line (fst r) # url_line (snd r) # lines rest"
proof -
  have 1: "CHR 0x0A \<notin> set (section_line (fst r))" "CHR 0x0A \<notin> set (url_line (snd r))"
    using assms plain_no_space(1) by (auto simp: wf_remote_def section_line_def url_line_def)
  have 2: "strip_cr (section_line (fst r)) = section_line (fst r)"
    by (rule strip_cr_id) (simp add: section_line_def)
  have "last (snd r) \<noteq> CHR 0x0D"
    using assms plainD(1) plain_no_space(2) last_in_set by (metis wf_remote_def)
  then have 3: "strip_cr (url_line (snd r)) = url_line (snd r)"
    using assms by (intro strip_cr_id) (simp add: url_line_def wf_remote_def plainD)
  show ?thesis
    using lines_append_nl [OF 1(1), of "url_line (snd r) @ CHR 0x0A # rest"]
      lines_append_nl [OF 1(2), of rest] by (simp add: render_remote_def 2 3)
qed

lemma lines_render_all:
  "list_all wf_remote rs \<Longrightarrow>
   lines (concat (map render_remote rs)) = concat (map (\<lambda>r. [section_line (fst r), url_line (snd r)]) rs)"
  by (induction rs) (simp_all add: lines_render)

lemma scan_rendered:
  assumes "list_all wf_remote rs"
  shows "origin_url_seen (foldl scan_line st
        (concat (map (\<lambda>r. [section_line (fst r), url_line (snd r)]) rs))) =
      opt_or (origin_url_seen st) (map_of rs ''origin'') \<and>
    first_url_seen (foldl scan_line st
        (concat (map (\<lambda>r. [section_line (fst r), url_line (snd r)]) rs))) =
      opt_or (first_url_seen st) (map_option snd (get rs 0))"
  using assms
proof (induction rs arbitrary: st)
  case Nil
  then show ?case by (cases "origin_url_seen st"; cases "first_url_seen st") simp_all
next
  case (Cons r rs)
  obtain n u where r: "r = (n, u)" by fastforce
  with Cons.prems have wf: "plain n" "CHR 0x22 \<notin> set n" "plain u" by (simp_all add: wf_remote_def)
  from Cons show ?case
    by (cases "origin_url_seen st"; cases "first_url_seen st")
      (simp_all add: r scan_section_line wf scan_url_line)
qed

subsection \<open>Ancestors of a directory\<close>

function ancestors :: "path \<Rightarrow> path list" where
  "ancestors p = p # (case path_parent p of None \<Rightarrow> [] | Some up \<Rightarrow> ancestors up)"
  by pat_completeness auto
termination
  by (relation "measure length") (auto dest: path_parent_shorter)

declare ancestors.simps [simp del]

lemma discover_ancestors:
  "discover f p =
     (case find (\<lambda>d. fs_symlink_metadata f (path_join d ''.git'')) (ancestors p) of
        None \<Rightarrow> None
      | Some d \<Rightarrow> from_git_entry f d (path_join d ''.git''))"
proof (induction f p rule: discover.induct)
  case (1 f p)
  then show ?case
    by (subst discover.simps, subst ancestors.simps) (auto simp: Let_def split: option.splits)
qed

lemma parse_head_branch_ref:
  assumes "plain b"
  shows "parse_head_branch (''ref: refs/heads/'' @ b @ [CHR 0x0A]) = Some b"
proof -
  let ?t = "''refs/heads/'' @ b"
  have b: "b \<noteq> []" "visible (last b)" using assms by (auto dest: plainD)
  have e: "trim_end (''ref: refs/heads/'' @ b @ [CHR 0x0A]) = trim_end (''ref: '' @ ?t)"
    using trim_end_newline [of "''ref: refs/heads/'' @ b"] by simp
  have "trim (''ref: refs/heads/'' @ b @ [CHR 0x0A]) = ''ref: '' @ ?t"
    using e trim_end_visible [of "last b" "''ref: refs/heads/'' @ butlast b"] b
    by (simp add: trim_def trim_start_visible)
  moreover have "trim (CHR 0x20 # ?t) = ?t"
    using trim_visible [of ?t] b by simp
  ultimately show ?thesis by (simp add: parse_head_branch_def)
qed

subsection \<open>Properties\<close>

text \<open>
  C17. Parsing a remote is exact: the parser accepts exactly the URLs of the grammar
  \<open>github_url\<close>, and gives the scheme, the owner and the repository they are spelled with. So every
  such spelling parses back, with a user part, a port, extra slashes around the path or the suffix
  \<open>.git\<close>, and no URL of another host, and none with more than two components in its path, parses.
\<close>

theorem parse_github_remote_roundtrip:
  "parse_github_remote url = Inr r \<longleftrightarrow> github_url url (gr_scheme r) (gr_org r) (gr_repo r)"
  by (rule parse_github_remote_iff)

text \<open>
  Discovery terminates and stops at the first \<open>.git\<close> entry: it answers what the nearest
  directory, from the working directory upward, that has an entry named \<open>.git\<close> gives, usable or
  not, and never binds the request to a repository further up; the shorter path at every step
  bounds the walk.
\<close>

theorem discover_nearest_entry:
  "discover f p =
     (case find (\<lambda>d. fs_symlink_metadata f (path_join d ''.git'')) (ancestors p) of
        None \<Rightarrow> None
      | Some d \<Rightarrow> from_git_entry f d (path_join d ''.git'')) \<and>
   length (ancestors p) \<le> Suc (length p)"
proof -
  have "length (ancestors p) \<le> Suc (length p)"
  proof (induction p rule: ancestors.induct)
    case (1 p)
    then show ?case
      by (subst ancestors.simps) (fastforce split: option.split dest: path_parent_shorter)
  qed
  with discover_ancestors show ?thesis by blast
qed

lemma parse_remote_url_rendered:
  assumes "list_all wf_remote rs"
  shows "parse_remote_url (concat (map render_remote rs)) =
    opt_or (map_of rs ''origin'') (map_option snd (get rs 0))"
  using scan_rendered [OF assms, of cfg_start]
  by (simp add: parse_remote_url_def Let_def lines_render_all [OF assms]) (simp add: cfg_start_def)

text \<open>
  Reading a configuration file finds the remote git would use: for any list of remote
  sections as git writes them, the answer is the URL of \<open>origin\<close>, and without an \<open>origin\<close> the URL
  of the first section.
\<close>

theorem parse_remote_url_origin_first:
  assumes "list_all wf_remote rs"
  shows "parse_remote_url (concat (map render_remote rs)) =
    opt_or (map_of rs ''origin'') (map_option snd (get rs 0))"
  using assms by (rule parse_remote_url_rendered)

theorem parse_remote_url_origin_first_witness:
  "parse_remote_url (concat (map render_remote [(''up'', ''u1''), (''origin'', ''u2'')])) = Some ''u2''"
  using parse_remote_url_origin_first [of "[(''up'', ''u1''), (''origin'', ''u2'')]"]
  by (simp add: wf_remote_def plain_def visible_def)

definition worktree_fs :: fs where
  "worktree_fs =
     \<lparr>fs_symlink_metadata = (\<lambda>p. p = ''/w/.git''),
      fs_metadata = (\<lambda>p. Inr \<lparr>md_kind = KFile, md_mode = 0, md_uid = 0, md_dev = 0, md_ino = 0\<rparr>),
      fs_read_to_string = (\<lambda>p.
        if p = ''/w/.git'' then Inr (''gitdir: /r/.git/worktrees/w'' @ [CHR 0x0A])
        else if p = ''/r/.git/worktrees/w/commondir'' then Inr (''../..'' @ [CHR 0x0A])
        else if p = ''/r/.git/worktrees/w/HEAD'' then Inr (''ref: refs/heads/'' @ ''topic'' @ [CHR 0x0A])
        else Inr (render_remote (''origin'', ''git@github.com:acme/web.git'')))\<rparr>"

lemma private_dir_from_pointer_plain:
  assumes "plain t"
  shows "private_dir_from_pointer d (''gitdir: '' @ t @ [CHR 0x0A]) = Some (path_join d t)"
proof -
  let ?l = "''gitdir: '' @ t"
  have t: "CHR 0x0A \<notin> set ?l" "last ?l = last t" "last t \<noteq> CHR 0x0D"
    using plainD(1,3) [OF assms] plain_no_space [OF assms] not_visible(2) by auto
  have "strip_cr ?l = ?l" using t(2,3) by (intro strip_cr_id) simp
  then have "lines (?l @ CHR 0x0A # []) = [?l]"
    unfolding lines_append_nl [OF t(1)] by simp
  moreover have "visible (CHR ''g'')" by (simp add: visible_def)
  then have "trim_start ?l = ?l" by (simp add: trim_start_visible)
  ultimately have "lines (''gitdir: '' @ t @ [CHR 0x0A]) = [?l]" "trim_start ?l = ''gitdir:'' @ CHR 0x20 # t"
    by simp_all
  with assms plainD(1) [OF assms] show ?thesis
    by (simp add: private_dir_from_pointer_def del: append_Cons)
qed

lemma worktree_fs_discover:
  "discover worktree_fs ''/w'' =
     Some \<lparr>private_dir = ''/r/.git/worktrees/w'', common_dir = ''/r/.git/worktrees/w/../..''\<rparr>"
proof -
  have "plain ''/r/.git/worktrees/w''" by (simp add: plain_def visible_def)
  from private_dir_from_pointer_plain [OF this, of "''/w''"]
  have "private_dir_from_pointer ''/w'' (''gitdir: /r/.git/worktrees/w'' @ [CHR 0x0A]) =
      Some ''/r/.git/worktrees/w''"
    by (simp add: path_join_def)
  moreover have "plain ''../..''" by (simp add: plain_def visible_def)
  then have "common_dir_from_pointer ''/r/.git/worktrees/w'' (Some (''../..'' @ [CHR 0x0A])) =
      ''/r/.git/worktrees/w/../..''"
    using trim_plain_newline by (simp add: common_dir_from_pointer_def path_join_def del: append_Cons)
  ultimately show ?thesis
    by (subst discover.simps)
      (simp add: worktree_fs_def path_join_def from_git_entry_def is_file_def)
qed

lemma worktree_fs_hints:
  "repo_hints worktree_fs ''/w'' = (Some ''git@github.com:acme/web.git'', Some ''topic'')"
proof -
  have "parse_remote_url (render_remote (''origin'', ''git@github.com:acme/web.git'')) =
      Some ''git@github.com:acme/web.git''"
    using parse_remote_url_rendered [of "[(''origin'', ''git@github.com:acme/web.git'')]"]
    by (simp add: wf_remote_def plain_def visible_def)
  moreover have "plain ''topic''" by (simp add: plain_def visible_def)
  from parse_head_branch_ref [OF this]
  have "parse_head_branch (''ref: refs/heads/topic'' @ [CHR 0x0A]) = Some ''topic''" by simp
  ultimately show ?thesis
    unfolding repo_hints_def worktree_fs_discover option.case
    by (simp add: origin_url_def head_branch_def worktree_fs_def path_join_def)
qed

text \<open>
  A linked worktree answers with the shared configuration and its own branch: when \<open>.git\<close> is
  a file that points to a private directory whose \<open>commondir\<close> names the common directory, the
  remote is read from the common directory's \<open>config\<close> and the branch from the private directory's
  \<open>HEAD\<close>.
\<close>

theorem worktree_hints:
  assumes "fs_symlink_metadata f (path_join d ''.git'')"
    and "fs_metadata f (path_join d ''.git'') = Inr m" and "md_kind m = KFile"
    and "fs_read_to_string f (path_join d ''.git'') = Inr pointer"
    and "private_dir_from_pointer d pointer = Some priv"
    and "fs_read_to_string f (path_join priv ''commondir'') = Inr (target @ [CHR 0x0A])"
    and "plain target" and "common = path_join priv target"
    and "is_file f (path_join common ''config'')"
    and "fs_read_to_string f (path_join common ''config'') = Inr cfg"
    and "fs_read_to_string f (path_join priv ''HEAD'') = Inr (''ref: refs/heads/'' @ b @ [CHR 0x0A])"
    and "plain b"
  shows "repo_hints f d = (parse_remote_url cfg, Some b)"
proof -
  have "common_dir_from_pointer priv (Some (target @ [CHR 0x0A])) = common"
    using assms(7,8) plainD(1) by (simp add: common_dir_from_pointer_def)
  then have "discover f d = Some \<lparr>private_dir = priv, common_dir = common\<rparr>"
    using assms(1-6,9) by (simp add: discover.simps [of f d] from_git_entry_def Let_def)
  then show ?thesis
    using assms(10,11) parse_head_branch_ref [OF assms(12)]
    by (cases "parse_remote_url cfg") (simp_all add: repo_hints_def origin_url_def head_branch_def)
qed

theorem worktree_hints_witness:
  "repo_hints worktree_fs ''/w'' =
     (parse_remote_url (render_remote (''origin'', ''git@github.com:acme/web.git'')), Some ''topic'')"
proof (rule worktree_hints
    [where m = "\<lparr>md_kind = KFile, md_mode = 0, md_uid = 0, md_dev = 0, md_ino = 0\<rparr>"
      and target = "''../..''" and common = "''/r/.git/worktrees/w/../..''"])
  have "plain ''/r/.git/worktrees/w''" by (simp add: plain_def visible_def)
  from private_dir_from_pointer_plain [OF this, of "''/w''"]
  show "private_dir_from_pointer ''/w'' (''gitdir: /r/.git/worktrees/w'' @ [CHR 0x0A]) =
      Some ''/r/.git/worktrees/w''"
    by (simp add: path_join_def)
qed (simp_all add: worktree_fs_def path_join_def is_file_def plain_def visible_def)

end
