(* ===== verification/Resolver.thy ===== *)
theory Resolver
  imports Resolver_Repo Policy
begin

section \<open>Resolving git and gh invocations\<close>

text \<open>
  The second half of \<open>src/src/resolver.rs\<close>: which operation on which repository and branch an
  argument vector of \<open>git\<close> or \<open>gh\<close> asks for. The result is the input of the policy engine.
\<close>

record resolved_request =
  rr_org :: string
  rr_repo :: string
  rr_branch :: "string option"
  rr_operation :: operation
  rr_url_scheme :: url_scheme

abbreviation is_flag :: "string \<Rightarrow> bool" where
  "is_flag arg \<equiv> starts_with arg ''-''"

subsection \<open>git\<close>

definition git_global_flag_takes_value :: "string \<Rightarrow> bool" where
  "git_global_flag_takes_value flag =
     (flag = ''-c'' \<or> flag = ''-C'' \<or> flag = ''--config'' \<or> flag = ''--git-dir'' \<or>
      flag = ''--work-tree'' \<or> flag = ''--namespace'')"

fun first_non_flag :: "string list \<Rightarrow> string option" where
  "first_non_flag [] = None"
| "first_non_flag (arg # rest) =
     (if \<not> is_flag arg then Some arg
      else if git_global_flag_takes_value arg
      then (case rest of [] \<Rightarrow> None | _ # rest' \<Rightarrow> first_non_flag rest')
      else first_non_flag rest)"

fun positional_from :: "string \<Rightarrow> bool \<Rightarrow> string list \<Rightarrow> string list" where
  "positional_from subcmd found [] = []"
| "positional_from subcmd found (arg # rest) =
     (if \<not> found
      then (if arg = subcmd then arg # positional_from subcmd True rest
            else positional_from subcmd False rest)
      else if is_flag arg then positional_from subcmd found rest
      else arg # positional_from subcmd found rest)"

definition positional_after_subcommand :: "string list \<Rightarrow> string \<Rightarrow> string list" where
  "positional_after_subcommand as subcmd = positional_from subcmd False as"

definition resolve_local_side :: "fs \<Rightarrow> string \<Rightarrow> local_repo option \<Rightarrow> string" where
  "resolve_local_side f loc lr =
     (case (if loc = ''HEAD'' \<or> loc = [] then Option.bind lr (head_branch f) else None) of
        Some branch \<Rightarrow> branch
      | None \<Rightarrow> unwrap_or loc (strip_prefix ''refs/heads/'' loc))"

definition branch_from_refspec :: "fs \<Rightarrow> string \<Rightarrow> local_repo option \<Rightarrow> string" where
  "branch_from_refspec f refspec lr =
     (case split_once CHR '':'' refspec of
        Some (loc, remote) \<Rightarrow>
          if remote \<noteq> [] \<and> remote \<noteq> ''HEAD''
          then unwrap_or remote (strip_prefix ''refs/heads/'' remote)
          else resolve_local_side f loc lr
      | None \<Rightarrow> resolve_local_side f refspec lr)"

definition resolve_remote_url ::
    "fs \<Rightarrow> string option \<Rightarrow> path \<Rightarrow> resolver_error + (github_remote \<times> local_repo option)" where
  "resolve_remote_url f hint dir =
     (case hint of
        Some url \<Rightarrow>
          (case parse_github_remote url of Inl e \<Rightarrow> Inl e | Inr remote \<Rightarrow> Inr (remote, None))
      | None \<Rightarrow>
          (case discover f dir of
             None \<Rightarrow> Inl (NoRepoContext dir)
           | Some lr \<Rightarrow>
               (case origin_url f lr of
                  Inl e \<Rightarrow> Inl e
                | Inr url \<Rightarrow>
                    (case parse_github_remote url of
                       Inl e \<Rightarrow> Inl e
                     | Inr remote \<Rightarrow> Inr (remote, Some lr)))))"

definition resolve_git_push ::
    "fs \<Rightarrow> string list \<Rightarrow> path \<Rightarrow> string option \<Rightarrow> string option \<Rightarrow> resolver_error + resolved_request" where
  "resolve_git_push f as dir url_hint branch_hint =
     (case resolve_remote_url f url_hint dir of
        Inl e \<Rightarrow> Inl e
      | Inr (remote, lr) \<Rightarrow>
          let positional = positional_after_subcommand as ''push'';
              refspec = get positional 2;
              branch = (case (refspec, branch_hint) of
                          (Some spec, _) \<Rightarrow> Some (branch_from_refspec f spec lr)
                        | (None, Some hint) \<Rightarrow> Some hint
                        | (None, None) \<Rightarrow> Option.bind lr (head_branch f)) in
            Inr \<lparr>rr_org = gr_org remote, rr_repo = gr_repo remote, rr_branch = branch,
                 rr_operation = Push, rr_url_scheme = gr_scheme remote\<rparr>)"

definition resolve_git_remote_op ::
    "fs \<Rightarrow> path \<Rightarrow> operation \<Rightarrow> string option \<Rightarrow> resolver_error + resolved_request" where
  "resolve_git_remote_op f dir op url_hint =
     (case resolve_remote_url f url_hint dir of
        Inl e \<Rightarrow> Inl e
      | Inr (remote, _) \<Rightarrow>
          Inr \<lparr>rr_org = gr_org remote, rr_repo = gr_repo remote, rr_branch = None,
               rr_operation = op, rr_url_scheme = gr_scheme remote\<rparr>)"

definition resolve_git_clone :: "string list \<Rightarrow> resolver_error + resolved_request" where
  "resolve_git_clone as =
     (case get (positional_after_subcommand as ''clone'') 1 of
        None \<Rightarrow> Inl (UnknownGitSubcommand ''clone (no url)'')
      | Some url \<Rightarrow>
          (case parse_github_remote url of
             Inl e \<Rightarrow> Inl e
           | Inr remote \<Rightarrow>
               Inr \<lparr>rr_org = gr_org remote, rr_repo = gr_repo remote, rr_branch = None,
                    rr_operation = Clone, rr_url_scheme = gr_scheme remote\<rparr>))"

definition resolve_git ::
    "fs \<Rightarrow> string list \<Rightarrow> path \<Rightarrow> string option \<Rightarrow> string option \<Rightarrow> resolver_error + resolved_request" where
  "resolve_git f as dir url_hint branch_hint =
     (case first_non_flag as of
        None \<Rightarrow> Inl (UnknownGitSubcommand [])
      | Some subcmd \<Rightarrow>
          if subcmd = ''push'' then resolve_git_push f as dir url_hint branch_hint
          else if subcmd = ''fetch'' then resolve_git_remote_op f dir Fetch url_hint
          else if subcmd = ''pull'' then resolve_git_remote_op f dir Pull url_hint
          else if subcmd = ''clone'' then resolve_git_clone as
          else Inl (UnknownGitSubcommand subcmd))"

subsection \<open>gh\<close>

definition GH_API_VALUE_FLAGS :: "string list" where
  "GH_API_VALUE_FLAGS =
     [''-X'', ''--method'', ''-F'', ''--field'', ''-f'', ''--raw-field'', ''-H'', ''--header'',
      ''-q'', ''--jq'', ''-t'', ''--template'', ''--input'', ''--cache'', ''--hostname'']"

fun gh_api_positional_args :: "string list \<Rightarrow> string list" where
  "gh_api_positional_args [] = []"
| "gh_api_positional_args (arg # rest) =
     (if arg \<in> set GH_API_VALUE_FLAGS
      then (case rest of [] \<Rightarrow> [] | _ # rest' \<Rightarrow> gh_api_positional_args rest')
      else if is_flag arg then gh_api_positional_args rest
      else arg # gh_api_positional_args rest)"

definition gh_positional_args :: "string list \<Rightarrow> string list" where
  "gh_positional_args as =
     (if find (\<lambda>arg. \<not> is_flag arg) as = Some ''api''
      then gh_api_positional_args as
      else filter (\<lambda>arg. \<not> is_flag arg) as)"

fun gh_api_method :: "string list \<Rightarrow> string option" where
  "gh_api_method [] = None"
| "gh_api_method (arg # rest) =
     (if arg = ''-X'' \<or> arg = ''--method'' then get rest 0
      else (case strip_prefix ''--method='' arg of
              Some v \<Rightarrow> Some v
            | None \<Rightarrow>
                (case strip_prefix ''-X'' arg of
                   Some v \<Rightarrow> if v \<noteq> [] then Some v else gh_api_method rest
                 | None \<Rightarrow> gh_api_method rest)))"

fun extract_repo_flag :: "string list \<Rightarrow> string option" where
  "extract_repo_flag [] = None"
| "extract_repo_flag (arg # rest) =
     (if arg = ''-R'' \<or> arg = ''--repo'' then get rest 0
      else (case strip_prefix ''--repo='' arg of
              Some v \<Rightarrow> Some v
            | None \<Rightarrow> extract_repo_flag rest))"

definition parse_org_repo_pair :: "string \<Rightarrow> resolver_error + (string \<times> string)" where
  "parse_org_repo_pair spec =
     (case split_once CHR ''/'' spec of
        None \<Rightarrow> Inl (InvalidRemoteUrl spec)
      | Some (org, repo) \<Rightarrow>
          if org = [] \<or> repo = [] \<or> CHR ''/'' \<in> set repo then Inl (InvalidRemoteUrl spec)
          else Inr (org, repo))"

text \<open>The arms of the match on the group and the action, in the order of the source.\<close>

definition gh_operations :: "((string \<times> string) \<times> operation) list" where
  "gh_operations =
     [((''pr'', ''create''), PrOpen),
      ((''pr'', ''comment''), PrComment),
      ((''pr'', ''merge''), PrMerge),
      ((''pr'', ''close''), PrClose),
      ((''pr'', ''review''), PrReview),
      ((''issue'', ''create''), IssueOpen),
      ((''issue'', ''comment''), IssueComment),
      ((''issue'', ''close''), IssueClose),
      ((''release'', ''create''), ReleaseCreate),
      ((''release'', ''delete''), ReleaseDelete),
      ((''release'', ''delete-asset''), ReleaseDeleteAsset),
      ((''release'', ''download''), ReleaseDownload),
      ((''release'', ''edit''), ReleaseEdit),
      ((''release'', ''list''), ReleaseList),
      ((''release'', ''upload''), ReleaseUpload),
      ((''release'', ''view''), ReleaseView)]"

definition classify_gh :: "string list \<Rightarrow> resolver_error + operation" where
  "classify_gh as =
     (let positional = gh_positional_args as;
          group = unwrap_or [] (get positional 0);
          action = unwrap_or [] (get positional 1) in
        case map_of gh_operations (group, action) of
          Some op \<Rightarrow> Inr op
        | None \<Rightarrow>
            if group = ''api'' \<and> action = [] then Inl (MissingGhArgument ''api'')
            else if group = ''api''
            then (case gh_api_method as of
                    Some m \<Rightarrow>
                      if \<not> eq_ignore_ascii_case m ''GET''
                      then Inl (UnknownGhCommand (''gh api -X '' @ m))
                      else Inr (GhApiRead action)
                  | None \<Rightarrow> Inr (GhApiRead action))
            else if group = [] then Inl (UnknownGhSubcommand [])
            else if action = [] then Inl (MissingGhArgument group)
            else Inl (UnknownGhSubcommand (group @ '' '' @ action)))"

definition gh_remote ::
    "fs \<Rightarrow> string list \<Rightarrow> path \<Rightarrow> string option \<Rightarrow> resolver_error + (github_remote \<times> local_repo option)" where
  "gh_remote f as dir url_hint =
     (case extract_repo_flag as of
        Some spec \<Rightarrow>
          (case parse_org_repo_pair spec of
             Inl e \<Rightarrow> Inl e
           | Inr (org, repo) \<Rightarrow>
               Inr (\<lparr>gr_org = org, gr_repo = repo, gr_scheme = Https\<rparr>, None))
      | None \<Rightarrow> resolve_remote_url f url_hint dir)"

definition resolve_gh ::
    "fs \<Rightarrow> string list \<Rightarrow> path \<Rightarrow> string option \<Rightarrow> string option \<Rightarrow> resolver_error + resolved_request" where
  "resolve_gh f as dir url_hint branch_hint =
     (case classify_gh as of
        Inl e \<Rightarrow> Inl e
      | Inr (GhApiRead p) \<Rightarrow>
          Inr \<lparr>rr_org = ''*'', rr_repo = ''*'', rr_branch = None,
               rr_operation = GhApiRead p, rr_url_scheme = Https\<rparr>
      | Inr op \<Rightarrow>
          (case gh_remote f as dir url_hint of
             Inl e \<Rightarrow> Inl e
           | Inr (remote, lr) \<Rightarrow>
               let branch =
                     (if op = PrOpen
                      then opt_or branch_hint
                             (Option.bind (opt_or lr (discover f dir)) (head_branch f))
                      else None) in
                 Inr \<lparr>rr_org = gr_org remote, rr_repo = gr_repo remote, rr_branch = branch,
                      rr_operation = op, rr_url_scheme = gr_scheme remote\<rparr>))"

subsection \<open>Scanning for the subcommand\<close>

text \<open>
  What a scanner for the subcommand promises: it skips flags, together with the value of those
  that take one, and answers the first other argument. The resolver and the broker each have such
  a scanner; whatever satisfies this contract computes \<open>scan_reference\<close>.
\<close>

fun scan_reference :: "(string \<Rightarrow> bool) \<Rightarrow> bool \<Rightarrow> string list \<Rightarrow> string option" where
  "scan_reference takes_value skip [] = None"
| "scan_reference takes_value skip (arg # rest) =
     (if skip then scan_reference takes_value False rest
      else if is_flag arg then scan_reference takes_value (takes_value arg) rest
      else Some arg)"

locale subcommand_scan =
  fixes takes_value :: "string \<Rightarrow> bool"
    and scan :: "string list \<Rightarrow> string option"
  assumes scan_Nil: "scan [] = None"
    and scan_positional: "\<not> is_flag arg \<Longrightarrow> scan (arg # rest) = Some arg"
    and scan_switch: "is_flag arg \<Longrightarrow> \<not> takes_value arg \<Longrightarrow> scan (arg # rest) = scan rest"
    and scan_valued: "is_flag arg \<Longrightarrow> takes_value arg \<Longrightarrow> scan (arg # rest) = scan (tl rest)"
begin

lemma scan_eq_reference: "scan as = scan_reference takes_value False as"
proof (induction as rule: length_induct)
  case (1 as)
  show ?case
  proof (cases as)
    case Nil
    then show ?thesis by (simp add: scan_Nil)
  next
    case (Cons arg rest)
    show ?thesis
    proof (cases "is_flag arg \<and> takes_value arg")
      case True
      with 1 Cons have "scan (tl rest) = scan_reference takes_value False (tl rest)" by simp
      with True Cons show ?thesis by (cases rest) (simp_all add: scan_valued)
    next
      case False
      with 1 Cons show ?thesis
        by (cases "is_flag arg") (simp_all add: scan_positional scan_switch)
    qed
  qed
qed

lemma scan_result: "scan as = Some sub \<Longrightarrow> sub \<in> set as \<and> \<not> is_flag sub"
proof -
  have "scan_reference takes_value skip as = Some sub \<Longrightarrow> sub \<in> set as \<and> \<not> is_flag sub" for skip
    by (induction as arbitrary: skip) (auto split: if_splits)
  then show "scan as = Some sub \<Longrightarrow> sub \<in> set as \<and> \<not> is_flag sub"
    by (simp add: scan_eq_reference)
qed

end

interpretation resolver_scan: subcommand_scan git_global_flag_takes_value first_non_flag
  by unfold_locales (auto split: list.split)

subsection \<open>Lemmas\<close>

lemma resolve_remote_url_ok:
  assumes "resolve_remote_url f hint dir = Inr (remote, lr)"
  shows "wf_name (gr_org remote) \<and> wf_name (gr_repo remote)"
proof -
  from assms obtain url where "parse_github_remote url = Inr remote"
    by (auto simp: resolve_remote_url_def split: option.splits sum.splits)
  from parse_github_remote_names [OF this] show ?thesis .
qed

lemma positional_from_append:
  "\<exists>more. positional_from s b (as @ bs) = positional_from s b as @ more"
  by (induction as arbitrary: b) auto

lemma positional_from_ops: "set (positional_from s b as) \<subseteq> set as"
  by (induction as arbitrary: b) auto

lemma get_append: "i < length xs \<Longrightarrow> get (xs @ ys) i = get xs i"
  by (simp add: get_def nth_append)

lemma gh_operations_not_api: "map_of gh_operations (g, a) = Some op \<Longrightarrow> op \<noteq> GhApiRead p"
  by (auto simp: gh_operations_def split: if_splits)

lemma resolve_remote_url_hints:
  assumes "repo_hints f dir = (Some url, b)"
  shows "resolve_remote_url f None dir =
      (case parse_github_remote url of Inl e \<Rightarrow> Inl e | Inr remote \<Rightarrow> Inr (remote, discover f dir)) \<and>
    Option.bind (discover f dir) (head_branch f) = b"
proof -
  from assms obtain lr where lr: "discover f dir = Some lr" "origin_url f lr = Inr url"
    "head_branch f lr = b" by (auto simp: repo_hints_def split: option.splits)
  then show ?thesis by (simp add: resolve_remote_url_def split: sum.split)
qed

text \<open>A refspec whose branch is left to the checked-out branch.\<close>

definition names_head :: "string \<Rightarrow> bool" where
  "names_head spec =
     (case split_once CHR '':'' spec of
        Some (loc, remote) \<Rightarrow> (remote = [] \<or> remote = ''HEAD'') \<and> (loc = ''HEAD'' \<or> loc = [])
      | None \<Rightarrow> spec = ''HEAD'' \<or> spec = [])"

lemma branch_from_refspec_explicit:
  "\<not> names_head spec \<Longrightarrow> branch_from_refspec f spec lr = branch_from_refspec f spec None"
proof (cases "split_once CHR '':'' spec")
  case None
  assume "\<not> names_head spec"
  with None show ?thesis
    unfolding names_head_def branch_from_refspec_def resolve_local_side_def by (simp only: option.case) simp
next
  case (Some lc)
  assume "\<not> names_head spec"
  with Some show ?thesis
    unfolding names_head_def branch_from_refspec_def resolve_local_side_def
    by (cases lc) auto
qed

lemma resolve_git_cases:
  assumes "resolve_git f as dir hint bh = Inr r"
  obtains (push) "first_non_flag as = Some ''push''" "resolve_git_push f as dir hint bh = Inr r"
    | (fetch) "first_non_flag as = Some ''fetch''" "resolve_git_remote_op f dir Fetch hint = Inr r"
    | (pull) "first_non_flag as = Some ''pull''" "resolve_git_remote_op f dir Pull hint = Inr r"
    | (clone) "first_non_flag as = Some ''clone''" "resolve_git_clone as = Inr r"
  using assms unfolding resolve_git_def
  by (cases "first_non_flag as") (simp_all split: if_split_asm)

lemma resolve_git_push_ok:
  assumes "resolve_git_push f as dir hint bh = Inr r"
  shows "\<exists>remote lr. resolve_remote_url f hint dir = Inr (remote, lr) \<and> rr_operation r = Push \<and>
    rr_org r = gr_org remote \<and> rr_repo r = gr_repo remote \<and> wf_name (rr_org r) \<and> wf_name (rr_repo r)"
proof -
  from assms obtain remote lr where "resolve_remote_url f hint dir = Inr (remote, lr)"
    and r: "rr_org r = gr_org remote" "rr_repo r = gr_repo remote" "rr_operation r = Push"
    by (auto simp: resolve_git_push_def Let_def split: sum.splits)
  with resolve_remote_url_ok [OF this(1)] show ?thesis by auto
qed

lemma resolve_git_remote_op_ok:
  assumes "resolve_git_remote_op f dir op hint = Inr r"
  shows "\<exists>remote lr. resolve_remote_url f hint dir = Inr (remote, lr) \<and> rr_operation r = op \<and> rr_branch r = None \<and>
    rr_org r = gr_org remote \<and> rr_repo r = gr_repo remote \<and> wf_name (rr_org r) \<and> wf_name (rr_repo r)"
proof -
  from assms obtain remote lr where "resolve_remote_url f hint dir = Inr (remote, lr)"
    and r: "rr_org r = gr_org remote" "rr_repo r = gr_repo remote" "rr_operation r = op"
      "rr_branch r = None"
    by (auto simp: resolve_git_remote_op_def split: sum.splits)
  with resolve_remote_url_ok [OF this(1)] show ?thesis by auto
qed

lemma resolve_git_clone_ok:
  assumes "resolve_git_clone as = Inr r"
  shows "\<exists>url remote. get (positional_after_subcommand as ''clone'') 1 = Some url \<and>
    parse_github_remote url = Inr remote \<and> rr_operation r = Clone \<and> rr_branch r = None \<and>
    rr_org r = gr_org remote \<and> rr_repo r = gr_repo remote \<and> wf_name (rr_org r) \<and> wf_name (rr_repo r)"
proof -
  from assms obtain url remote where "parse_github_remote url = Inr remote"
    and r: "get (positional_after_subcommand as ''clone'') 1 = Some url"
      "rr_org r = gr_org remote" "rr_repo r = gr_repo remote" "rr_operation r = Clone" "rr_branch r = None"
    by (auto simp: resolve_git_clone_def split: sum.splits option.splits)
  with parse_github_remote_names [OF this(1)] show ?thesis by auto
qed

text \<open>
  The grammar of the global options of git as the resolver takes it: an option with a separate value
  and that value, or a flag alone.
\<close>

definition git_valued_options :: "string list" where
  "git_valued_options = [''-c'', ''-C'', ''--config'', ''--git-dir'', ''--work-tree'', ''--namespace'']"

definition git_global :: "string list \<Rightarrow> bool" where
  "git_global g =
     (case g of
        [flag] \<Rightarrow> is_flag flag \<and> flag \<notin> set git_valued_options
      | [flag, v] \<Rightarrow> flag \<in> set git_valued_options
      | _ \<Rightarrow> False)"

lemma list2_cases: "(xs = [] \<Longrightarrow> P) \<Longrightarrow> (\<And>x. xs = [x] \<Longrightarrow> P) \<Longrightarrow> (\<And>x y. xs = [x, y] \<Longrightarrow> P) \<Longrightarrow>
    (\<And>x y z zs. xs = x # y # z # zs \<Longrightarrow> P) \<Longrightarrow> P"
  by (metis list.exhaust)

lemma git_global_simps [simp]:
  "git_global [flag] \<longleftrightarrow> is_flag flag \<and> flag \<notin> set git_valued_options"
  "git_global [flag, v] \<longleftrightarrow> flag \<in> set git_valued_options"
  "git_global [] = False" "git_global (a # b # c # xs) = False"
  by (simp_all add: git_global_def)

lemma takes_value_options: "git_global_flag_takes_value flag \<longleftrightarrow> flag \<in> set git_valued_options"
  by (auto simp: git_global_flag_takes_value_def git_valued_options_def)

lemma valued_option_flag: "flag \<in> set git_valued_options \<Longrightarrow> is_flag flag"
  by (auto simp: git_valued_options_def)

lemma first_non_flag_grammar:
  "first_non_flag as = Some sub \<Longrightarrow>
   \<exists>globals rest. as = concat globals @ sub # rest \<and> list_all git_global globals \<and> \<not> is_flag sub"
proof (induction as rule: first_non_flag.induct)
  case 1
  then show ?case by simp
next
  case (2 arg rest)
  consider (positional) "\<not> is_flag arg" | (valued) "is_flag arg" "git_global_flag_takes_value arg"
    | (switch) "is_flag arg" "\<not> git_global_flag_takes_value arg" by blast
  then show ?case
  proof cases
    case positional
    with "2.prems" have "sub = arg" by simp
    with positional show ?thesis by (intro exI [of _ "[]"] exI [of _ rest]) simp
  next
    case valued
    with "2.prems" obtain v rest' where r: "rest = v # rest'" "first_non_flag rest' = Some sub"
      by (cases rest) simp_all
    with "2.IH"(1) valued obtain globals rest'' where
      "rest' = concat globals @ sub # rest''" "list_all git_global globals" "\<not> is_flag sub" by blast
    with valued r show ?thesis
      by (intro exI [of _ "[arg, v] # globals"] exI [of _ rest'']) (simp add: takes_value_options)
  next
    case switch
    with "2.prems" have "first_non_flag rest = Some sub" by simp
    with "2.IH"(2) switch obtain globals rest'' where
      "rest = concat globals @ sub # rest''" "list_all git_global globals" "\<not> is_flag sub" by blast
    with switch show ?thesis
      by (intro exI [of _ "[arg] # globals"] exI [of _ rest'']) (simp add: takes_value_options)
  qed
qed

lemma grammar_intro:
  assumes "\<exists>globals rest. as = concat globals @ sub # rest \<and> list_all git_global globals \<and> \<not> is_flag sub"
    and "P sub" "Q sub remote"
  shows "\<exists>globals sub rest remote. as = concat globals @ sub # rest \<and> list_all git_global globals \<and>
    \<not> is_flag sub \<and> P sub \<and> Q sub remote"
  using assms by blast

lemma positional_from_found: "positional_from s True as = filter (\<lambda>a. \<not> is_flag a) as"
  by (induction as) simp_all

lemma positional_first:
  "get (positional_from s False as) 1 = Some u \<Longrightarrow>
   \<exists>pre flags post. as = pre @ s # flags @ u # post \<and> s \<notin> set pre \<and> list_all is_flag flags \<and> \<not> is_flag u"
proof (induction as)
  case Nil
  then show ?case by (simp add: get_def)
next
  case (Cons arg rest)
  show ?case
  proof (cases "arg = s")
    case True
    with Cons.prems have "get (filter (\<lambda>a. \<not> is_flag a) rest) 0 = Some u"
      by (simp add: positional_from_found get_def split: if_split_asm)
    then obtain us where "filter (\<lambda>a. \<not> is_flag a) rest = u # us"
      by (cases "filter (\<lambda>a. \<not> is_flag a) rest") (simp_all add: get_def)
    then obtain flags post where "rest = flags @ u # post" "\<forall>a\<in>set flags. is_flag a" "\<not> is_flag u"
      by (auto simp: filter_eq_Cons_iff)
    with True show ?thesis by (intro exI [of _ "[]"] exI [of _ flags] exI [of _ post]) (simp add: list_all_iff)
  next
    case False
    with Cons obtain pre flags post where "rest = pre @ s # flags @ u # post" "s \<notin> set pre"
      "list_all is_flag flags" "\<not> is_flag u" by auto
    with False show ?thesis by (intro exI [of _ "arg # pre"] exI [of _ flags] exI [of _ post]) simp
  qed
qed

definition git_operations :: "(string \<times> operation) list" where
  "git_operations = [(''push'', Push), (''fetch'', Fetch), (''pull'', Pull), (''clone'', Clone)]"

lemma positional_from_flags:
  "list_all is_flag fl \<Longrightarrow> positional_from s True (fl @ as) = positional_from s True as"
  by (induction fl) auto

lemma positional_from_skip:
  "list_all (\<lambda>a. a \<noteq> s) pre \<Longrightarrow> positional_from s False (pre @ s # as) = s # positional_from s True as"
  by (induction pre) auto

lemma first_non_flag_skip:
  "list_all git_global globals \<Longrightarrow> \<not> is_flag s \<Longrightarrow> first_non_flag (concat globals @ s # as) = Some s"
proof (induction globals)
  case Nil
  then show ?case by simp
next
  case (Cons g globals)
  then show ?case
    by (cases g rule: list2_cases)
      (simp_all add: takes_value_options valued_option_flag)
qed

text \<open>The spellings of a refspec that names the destination branch.\<close>

definition destinations :: "string \<Rightarrow> string \<Rightarrow> string list" where
  "destinations src dst =
     [dst, ''refs/heads/'' @ dst, src @ '':'' @ dst, src @ '':'' @ ''refs/heads/'' @ dst]"

lemma branch_from_refspec_destination:
  assumes dst: "CHR '':'' \<notin> set dst" "dst \<noteq> []" "dst \<noteq> ''HEAD''" "strip_prefix ''refs/heads/'' dst = None"
    and src: "CHR '':'' \<notin> set src" and spec: "spec \<in> set (destinations src dst)"
  shows "branch_from_refspec f spec lr = dst"
proof -
  have bare: "split_once CHR '':'' dst = None" and
    full: "split_once CHR '':'' (''refs/heads/'' @ dst) = None"
    using dst(1) by (simp_all del: append_Cons append_Nil)
  from spec consider "spec = dst" | "spec = ''refs/heads/'' @ dst" |
    "spec = src @ CHR '':'' # dst" | "spec = src @ CHR '':'' # (''refs/heads/'' @ dst)"
    by (auto simp: destinations_def)
  then show ?thesis
  proof cases
    case 1
    with bare dst show ?thesis by (simp add: branch_from_refspec_def resolve_local_side_def)
  next
    case 2
    have "''refs/heads/'' @ dst \<noteq> ''HEAD''" "''refs/heads/'' @ dst \<noteq> []" by simp_all
    with 2 full show ?thesis
      unfolding branch_from_refspec_def resolve_local_side_def
      by (simp del: append_Cons append_Nil)
  next
    case 3
    with src dst show ?thesis by (simp add: branch_from_refspec_def split_once_append)
  next
    case 4
    have "''refs/heads/'' @ dst \<noteq> ''HEAD''" "''refs/heads/'' @ dst \<noteq> []" by simp_all
    with 4 show ?thesis
      unfolding 4 branch_from_refspec_def split_once_append [OF src]
      by (simp del: append_Cons append_Nil)
  qed
qed

lemma classify_gh_api:
  "classify_gh as = Inr (GhApiRead p) \<longleftrightarrow>
     get (gh_positional_args as) 0 = Some ''api'' \<and> get (gh_positional_args as) 1 = Some p \<and> p \<noteq> [] \<and>
     (case gh_api_method as of None \<Rightarrow> True | Some m \<Rightarrow> eq_ignore_ascii_case m ''GET'')"
  (is "?l = ?r")
proof -
  let ?g = "unwrap_or [] (get (gh_positional_args as) 0)"
  let ?a = "unwrap_or [] (get (gh_positional_args as) 1)"
  have one: "unwrap_or [] m = c # w \<longleftrightarrow> m = Some (c # w)" for m :: "string option" and c w
    by (cases m) simp_all
  show ?thesis
  proof (cases "?g = ''api''")
    case True
    then have "map_of gh_operations (?g, ?a) = None" by (simp add: gh_operations_def)
    with True have "?l \<longleftrightarrow> ?a \<noteq> [] \<and> ?a = p \<and>
        (case gh_api_method as of None \<Rightarrow> True | Some m \<Rightarrow> eq_ignore_ascii_case m ''GET'')"
      by (auto simp: classify_gh_def Let_def split: option.splits)
    also have "\<dots> \<longleftrightarrow> ?r" using True
      by (cases "get (gh_positional_args as) 1") (auto simp: one)
    finally show ?thesis .
  next
    case False
    then have "\<not> ?r" by auto
    moreover from False have "\<not> ?l"
      using gh_operations_not_api [of ?g ?a]
      by (auto simp: classify_gh_def Let_def split: option.splits if_splits)
    ultimately show ?thesis by simp
  qed
qed

lemma classify_gh_table:
  assumes "classify_gh as = Inr op" "\<And>p. op \<noteq> GhApiRead p"
  shows "\<exists>g a. get (gh_positional_args as) 0 = Some g \<and> get (gh_positional_args as) 1 = Some a \<and>
    map_of gh_operations (g, a) = Some op"
proof -
  let ?g = "unwrap_or [] (get (gh_positional_args as) 0)"
  let ?a = "unwrap_or [] (get (gh_positional_args as) 1)"
  have m: "map_of gh_operations (?g, ?a) = Some op"
    using assms by (auto simp: classify_gh_def Let_def split: option.splits if_splits)
  have "map_of gh_operations ([], ?a) = None" "map_of gh_operations (?g, []) = None"
    by (simp_all add: gh_operations_def)
  with m show ?thesis
    by (cases "get (gh_positional_args as) 0"; cases "get (gh_positional_args as) 1") simp_all
qed

lemma parse_org_repo_pair_ok:
  "parse_org_repo_pair spec = Inr (org, repo) \<longleftrightarrow> wf_name org \<and> wf_name repo \<and> spec = org @ ''/'' @ repo"
proof (cases "split_once CHR ''/'' spec")
  case None
  then show ?thesis by (auto simp: parse_org_repo_pair_def)
next
  case (Some ab)
  then obtain a b where ab: "ab = (a, b)" "spec = a @ CHR ''/'' # b" "CHR ''/'' \<notin> set a"
    by (cases ab) (auto simp: split_once_Some_iff)
  have val: "parse_org_repo_pair spec =
      (if wf_name a \<and> wf_name b then Inr (a, b) else Inl (InvalidRemoteUrl spec))"
    using Some ab(1,3) by (auto simp: parse_org_repo_pair_def wf_name_def)
  have uniq: "a = org \<and> b = repo" if "wf_name org" "spec = org @ ''/'' @ repo"
    using Some ab(1) split_once_append [of "CHR ''/''" org repo] that by (simp add: wf_name_def)
  show ?thesis
  proof
    assume "parse_org_repo_pair spec = Inr (org, repo)"
    with val ab(2) show "wf_name org \<and> wf_name repo \<and> spec = org @ ''/'' @ repo"
      by (simp split: if_split_asm)
  next
    assume "wf_name org \<and> wf_name repo \<and> spec = org @ ''/'' @ repo"
    with uniq val show "parse_org_repo_pair spec = Inr (org, repo)" by metis
  qed
qed

lemma resolve_gh_other:
  assumes "classify_gh as = Inr op" "\<And>p. op \<noteq> GhApiRead p"
  shows "resolve_gh f as dir hint bh =
    (case gh_remote f as dir hint of
       Inl e \<Rightarrow> Inl e
     | Inr (remote, lr) \<Rightarrow>
         Inr \<lparr>rr_org = gr_org remote, rr_repo = gr_repo remote,
              rr_branch = (if op = PrOpen
                           then opt_or bh (Option.bind (opt_or lr (discover f dir)) (head_branch f))
                           else None),
              rr_operation = op, rr_url_scheme = gr_scheme remote\<rparr>)"
  using assms by (cases "gh_remote f as dir hint"; cases op) (auto simp: resolve_gh_def)

subsection \<open>Properties\<close>

text \<open>
  C13. What the resolver makes of a git invocation, against the grammar of its command line: a run of
  global options, the six that take a separate value (\<open>-c\<close>, \<open>-C\<close>, \<open>--config\<close>, \<open>--git-dir\<close>,
  \<open>--work-tree\<close>, \<open>--namespace\<close>) each with that value and any other flag alone, then the subcommand.
  The operation is the one that subcommand names. A clone is judged on the URL that is the first
  argument without a dash after the first argument that reads \<open>clone\<close>, everything else on the hint
  or the remote \<open>origin\<close> of the working directory; the owner and the repository are names without a
  slash, and only a push carries a branch. Git has further options with a separate value
  (\<open>--attr-source\<close>, \<open>--config-env\<close>), which this grammar takes for switches: see
  \<open>attr_source_misread\<close>.
\<close>

theorem resolve_git_sound:
  assumes "resolve_git f as dir url_hint branch_hint = Inr r"
  shows "\<exists>globals sub rest remote. as = concat globals @ sub # rest \<and> list_all git_global globals \<and>
    \<not> is_flag sub \<and> map_of git_operations sub = Some (rr_operation r) \<and>
    (if sub = ''clone''
     then (\<exists>pre flags url post. as = pre @ ''clone'' # flags @ url # post \<and> ''clone'' \<notin> set pre \<and>
             list_all is_flag flags \<and> \<not> is_flag url \<and> parse_github_remote url = Inr remote)
     else (\<exists>lr. resolve_remote_url f url_hint dir = Inr (remote, lr))) \<and>
    rr_org r = gr_org remote \<and> rr_repo r = gr_repo remote \<and> wf_name (rr_org r) \<and> wf_name (rr_repo r) \<and>
    (rr_operation r = Push \<or> rr_branch r = None)"
  using assms
proof (cases rule: resolve_git_cases)
  case push
  from resolve_git_push_ok [OF push(2)] obtain remote lr where
    "resolve_remote_url f url_hint dir = Inr (remote, lr)" "rr_operation r = Push"
    "rr_org r = gr_org remote" "rr_repo r = gr_repo remote" "wf_name (rr_org r)" "wf_name (rr_repo r)" by blast
  with first_non_flag_grammar [OF push(1)] show ?thesis
    by (intro grammar_intro [of _ "''push''"]) (simp_all add: git_operations_def)
next
  case fetch
  from resolve_git_remote_op_ok [OF fetch(2)] obtain remote lr where
    "resolve_remote_url f url_hint dir = Inr (remote, lr)" "rr_operation r = Fetch" "rr_branch r = None"
    "rr_org r = gr_org remote" "rr_repo r = gr_repo remote" "wf_name (rr_org r)" "wf_name (rr_repo r)" by blast
  with first_non_flag_grammar [OF fetch(1)] show ?thesis
    by (intro grammar_intro [of _ "''fetch''"]) (simp_all add: git_operations_def)
next
  case pull
  from resolve_git_remote_op_ok [OF pull(2)] obtain remote lr where
    "resolve_remote_url f url_hint dir = Inr (remote, lr)" "rr_operation r = Pull" "rr_branch r = None"
    "rr_org r = gr_org remote" "rr_repo r = gr_repo remote" "wf_name (rr_org r)" "wf_name (rr_repo r)" by blast
  with first_non_flag_grammar [OF pull(1)] show ?thesis
    by (intro grammar_intro [of _ "''pull''"]) (simp_all add: git_operations_def)
next
  case clone
  from resolve_git_clone_ok [OF clone(2)] obtain url remote where
    u: "get (positional_after_subcommand as ''clone'') 1 = Some url" "parse_github_remote url = Inr remote"
      "rr_operation r = Clone" "rr_branch r = None" "rr_org r = gr_org remote" "rr_repo r = gr_repo remote"
      "wf_name (rr_org r)" "wf_name (rr_repo r)" by blast
  from positional_first [OF u(1) [unfolded positional_after_subcommand_def]] u(2)
  have "\<exists>pre flags url post. as = pre @ ''clone'' # flags @ url # post \<and> ''clone'' \<notin> set pre \<and>
      list_all is_flag flags \<and> \<not> is_flag url \<and> parse_github_remote url = Inr remote" by blast
  with first_non_flag_grammar [OF clone(1)] u(3-) show ?thesis
    by (intro grammar_intro [of _ "''clone''"]) (simp_all add: git_operations_def)
qed

theorem resolve_git_sound_witness:
  "\<exists>r globals rest. resolve_git worktree_fs [''-c'', ''push'', ''--no-pager'', ''fetch'', ''origin''] ''/w''
       (Some ''git@github.com:acme/web.git'') None = Inr r \<and>
     [''-c'', ''push'', ''--no-pager'', ''fetch'', ''origin''] = concat globals @ ''fetch'' # rest \<and>
     list_all git_global globals \<and> rr_org r = ''acme'' \<and> rr_repo r = ''web''"
proof -
  let ?as = "[''-c'', ''push'', ''--no-pager'', ''fetch'', ''origin'']"
  let ?r = "\<lparr>rr_org = ''acme'', rr_repo = ''web'', rr_branch = None, rr_operation = Fetch, rr_url_scheme = Ssh\<rparr>"
  have r: "resolve_git worktree_fs ?as ''/w'' (Some ''git@github.com:acme/web.git'') None = Inr ?r"
    by code_simp
  from resolve_git_sound [OF r] obtain globals sub rest where
    g: "?as = concat globals @ sub # rest" "list_all git_global globals" "map_of git_operations sub = Some Fetch"
    unfolding resolved_request.simps by blast
  from g(3) have "sub = ''fetch''" by (simp add: git_operations_def split: if_split_asm)
  with r g(1,2) show ?thesis by (intro exI [of _ ?r] exI [of _ globals] exI [of _ rest]) simp
qed

lemma attr_source_misread:
  "resolve_git worktree_fs [''--attr-source'', ''fetch'', ''push'', ''origin''] ''/w''
     (Some ''git@github.com:acme/web.git'') None =
   Inr \<lparr>rr_org = ''acme'', rr_repo = ''web'', rr_branch = None, rr_operation = Fetch, rr_url_scheme = Ssh\<rparr>"
  by code_simp

lemma value_of_global_misread:
  "Option.bind (case resolve_git worktree_fs [''-C'', ''push'', ''-c'', ''a=b'', ''push'', ''origin'', ''main''] ''/w''
     (Some ''git@github.com:acme/web.git'') None of Inl _ \<Rightarrow> None | Inr r \<Rightarrow> Some r) rr_branch = Some ''push''"
  by code_simp



lemma push_option_value_misread:
  "Option.bind (case resolve_git worktree_fs [''push'', ''-o'', ''x'', ''origin'', ''main''] ''/w''
     (Some ''git@github.com:acme/web.git'') None of Inl _ \<Rightarrow> None | Inr r \<Rightarrow> Some r) rr_branch = Some ''origin''"
  by code_simp



lemma api_fields_resolve_as_read:
  "resolve_gh worktree_fs [''api'', ''repos/acme/web/issues'', ''-f'', ''title=x''] ''/w'' None None =
   Inr \<lparr>rr_org = ''*'', rr_repo = ''*'', rr_branch = None, rr_operation = GhApiRead ''repos/acme/web/issues'',
        rr_url_scheme = Https\<rparr>"
  by code_simp

text \<open>
  C16. The hints the unprivileged client sends stand for the repository it sits in: when the working
  directory has a remote to hint at and the broker sees the same file system, resolving with the
  hints computed from the working directory gives the same request as resolving without them,
  unless the arguments name a refspec for a push that leaves the branch to \<open>HEAD\<close>. (For
  \<open>git push origin HEAD\<close> the two can differ: with hints the branch is the word \<open>HEAD\<close>.)
\<close>

theorem hints_agree:
  assumes "repo_hints f dir = (Some url, branch_hint)"
    and "list_all (\<lambda>spec. \<not> names_head spec)
      (case get (positional_after_subcommand as ''push'') 2 of None \<Rightarrow> [] | Some spec \<Rightarrow> [spec])"
  shows "resolve_git f as dir (Some url) branch_hint = resolve_git f as dir None None \<and>
    resolve_gh f as dir (Some url) branch_hint = resolve_gh f as dir None None"
proof (intro conjI)
  note h = resolve_remote_url_hints [OF assms(1)]
  have with_hint: "resolve_remote_url f (Some url) dir =
      (case parse_github_remote url of Inl e \<Rightarrow> Inl e | Inr remote \<Rightarrow> Inr (remote, None))"
    by (simp add: resolve_remote_url_def)
  have push: "resolve_git_push f as dir (Some url) branch_hint = resolve_git_push f as dir None None"
  proof (cases "get (positional_after_subcommand as ''push'') 2")
    case None
    with h show ?thesis unfolding resolve_git_push_def with_hint
      by (cases branch_hint) (simp_all add: Let_def split: sum.split)
  next
    case (Some spec)
    with assms(2) have "\<not> names_head spec" by simp
    then have "branch_from_refspec f spec (discover f dir) = branch_from_refspec f spec None"
      by (rule branch_from_refspec_explicit)
    with Some h show ?thesis unfolding resolve_git_push_def with_hint
      by (simp add: Let_def split: sum.split)
  qed
  have remote_op: "resolve_git_remote_op f dir op (Some url) = resolve_git_remote_op f dir op None" for op
    using h unfolding resolve_git_remote_op_def with_hint by (simp split: sum.split)
  show "resolve_git f as dir (Some url) branch_hint = resolve_git f as dir None None"
    unfolding resolve_git_def push remote_op ..
  show "resolve_gh f as dir (Some url) branch_hint = resolve_gh f as dir None None"
  proof (cases "\<exists>op. classify_gh as = Inr op \<and> (\<forall>p. op \<noteq> GhApiRead p)")
    case True
    then obtain op where op: "classify_gh as = Inr op" "\<And>p. op \<noteq> GhApiRead p" by blast
    show ?thesis
      unfolding resolve_gh_other [OF op] gh_remote_def with_hint conjunct1 [OF h] conjunct2 [OF h, symmetric]
      by (cases "extract_repo_flag as"; cases "discover f dir"; cases "Option.bind (discover f dir) (head_branch f)")
        (auto split: sum.split)
  next
    case False
    then show ?thesis by (cases "classify_gh as") (auto simp: resolve_gh_def split: operation.split)
  qed
qed

theorem hints_agree_witness:
  "resolve_git worktree_fs [''push'', ''origin'', ''topic''] ''/w'' (Some ''git@github.com:acme/web.git'') (Some ''topic'') =
     resolve_git worktree_fs [''push'', ''origin'', ''topic''] ''/w'' None None"
proof (rule conjunct1 [OF hints_agree])
  show "repo_hints worktree_fs ''/w'' = (Some ''git@github.com:acme/web.git'', Some ''topic'')"
    by (rule worktree_fs_hints)
qed (simp add: positional_after_subcommand_def names_head_def)

end
