(* ===== verification/Audit_Log.thy ===== *)
theory Audit_Log
  imports Rust_Path
begin

section \<open>The audit log\<close>

text \<open>
  The model of \<open>src/src/audit.rs\<close>: the record of one decision, and the logger that appends it as
  one JSON line through a \<open>BufWriter\<close> under a mutex. The kernel may accept any number of the
  bytes of a write or refuse it; what it will answer is the \<open>disk_plan\<close>, and once the plan is used
  up it accepts everything. \<open>serde_json\<close> is a parameter \<open>audit_record \<Rightarrow> string + string\<close>.
\<close>

subsection \<open>Records\<close>

datatype audit_decision = AuditAllow | AuditDeny string | AuditPassthrough

record audit_record =
  ar_timestamp :: string
  ar_user :: string
  ar_tool :: string
  ar_args :: "string list"
  ar_org :: string
  ar_repo :: string
  ar_branch :: "string option"
  ar_operation :: string
  ar_decision :: audit_decision

type_synonym json_encoder = "audit_record \<Rightarrow> string + string"

text \<open>The clock is formatted by the \<open>time\<close> crate; a failure to format is the empty string.\<close>

definition now_timestamp :: "string option \<Rightarrow> string" where
  "now_timestamp formatted = unwrap_or [] formatted"

definition DEFAULT_AUDIT_PATH :: path where
  "DEFAULT_AUDIT_PATH = ''/var/log/ghbrk/audit.log''"

subsection \<open>The file under the logger\<close>

record disk =
  disk_bytes :: string
  disk_plan :: "(io_error + nat) list"

definition kernel_write :: "string \<Rightarrow> disk \<Rightarrow> (io_error + nat) \<times> disk" where
  "kernel_write s d =
     (case disk_plan d of
        [] \<Rightarrow> (Inr (length s), d\<lparr>disk_bytes := disk_bytes d @ s\<rparr>)
      | Inl e # plan \<Rightarrow> (Inl e, d\<lparr>disk_plan := plan\<rparr>)
      | Inr n # plan \<Rightarrow>
          (Inr (min n (length s)),
           d\<lparr>disk_bytes := disk_bytes d @ take n s, disk_plan := plan\<rparr>))"

definition write_zero :: io_error where
  "write_zero = \<lparr>io_kind = OtherKind, io_text = ''failed to write whole buffer''\<rparr>"

text \<open>
  \<open>write_all\<close> on the file: the bytes not yet written when it stops are returned with its result.
\<close>

function file_write_all :: "string \<Rightarrow> disk \<Rightarrow> (io_error + unit) \<times> string \<times> disk" where
  "file_write_all s d =
     (if s = [] then (Inr (), [], d)
      else (case kernel_write s d of
              (Inl e, d') \<Rightarrow> (Inl e, s, d')
            | (Inr n, d') \<Rightarrow> if n = 0 then (Inl write_zero, s, d') else file_write_all (drop n s) d'))"
  by pat_completeness auto
termination
  by (relation "measure (\<lambda>(s, d). length s)") auto

declare file_write_all.simps [simp del]

subsection \<open>The logger\<close>

definition BUF_CAPACITY :: nat where
  "BUF_CAPACITY = 8192"

record audit_logger =
  al_path :: path
  al_disk :: disk
  al_buf :: string
  al_poisoned :: bool

text \<open>Opening for append keeps what the file holds; a missing file is created empty.\<close>

definition new_logger :: "(path \<Rightarrow> io_error + disk) \<Rightarrow> path \<Rightarrow> io_error + audit_logger" where
  "new_logger open_append p =
     (case open_append p of
        Inl e \<Rightarrow> Inl e
      | Inr d \<Rightarrow> Inr \<lparr>al_path = p, al_disk = d, al_buf = [], al_poisoned = False\<rparr>)"

definition flush_buf :: "audit_logger \<Rightarrow> (io_error + unit) \<times> audit_logger" where
  "flush_buf l =
     (case file_write_all (al_buf l) (al_disk l) of
        (r, rest, d) \<Rightarrow> (r, l\<lparr>al_disk := d, al_buf := rest\<rparr>))"

definition buf_write_all :: "string \<Rightarrow> audit_logger \<Rightarrow> (io_error + unit) \<times> audit_logger" where
  "buf_write_all line l =
     (if length line < BUF_CAPACITY - length (al_buf l)
      then (Inr (), l\<lparr>al_buf := al_buf l @ line\<rparr>)
      else (case (if BUF_CAPACITY - length (al_buf l) < length line then flush_buf l else (Inr (), l)) of
              (Inl e, l') \<Rightarrow> (Inl e, l')
            | (Inr _, l') \<Rightarrow>
                if BUF_CAPACITY \<le> length line
                then (case file_write_all line (al_disk l') of (r, _, d) \<Rightarrow> (r, l'\<lparr>al_disk := d\<rparr>))
                else (Inr (), l'\<lparr>al_buf := al_buf l' @ line\<rparr>)))"

definition poisoned_error :: io_error where
  "poisoned_error = \<lparr>io_kind = OtherKind, io_text = ''audit logger mutex poisoned''\<rparr>"

definition audit_write :: "json_encoder \<Rightarrow> audit_record \<Rightarrow> audit_logger \<Rightarrow> (io_error + unit) \<times> audit_logger" where
  "audit_write json r l =
     (case json r of
        Inl e \<Rightarrow> (Inl \<lparr>io_kind = InvalidData, io_text = e\<rparr>, l)
      | Inr line \<Rightarrow>
          if al_poisoned l then (Inl poisoned_error, l)
          else (case buf_write_all (line @ [CHR 0x0A]) l of
                  (Inl e, l') \<Rightarrow> (Inl e, l')
                | (Inr _, l') \<Rightarrow> flush_buf l'))"

definition audit_flush :: "audit_logger \<Rightarrow> (io_error + unit) \<times> audit_logger" where
  "audit_flush l = (if al_poisoned l then (Inl poisoned_error, l) else flush_buf l)"

definition audit_drop :: "audit_logger \<Rightarrow> audit_logger" where
  "audit_drop l = (if al_poisoned l then l else snd (flush_buf l))"

subsection \<open>Append-only state\<close>

text \<open>
  What the rest of the program relies on: a step never changes what a log already holds, it only
  adds to it. The contract is used for the bytes of the audit file here, and for the frames sent
  to a client and the effects of the daemon in the broker.
\<close>

locale append_only =
  fixes view :: "'s \<Rightarrow> 'a list"
    and step :: "'c \<Rightarrow> 's \<Rightarrow> 's"
  assumes step_extends: "\<exists>added. view (step c s) = view s @ added"
begin

lemma run_extends: "\<exists>added. view (fold step cs s) = view s @ added"
proof (induction cs arbitrary: s)
  case Nil
  then show ?case by simp
next
  case (Cons c cs)
  from step_extends [of c s] obtain a where "view (step c s) = view s @ a" by blast
  moreover from Cons.IH [of "step c s"] obtain b
    where "view (fold step cs (step c s)) = view (step c s) @ b" by blast
  ultimately show ?case by simp
qed

lemma run_keeps: "x \<in> set (view s) \<Longrightarrow> x \<in> set (view (fold step cs s))"
  using run_extends [of cs s] by auto

end

lemma file_write_all_spec:
  "file_write_all s d = (r, rest, d') \<Longrightarrow>
     (\<exists>out. s = out @ rest \<and> disk_bytes d' = disk_bytes d @ out) \<and> (r = Inr () \<longrightarrow> rest = [])"
proof (induction s d arbitrary: r rest d' rule: file_write_all.induct)
  case (1 s d)
  show ?case
  proof (cases "s = []")
    case True
    with "1.prems" show ?thesis by (simp add: file_write_all.simps)
  next
    case False
    obtain kr d1 where k: "kernel_write s d = (kr, d1)" by fastforce
    show ?thesis
    proof (cases kr)
      case (Inl e)
      with k have "disk_bytes d1 = disk_bytes d"
        by (auto simp: kernel_write_def split: list.splits sum.splits)
      moreover from "1.prems" k Inl False have "r = Inl e" "rest = s" "d' = d1"
        by (simp_all add: file_write_all.simps [of s])
      ultimately show ?thesis by simp
    next
      case (Inr n)
      with k have d1: "disk_bytes d1 = disk_bytes d @ take n s"
        by (auto simp: kernel_write_def min_def split: list.splits sum.splits)
      show ?thesis
      proof (cases "n = 0")
        case True
        with "1.prems" k Inr False d1 show ?thesis
          by (auto simp: file_write_all.simps [of s])
      next
        case n: False
        with "1.prems" k Inr False have "file_write_all (drop n s) d1 = (r, rest, d')"
          by (simp add: file_write_all.simps [of s])
        from "1.IH" [OF False k [symmetric] Inr n this] obtain dn
          where "drop n s = dn @ rest" "disk_bytes d' = disk_bytes d1 @ dn" "r = Inr () \<longrightarrow> rest = []"
          by blast
        with d1 show ?thesis
          by (intro conjI exI [of _ "take n s @ dn"]) (simp_all, metis append_take_drop_id)
      qed
    qed
  qed
qed

lemma flush_buf_spec:
  assumes "flush_buf l = (r, l')"
  shows "\<exists>out. al_buf l = out @ al_buf l' \<and> disk_bytes (al_disk l') = disk_bytes (al_disk l) @ out"
    and "r = Inr () \<Longrightarrow> al_buf l' = []"
    and "al_path l' = al_path l \<and> al_poisoned l' = al_poisoned l"
proof -
  obtain r1 rest d where f: "file_write_all (al_buf l) (al_disk l) = (r1, rest, d)"
    by (metis prod_cases3)
  with assms have l': "r = r1" "l' = l\<lparr>al_disk := d, al_buf := rest\<rparr>" by (simp_all add: flush_buf_def)
  show "\<exists>out. al_buf l = out @ al_buf l' \<and> disk_bytes (al_disk l') = disk_bytes (al_disk l) @ out"
    and "r = Inr () \<Longrightarrow> al_buf l' = []"
    and "al_path l' = al_path l \<and> al_poisoned l' = al_poisoned l"
    using file_write_all_spec [OF f] by (auto simp: l')
qed

lemma flush_buf_extends: "\<exists>added. disk_bytes (al_disk (snd (flush_buf l))) = disk_bytes (al_disk l) @ added"
  using flush_buf_spec(1) [of l "fst (flush_buf l)" "snd (flush_buf l)"] by auto

text \<open>Everything accepted so far: what is in the file and what waits in the buffer.\<close>

definition accepted :: "audit_logger \<Rightarrow> string" where
  "accepted l = disk_bytes (al_disk l) @ al_buf l"

lemma flush_buf_accepted: "accepted (snd (flush_buf l)) = accepted l"
  using flush_buf_spec(1) [of l "fst (flush_buf l)" "snd (flush_buf l)"] by (auto simp: accepted_def)

lemma buf_write_all_spec:
  "(\<exists>added. disk_bytes (al_disk (snd (buf_write_all line l))) = disk_bytes (al_disk l) @ added) \<and>
   (fst (buf_write_all line l) = Inr () \<longrightarrow> accepted (snd (buf_write_all line l)) = accepted l @ line)"
proof (cases "length line < BUF_CAPACITY - length (al_buf l)")
  case True
  then show ?thesis by (simp add: buf_write_all_def accepted_def)
next
  case False
  define fl where "fl = (if BUF_CAPACITY - length (al_buf l) < length line then flush_buf l else (Inr (), l))"
  obtain r l1 where fl1: "fl = (r, l1)" by fastforce
  have acc: "accepted l1 = accepted l"
    using flush_buf_accepted [of l] fl1 by (auto simp: fl_def split: if_splits)
  have ext: "\<exists>added. disk_bytes (al_disk l1) = disk_bytes (al_disk l) @ added"
    using flush_buf_extends [of l] fl1 by (auto simp: fl_def split: if_splits)
  have step: "buf_write_all line l =
      (case fl of (Inl e, l') \<Rightarrow> (Inl e, l')
       | (Inr _, l') \<Rightarrow>
           if BUF_CAPACITY \<le> length line
           then (case file_write_all line (al_disk l') of (r, _, d) \<Rightarrow> (r, l'\<lparr>al_disk := d\<rparr>))
           else (Inr (), l'\<lparr>al_buf := al_buf l' @ line\<rparr>))"
    using False by (simp only: buf_write_all_def fl_def if_False)
  show ?thesis
  proof (cases r)
    case (Inl e)
    with step fl1 ext show ?thesis by simp
  next
    case (Inr u)
    have buf: "al_buf l1 = []" if "BUF_CAPACITY \<le> length line"
    proof (cases "BUF_CAPACITY - length (al_buf l) < length line")
      case True
      with fl1 Inr flush_buf_spec(2) [of l "Inr ()" l1] show ?thesis by (simp add: fl_def)
    next
      case small: False
      with that have "length (al_buf l) = 0" unfolding BUF_CAPACITY_def by linarith
      with small fl1 show ?thesis by (simp add: fl_def)
    qed
    obtain r2 rest d where f: "file_write_all line (al_disk l1) = (r2, rest, d)"
      by (metis prod_cases3)
    show ?thesis
      using file_write_all_spec [OF f] step fl1 Inr f acc ext buf
      by (auto simp: accepted_def)
  qed
qed

lemma audit_write_extends:
  "\<exists>added. disk_bytes (al_disk (snd (audit_write json r l))) = disk_bytes (al_disk l) @ added"
proof (cases "json r")
  case (Inl e)
  then show ?thesis by (simp add: audit_write_def)
next
  case (Inr line)
  obtain w l1 where w: "buf_write_all (line @ [CHR 0x0A]) l = (w, l1)" by fastforce
  with buf_write_all_spec [of "line @ [CHR 0x0A]" l]
  obtain a where "disk_bytes (al_disk l1) = disk_bytes (al_disk l) @ a" by auto
  moreover obtain b where "disk_bytes (al_disk (snd (flush_buf l1))) = disk_bytes (al_disk l1) @ b"
    using flush_buf_extends by blast
  ultimately show ?thesis using Inr w
    by (cases w) (simp_all add: audit_write_def)
qed

datatype audit_call = CWrite audit_record | CFlush | CDrop

fun audit_step :: "json_encoder \<Rightarrow> audit_call \<Rightarrow> audit_logger \<Rightarrow> audit_logger" where
  "audit_step json (CWrite r) l = snd (audit_write json r l)"
| "audit_step json CFlush l = snd (audit_flush l)"
| "audit_step json CDrop l = audit_drop l"

interpretation audit_file: append_only "\<lambda>l. disk_bytes (al_disk l)" "audit_step json"
  for json :: json_encoder
proof
  fix c l
  show "\<exists>added. disk_bytes (al_disk (audit_step json c l)) = disk_bytes (al_disk l) @ added"
    using audit_write_extends flush_buf_extends
    by (cases c) (auto simp: audit_flush_def audit_drop_def)
qed

lemma audit_write_ok_aux:
  assumes "audit_write json r l = (Inr (), l')"
  shows "\<exists>line. json r = Inr line \<and> al_buf l' = [] \<and>
    disk_bytes (al_disk l') = disk_bytes (al_disk l) @ al_buf l @ line @ [CHR 0x0A]"
proof -
  from assms obtain line where line: "json r = Inr line" "\<not> al_poisoned l"
    by (auto simp: audit_write_def split: sum.splits if_splits)
  obtain w l1 where w: "buf_write_all (line @ [CHR 0x0A]) l = (w, l1)" by fastforce
  with assms line have w': "w = Inr ()" and fl: "flush_buf l1 = (Inr (), l')"
    by (auto simp: audit_write_def split: sum.splits)
  have "accepted l' = accepted l @ line @ [CHR 0x0A]"
    using buf_write_all_spec [of "line @ [CHR 0x0A]" l] flush_buf_accepted [of l1] w w' fl by simp
  with flush_buf_spec(2) [OF fl] line show ?thesis by (auto simp: accepted_def)
qed

text \<open>A disk whose every coming write is accepted, at least in part.\<close>

definition accepting :: "disk \<Rightarrow> bool" where
  "accepting d = list_all (\<lambda>outcome. \<exists>n > 0. outcome = Inr n) (disk_plan d)"

lemma file_write_all_ok:
  assumes "accepting d"
  shows "\<exists>d'. file_write_all s d = (Inr (), [], d') \<and> accepting d'"
  using assms
proof (induction s d rule: file_write_all.induct)
  case (1 s d)
  show ?case
  proof (cases "s = []")
    case True
    with "1.prems" show ?thesis by (simp add: file_write_all.simps)
  next
    case False
    with "1.prems" obtain n d1 where k: "kernel_write s d = (Inr n, d1)" "n \<noteq> 0"
      "accepting d1"
      by (cases "disk_plan d") (auto simp: accepting_def kernel_write_def min_def)
    from "1.IH" [OF False k(1) [symmetric] refl k(2,3)] k False show ?thesis
      by (simp add: file_write_all.simps [of s])
  qed
qed

lemma flush_buf_ok:
  assumes "accepting (al_disk l)"
  shows "\<exists>l'. flush_buf l = (Inr (), l') \<and> accepting (al_disk l') \<and>
    al_poisoned l' = al_poisoned l"
  using file_write_all_ok [OF assms, of "al_buf l"] by (auto simp: flush_buf_def)

lemma buf_write_all_ok:
  assumes "accepting (al_disk l)"
  shows "\<exists>l'. buf_write_all s l = (Inr (), l') \<and> accepting (al_disk l') \<and>
    al_poisoned l' = al_poisoned l"
proof -
  define fl where "fl = (if BUF_CAPACITY - length (al_buf l) < length s then flush_buf l else (Inr (), l))"
  obtain l1 where l1: "fl = (Inr (), l1)" "al_poisoned l1 = al_poisoned l" "accepting (al_disk l1)"
    using flush_buf_ok [OF assms] assms
    by (cases "BUF_CAPACITY - length (al_buf l) < length s") (auto simp: fl_def)
  from file_write_all_ok [OF l1(3), of s] obtain d where d: "file_write_all s (al_disk l1) = (Inr (), [], d)"
    "accepting d" by blast
  have "buf_write_all s l =
      (if length s < BUF_CAPACITY - length (al_buf l) then (Inr (), l\<lparr>al_buf := al_buf l @ s\<rparr>)
       else if BUF_CAPACITY \<le> length s then (Inr (), l1\<lparr>al_disk := d\<rparr>)
       else (Inr (), l1\<lparr>al_buf := al_buf l1 @ s\<rparr>))"
    using d l1 by (simp add: buf_write_all_def fl_def [symmetric])
  with assms d(2) l1 show ?thesis by simp
qed

lemma audit_write_total:
  assumes "accepting (al_disk l)" "\<not> al_poisoned l" "json r = Inr line"
  shows "\<exists>l'. audit_write json r l = (Inr (), l') \<and>
    accepting (al_disk l') \<and> \<not> al_poisoned l'"
proof -
  from buf_write_all_ok [OF assms(1), of "line @ [CHR 0x0A]"] obtain l1
    where l1: "buf_write_all (line @ [CHR 0x0A]) l = (Inr (), l1)" "al_poisoned l1 = al_poisoned l"
      "accepting (al_disk l1)" by blast
  with flush_buf_ok [OF l1(3)] assms show ?thesis by (auto simp: audit_write_def)
qed

subsection \<open>Properties\<close>

text \<open>
  When a write of the audit log reports success, the whole line of the record is in the file:
  the file is what it was, what an earlier failed write had left in the buffer, then the line;
  nothing waits in the buffer.
\<close>

theorem audit_write_durable:
  assumes "audit_write json r l = (Inr (), l')"
  shows "al_buf l' = [] \<and>
    Inr (disk_bytes (al_disk l')) =
      (case json r of
         Inl e \<Rightarrow> Inl e
       | Inr line \<Rightarrow> Inr (disk_bytes (al_disk l) @ al_buf l @ line @ [CHR 0x0A]))"
  using audit_write_ok_aux [OF assms] by auto

definition example_json :: json_encoder where
  "example_json r = Inr (ar_user r)"

definition example_record :: "string \<Rightarrow> audit_record" where
  "example_record u =
     \<lparr>ar_timestamp = [], ar_user = u, ar_tool = ''git'', ar_args = [], ar_org = ''acme'', ar_repo = ''web'',
      ar_branch = None, ar_operation = ''push'', ar_decision = AuditAllow\<rparr>"

definition example_logger :: audit_logger where
  "example_logger =
     \<lparr>al_path = DEFAULT_AUDIT_PATH, al_disk = \<lparr>disk_bytes = [], disk_plan = [Inr 2, Inr 1]\<rparr>,
      al_buf = [], al_poisoned = False\<rparr>"

theorem audit_write_durable_witness:
  "disk_bytes (al_disk (snd (audit_write example_json (example_record ''alice'') example_logger))) =
     ''alice'' @ [CHR 0x0A]"
proof -
  have "fst (audit_write example_json (example_record ''alice'') example_logger) = Inr ()" by code_simp
  then have "audit_write example_json (example_record ''alice'') example_logger =
      (Inr (), snd (audit_write example_json (example_record ''alice'') example_logger))"
    by (metis prod.collapse)
  from audit_write_durable [OF this] show ?thesis
    by (simp add: example_json_def example_record_def example_logger_def)
qed

text \<open>
  The audit file is append-only: whatever is logged, flushed or dropped, in any order, and
  whatever the kernel answers to the writes, the bytes already in the file stay where they are.
\<close>

theorem audit_log_append_only:
  "\<exists>added. disk_bytes (al_disk (fold (audit_step json) calls l)) = disk_bytes (al_disk l) @ added"
  by (rule audit_file.run_extends)

text \<open>
  C36. One line per record, in the order of the decisions: when the kernel accepts every write, in
  pieces of any size, the lines of a log that started empty are the JSON texts of the records.
  The encoder is only asked to leave line breaks out of its text, as \<open>serde_json\<close> does.
\<close>

theorem audit_lines_roundtrip:
  assumes "list_all (\<lambda>r. json r = Inr (enc r) \<and> CHR 0x0A \<notin> set (enc r) \<and> CHR 0x0D \<notin> set (enc r)) rs"
    and "accepting (al_disk l)"
    and "\<not> al_poisoned l" and "al_buf l = []" and "disk_bytes (al_disk l) = []"
  shows "lines (disk_bytes (al_disk (fold (audit_step json) (map CWrite rs) l))) = map enc rs"
proof -
  have "disk_bytes (al_disk (fold (audit_step json) (map CWrite rs) l)) =
      disk_bytes (al_disk l) @ concat (map (\<lambda>t. t @ [CHR 0x0A]) (map enc rs))"
    using assms(1-4)
  proof (induction rs arbitrary: l)
    case Nil
    then show ?case by simp
  next
    case (Cons r rs)
    from Cons.prems(1) have json: "json r = Inr (enc r)" by simp
    from audit_write_total [OF Cons.prems(2,3), of json r, OF json] obtain l1 where l1:
      "audit_write json r l = (Inr (), l1)" "\<not> al_poisoned l1"
      "accepting (al_disk l1)" by blast
    from audit_write_ok_aux [OF l1(1)] json Cons.prems(4) have
      "al_buf l1 = []" "disk_bytes (al_disk l1) = disk_bytes (al_disk l) @ enc r @ [CHR 0x0A]" by auto
    with Cons.IH [OF _ l1(3,2)] Cons.prems(1) l1(1) show ?case by simp
  qed
  moreover have "lines (concat (map (\<lambda>t. t @ [CHR 0x0A]) (map enc rs))) = map enc rs"
    using assms(1) by (intro lines_concat) (auto simp: list_all_iff)
  ultimately show ?thesis using assms(5) by simp
qed

theorem audit_lines_roundtrip_witness:
  "lines (disk_bytes (al_disk (fold (audit_step example_json)
     (map CWrite [example_record ''alice'', example_record ''bob'']) example_logger))) = [''alice'', ''bob'']"
  using audit_lines_roundtrip [where json = example_json and enc = ar_user and l = example_logger
      and rs = "[example_record ''alice'', example_record ''bob'']"]
  by (simp add: example_json_def example_record_def example_logger_def accepting_def)

end
