(* ===== verification/Protocol.thy ===== *)
theory Protocol
  imports Rust_Str
begin

section \<open>The wire protocol\<close>

text \<open>
  The model of \<open>src/src/protocol.rs\<close>: the messages that cross the Unix socket and their framing,
  a four-byte big-endian length followed by a JSON body of at most 16 MiB. A \<open>Vec<u8>\<close> is a
  \<open>string\<close> (a HOL character is a byte). \<open>serde_json\<close> is a pair of parameters, \<open>ser\<close> and \<open>de\<close>.
  The reader is abstract: \<open>read_frame\<close> takes the operations \<open>read\<close> and \<open>read_exact\<close> of the
  asynchronous reader as arguments, and the locale \<open>byte_source\<close> states what they promise; a
  socket, a list of chunks cut anywhere and ending at end of file or at an error, is the
  interpretation the other components use.
\<close>

subsection \<open>Messages\<close>

definition MAX_FRAME_LEN :: u32 where
  "MAX_FRAME_LEN = 16 * 1024 * 1024"

datatype tool = Git | Gh | Check | Explain | PolicyTool | AllowTool

record tmp_identity =
  tmp_dev :: u64
  tmp_ino :: u64

record request =
  tool :: tool
  args :: "string list"
  cwd :: path
  remote_url :: "string option"
  head_branch_hint :: "string option"
  client_frames :: bool
  caller_tmp :: "tmp_identity option"

datatype client_frame = StdinChunk string | StdinEof

record path_audit =
  pa_label :: string
  pa_path :: path
  pa_present :: bool
  pa_observed_owner_uid :: u32
  pa_observed_mode :: u32

record credential_audit =
  audit_entries :: "path_audit list"

datatype server_frame =
    StdoutChunk string
  | StderrChunk string
  | Exit i32
  | Denied string
  | CredentialAuditFrame credential_audit

datatype protocol_error =
    ProtocolIo io_error
  | FrameTooLarge u32
  | Truncated u32 u32
  | InvalidJson string
  | EncodeTooLarge nat

definition protocol_error_text :: "protocol_error \<Rightarrow> string" where
  "protocol_error_text e =
     (case e of
        ProtocolIo err \<Rightarrow> ''io error: '' @ io_text err
      | FrameTooLarge n \<Rightarrow>
          ''frame body length '' @ show_nat (unat n) @ '' exceeds '' @
          show_nat (unat MAX_FRAME_LEN) @ '' byte ceiling''
      | Truncated expected actual \<Rightarrow>
          ''frame body truncated: expected '' @ show_nat (unat expected) @ '' bytes, got '' @
          show_nat (unat actual)
      | InvalidJson err \<Rightarrow> ''invalid JSON in frame body: '' @ err
      | EncodeTooLarge n \<Rightarrow> ''frame body too large to encode: '' @ show_nat n @ '' bytes'')"

subsection \<open>Writing frames\<close>

definition to_be_bytes :: "u32 \<Rightarrow> string" where
  "to_be_bytes n =
     [char_of (unat n div 2 ^ 24), char_of (unat n div 2 ^ 16),
      char_of (unat n div 2 ^ 8), char_of (unat n)]"

fun from_be_bytes :: "string \<Rightarrow> u32" where
  "from_be_bytes [a, b, c, d] =
     of_nat (of_char a * 2 ^ 24 + of_char b * 2 ^ 16 + of_char c * 2 ^ 8 + of_char d)"
| "from_be_bytes _ = 0"

text \<open>
  A writer: the bytes that went out and the outcomes of the coming \<open>write_all\<close> calls. A failing
  call may still emit a part of its bytes; after the listed outcomes every call succeeds.
\<close>

datatype write_event = WriteOk | WriteFail nat io_error

record writer =
  wr_out :: string
  wr_events :: "write_event list"

definition write_all :: "writer \<Rightarrow> string \<Rightarrow> (io_error + unit) \<times> writer" where
  "write_all w bs =
     (case wr_events w of
        [] \<Rightarrow> (Inr (), w\<lparr>wr_out := wr_out w @ bs\<rparr>)
      | WriteOk # es \<Rightarrow> (Inr (), w\<lparr>wr_out := wr_out w @ bs, wr_events := es\<rparr>)
      | WriteFail n e # es \<Rightarrow> (Inl e, w\<lparr>wr_out := wr_out w @ take n bs, wr_events := es\<rparr>))"

definition write_frame ::
    "('a \<Rightarrow> string + string) \<Rightarrow> writer \<Rightarrow> 'a \<Rightarrow> (protocol_error + unit) \<times> writer" where
  "write_frame ser w v =
     (case ser v of
        Inl e \<Rightarrow> (Inl (InvalidJson e), w)
      | Inr body \<Rightarrow>
          if length body > unat MAX_FRAME_LEN then (Inl (EncodeTooLarge (length body)), w)
          else (case write_all w (to_be_bytes (of_nat (length body))) of
                  (Inl e, w') \<Rightarrow> (Inl (ProtocolIo e), w')
                | (Inr _, w') \<Rightarrow>
                    (case write_all w' body of
                       (Inl e, w'') \<Rightarrow> (Inl (ProtocolIo e), w'')
                     | (Inr _, w'') \<Rightarrow> (Inr (), w''))))"

subsection \<open>Reading frames\<close>

type_synonym 's read_op = "nat \<Rightarrow> 's \<Rightarrow> (io_error + string) \<times> 's"

text \<open>The loop that fills the body buffer: one \<open>read\<close> into the unfilled rest per iteration.\<close>

function fill_body ::
    "'s read_op \<Rightarrow> u32 \<Rightarrow> string \<Rightarrow> 's \<Rightarrow> (protocol_error + string) \<times> 's" where
  "fill_body read len filled s =
     (if length filled < unat len
      then (case read (unat len - length filled) s of
              (Inl e, s') \<Rightarrow> (Inl (ProtocolIo e), s')
            | (Inr bs, s') \<Rightarrow>
                if bs = [] then (Inl (Truncated len (of_nat (length filled))), s')
                else fill_body read len (filled @ bs) s')
      else (Inr filled, s))"
  by pat_completeness auto
termination
  by (relation "measure (\<lambda>(read, len, filled, s). unat len - length filled)")
    (auto simp: diff_less_mono2 dest: length_greater_0_conv [THEN iffD2])

declare fill_body.simps [simp del]

definition read_frame ::
    "'s read_op \<Rightarrow> 's read_op \<Rightarrow> (string \<Rightarrow> string + 'a) \<Rightarrow> 's \<Rightarrow> (protocol_error + 'a) \<times> 's" where
  "read_frame read read_exact de s =
     (case read_exact 4 s of
        (Inl e, s') \<Rightarrow> (Inl (ProtocolIo e), s')
      | (Inr len_buf, s') \<Rightarrow>
          let len = from_be_bytes len_buf in
            if len > MAX_FRAME_LEN then (Inl (FrameTooLarge len), s')
            else (case fill_body read len [] s' of
                    (Inl e, s'') \<Rightarrow> (Inl e, s'')
                  | (Inr body, s'') \<Rightarrow> (map_err InvalidJson (de body), s'')))"

subsection \<open>What a byte source promises\<close>

text \<open>
  \<open>content s\<close> is what can still be read from \<open>s\<close> and \<open>ok s\<close> says that it ends with end of file
  rather than an error. A read returns a prefix of the content, empty only at end of file;
  \<open>read_exact\<close> returns exactly the bytes asked for or fails with \<open>UnexpectedEof\<close>.
\<close>

locale byte_source =
  fixes read :: "'s read_op"
    and read_exact :: "'s read_op"
    and content :: "'s \<Rightarrow> string"
    and ok :: "'s \<Rightarrow> bool"
  assumes read_prefix:
      "ok s \<Longrightarrow> 0 < n \<Longrightarrow> \<exists>bs s'. read n s = (Inr bs, s') \<and> ok s' \<and> content s = bs @ content s' \<and>
         length bs \<le> n \<and> (bs = [] \<longleftrightarrow> content s = [])"
    and read_exact_full:
      "ok s \<Longrightarrow> n \<le> length (content s) \<Longrightarrow>
       \<exists>s'. read_exact n s = (Inr (take n (content s)), s') \<and> ok s' \<and>
         content s' = drop n (content s)"
    and read_exact_short:
      "ok s \<Longrightarrow> length (content s) < n \<Longrightarrow>
       \<exists>e s'. read_exact n s = (Inl e, s') \<and> io_kind e = UnexpectedEof"
begin

lemma fill_body_spec:
  "ok s \<Longrightarrow> length filled \<le> unat len \<Longrightarrow>
   \<exists>s'. ok s' \<and>
     (if unat len - length filled \<le> length (content s)
      then fill_body read len filled s =
             (Inr (filled @ take (unat len - length filled) (content s)), s') \<and>
           content s' = drop (unat len - length filled) (content s)
      else fill_body read len filled s =
             (Inl (Truncated len (of_nat (length filled + length (content s)))), s') \<and>
           content s' = [])"
proof (induction "unat len - length filled" arbitrary: filled s rule: less_induct)
  case less
  let ?n = "unat len - length filled"
  show ?case
  proof (cases "length filled < unat len")
    case False
    with less.prems show ?thesis by (intro exI [of _ s]) (simp add: fill_body.simps)
  next
    case True
    then have "0 < ?n" by simp
    from read_prefix [OF less.prems(1) this] obtain bs s' where
      rd: "read ?n s = (Inr bs, s')" "ok s'" "content s = bs @ content s'" "length bs \<le> ?n"
        "bs = [] \<longleftrightarrow> content s = []" by blast
    show ?thesis
    proof (cases "bs = []")
      case nil: True
      with rd True have c: "content s = []" "content s' = []" by simp_all
      have "fill_body read len filled s = (Inl (Truncated len (of_nat (length filled))), s')"
        using True rd(1) nil by (simp add: fill_body.simps [of read len filled s])
      with True c rd(2) show ?thesis by (intro exI [of _ s']) simp
    next
      case False
      have step: "fill_body read len filled s = fill_body read len (filled @ bs) s'"
        using True rd(1) False by (simp add: fill_body.simps [of read len filled s])
      have dec: "unat len - length (filled @ bs) < ?n" "length (filled @ bs) \<le> unat len"
        using True rd(4) False by (auto simp: diff_less_mono2)
      from less.hyps [OF dec(1) rd(2) dec(2)] rd(3,4) show ?thesis
        by (auto simp: step add.assoc split: if_splits)
    qed
  qed
qed

lemma read_frame_spec:
  assumes "ok s" and "content s = hdr @ rest" and "length hdr = 4"
    and "from_be_bytes hdr \<le> MAX_FRAME_LEN"
    and "unat (from_be_bytes hdr) \<le> length rest"
  shows "\<exists>s'. read_frame read read_exact de s =
      (map_err InvalidJson (de (take (unat (from_be_bytes hdr)) rest)), s') \<and>
      ok s' \<and> content s' = drop (unat (from_be_bytes hdr)) rest"
proof -
  from read_exact_full [OF assms(1), of 4] assms(2,3) obtain s1 where
    s1: "read_exact 4 s = (Inr hdr, s1)" "ok s1" "content s1 = rest" by auto
  from fill_body_spec [OF s1(2), of "[]" "from_be_bytes hdr"] s1(3) assms(5) obtain s2 where
    "fill_body read (from_be_bytes hdr) [] s1 =
       (Inr (take (unat (from_be_bytes hdr)) rest), s2)" "ok s2"
    "content s2 = drop (unat (from_be_bytes hdr)) rest" by auto
  with s1(1) assms(4) show ?thesis by (auto simp: read_frame_def Let_def not_less)
qed

lemma read_frame_truncated:
  assumes "ok s" and "content s = hdr @ rest" and "length hdr = 4"
    and "from_be_bytes hdr \<le> MAX_FRAME_LEN"
    and "length rest < unat (from_be_bytes hdr)"
  shows "fst (read_frame read read_exact de s) =
      Inl (Truncated (from_be_bytes hdr) (of_nat (length rest)))"
proof -
  from read_exact_full [OF assms(1), of 4] assms(2,3) obtain s1 where
    s1: "read_exact 4 s = (Inr hdr, s1)" "ok s1" "content s1 = rest" by auto
  from fill_body_spec [OF s1(2), of "[]" "from_be_bytes hdr"] s1(3) assms(5) obtain s2 where
    "fill_body read (from_be_bytes hdr) [] s1 =
       (Inl (Truncated (from_be_bytes hdr) (of_nat (length rest))), s2)" by auto
  with s1(1) assms(4) show ?thesis by (auto simp: read_frame_def Let_def not_less)
qed

lemma read_frame_too_large:
  assumes "ok s" and "content s = hdr @ rest" and "length hdr = 4"
    and "MAX_FRAME_LEN < from_be_bytes hdr"
  shows "\<exists>s'. read_frame read read_exact de s = (Inl (FrameTooLarge (from_be_bytes hdr)), s') \<and>
      ok s' \<and> content s' = rest"
proof -
  from read_exact_full [OF assms(1), of 4] assms(2,3) obtain s1 where
    "read_exact 4 s = (Inr hdr, s1)" "ok s1" "content s1 = rest" by auto
  with assms(4) show ?thesis by (auto simp: read_frame_def Let_def)
qed

lemma read_frame_no_header:
  assumes "ok s" and "length (content s) < 4"
  shows "\<exists>e. fst (read_frame read read_exact de s) = Inl (ProtocolIo e) \<and> io_kind e = UnexpectedEof"
  using read_exact_short [OF assms(1), of 4] assms(2) by (auto simp: read_frame_def)

end

subsection \<open>Sockets\<close>

text \<open>
  A socket delivers the peer's bytes in chunks cut at arbitrary places and then ends, either at
  end of file or with an error.
\<close>

datatype sock_event = Chunk string | SockFail io_error

type_synonym sock = "sock_event list"

fun sock_read :: "sock read_op" where
  "sock_read n [] = (Inr [], [])"
| "sock_read n (SockFail e # evs) = (Inl e, evs)"
| "sock_read n (Chunk bs # evs) =
     (if bs = [] then sock_read n evs
      else if length bs \<le> n then (Inr bs, evs)
      else (Inr (take n bs), Chunk (drop n bs) # evs))"

definition early_eof :: io_error where
  "early_eof = \<lparr>io_kind = UnexpectedEof, io_text = ''early eof''\<rparr>"

fun sock_read_exact :: "sock read_op" where
  "sock_read_exact 0 evs = (Inr [], evs)"
| "sock_read_exact n [] = (Inl early_eof, [])"
| "sock_read_exact n (SockFail e # evs) = (Inl e, evs)"
| "sock_read_exact n (Chunk bs # evs) =
     (if length bs \<le> n
      then (case sock_read_exact (n - length bs) evs of
              (Inl e, evs') \<Rightarrow> (Inl e, evs')
            | (Inr cs, evs') \<Rightarrow> (Inr (bs @ cs), evs'))
      else (Inr (take n bs), Chunk (drop n bs) # evs))"

fun sock_content :: "sock \<Rightarrow> string" where
  "sock_content [] = []"
| "sock_content (Chunk bs # evs) = bs @ sock_content evs"
| "sock_content (SockFail e # evs) = []"

definition sock_ok :: "sock \<Rightarrow> bool" where
  "sock_ok evs = list_all (\<lambda>ev. case ev of Chunk _ \<Rightarrow> True | SockFail _ \<Rightarrow> False) evs"

lemma sock_ok_simps [simp]:
  "sock_ok []" "sock_ok (Chunk bs # evs) = sock_ok evs" "sock_ok (SockFail e # evs) = False"
  by (simp_all add: sock_ok_def)

lemma sock_read_prefix:
  "sock_ok s \<Longrightarrow> 0 < n \<Longrightarrow> \<exists>bs s'. sock_read n s = (Inr bs, s') \<and> sock_ok s' \<and>
     sock_content s = bs @ sock_content s' \<and> length bs \<le> n \<and> (bs = [] \<longleftrightarrow> sock_content s = [])"
  by (induction n s rule: sock_read.induct) auto

lemma sock_read_exact_full:
  "sock_ok s \<Longrightarrow> n \<le> length (sock_content s) \<Longrightarrow>
   \<exists>s'. sock_read_exact n s = (Inr (take n (sock_content s)), s') \<and> sock_ok s' \<and>
     sock_content s' = drop n (sock_content s)"
proof (induction n s rule: sock_read_exact.induct)
  case (4 v bs evs)
  show ?case
  proof (cases "length bs \<le> Suc v")
    case True
    with "4.prems" have "Suc v - length bs \<le> length (sock_content evs)" by (simp add: le_diff_conv)
    with "4.IH" [OF True] "4.prems" True show ?thesis by auto
  next
    case False
    with "4.prems" show ?thesis by simp
  qed
qed auto

lemma sock_read_exact_short:
  "sock_ok s \<Longrightarrow> length (sock_content s) < n \<Longrightarrow>
   \<exists>e s'. sock_read_exact n s = (Inl e, s') \<and> io_kind e = UnexpectedEof"
proof (induction n s rule: sock_read_exact.induct)
  case (4 v bs evs)
  then have le: "length bs \<le> Suc v" and "length (sock_content evs) < Suc v - length bs" by auto
  with "4.IH" [OF le] "4.prems" show ?case by auto
qed (auto simp: early_eof_def)

interpretation sock: byte_source sock_read sock_read_exact sock_content sock_ok
  by unfold_locales (fact sock_read_prefix sock_read_exact_full sock_read_exact_short)+

abbreviation sock_read_frame :: "(string \<Rightarrow> string + 'a) \<Rightarrow> sock \<Rightarrow> (protocol_error + 'a) \<times> sock" where
  "sock_read_frame \<equiv> read_frame sock_read sock_read_exact"

subsection \<open>Length prefixes\<close>

lemma of_char_char_of_nat: "of_char (char_of (n :: nat)) = n mod 256"
  by (simp add: of_char_mod_256)

lemma char_of_small [simp]:
  "char_of (0 :: nat) = CHR 0x00" "char_of (Suc 0) = CHR 0x01" "char_of (2 :: nat) = CHR 0x02"
  by code_simp+

lemma from_to_be_bytes [simp]: "from_be_bytes (to_be_bytes n) = n"
proof -
  let ?k = "unat n"
  define k1 k2 k3 where "k1 = ?k div 256" and "k2 = k1 div 256" and "k3 = k2 div 256"
  have "?k < 2 ^ 32" by (rule order_less_le_trans [OF unsigned_less]) simp
  then have "?k < 256 * (256 * (256 * 256))" by simp
  then have k3: "k3 < 256" unfolding k1_def k2_def k3_def
    by (intro less_mult_imp_div_less) (simp add: mult.commute mult.left_commute)
  have d: "?k div 2 ^ 24 = k3" "?k div 2 ^ 16 = k2" "?k div 2 ^ 8 = k1"
    by (simp_all add: k1_def k2_def k3_def div_mult2_eq [symmetric])
  have m: "?k = 256 * k1 + ?k mod 256" "k1 = 256 * k2 + k1 mod 256" "k2 = 256 * k3 + k2 mod 256"
    by (simp_all add: k1_def k2_def k3_def)
  have "k3 mod 256 * 2 ^ 24 + k2 mod 256 * 2 ^ 16 + k1 mod 256 * 2 ^ 8 + ?k mod 256 = ?k"
    using m k3 by simp
  then have "from_be_bytes (to_be_bytes n) = of_nat ?k"
    unfolding to_be_bytes_def d from_be_bytes.simps of_char_char_of_nat by simp
  then show ?thesis by simp
qed

lemma length_to_be_bytes [simp]: "length (to_be_bytes n) = 4"
  by (simp add: to_be_bytes_def)

lemma unat_MAX_FRAME_LEN: "unat MAX_FRAME_LEN = 16777216"
  by (simp add: MAX_FRAME_LEN_def)

lemma unat_frame_len: "n \<le> unat MAX_FRAME_LEN \<Longrightarrow> unat (of_nat n :: u32) = n"
  by (simp add: unat_MAX_FRAME_LEN unat_of_nat)

lemma frame_len_le: "n \<le> unat MAX_FRAME_LEN \<Longrightarrow> (of_nat n :: u32) \<le> MAX_FRAME_LEN"
  by (simp add: word_le_nat_alt unat_frame_len)

text \<open>The bytes of one frame and of a sequence of frames.\<close>

definition frame_bytes :: "string \<Rightarrow> string" where
  "frame_bytes body = to_be_bytes (of_nat (length body)) @ body"

fun write_frames ::
    "('a \<Rightarrow> string + string) \<Rightarrow> writer \<Rightarrow> 'a list \<Rightarrow> (protocol_error + unit) \<times> writer" where
  "write_frames ser w [] = (Inr (), w)"
| "write_frames ser w (v # vs) =
     (case write_frame ser w v of
        (Inl e, w') \<Rightarrow> (Inl e, w')
      | (Inr _, w') \<Rightarrow> write_frames ser w' vs)"

fun read_frames :: "(string \<Rightarrow> string + 'a) \<Rightarrow> nat \<Rightarrow> sock \<Rightarrow> (protocol_error + 'a list) \<times> sock" where
  "read_frames de 0 s = (Inr [], s)"
| "read_frames de (Suc n) s =
     (case sock_read_frame de s of
        (Inl e, s') \<Rightarrow> (Inl e, s')
      | (Inr v, s') \<Rightarrow>
          (case read_frames de n s' of
             (Inl e, s'') \<Rightarrow> (Inl e, s'')
           | (Inr vs, s'') \<Rightarrow> (Inr (v # vs), s'')))"

lemma write_all_ok: "write_all w bs = (Inr u, w') \<Longrightarrow> wr_out w' = wr_out w @ bs"
  by (auto simp: write_all_def split: list.splits write_event.splits)

lemma write_frame_ok:
  "write_frame ser w v = (Inr u, w') \<Longrightarrow>
   \<exists>body. ser v = Inr body \<and> length body \<le> unat MAX_FRAME_LEN \<and>
     wr_out w' = wr_out w @ frame_bytes body"
  by (auto simp: write_frame_def frame_bytes_def dest!: write_all_ok
      split: sum.splits if_splits prod.splits)

lemma read_frame_written:
  assumes "sock_ok s" "sock_content s = frame_bytes body @ rest" "length body \<le> unat MAX_FRAME_LEN"
  shows "\<exists>s'. sock_read_frame de s = (map_err InvalidJson (de body), s') \<and> sock_ok s' \<and>
    sock_content s' = rest"
proof -
  let ?hdr = "to_be_bytes (of_nat (length body))"
  have "unat (from_be_bytes ?hdr) = length body" "from_be_bytes ?hdr \<le> MAX_FRAME_LEN"
    using assms(3) by (simp_all add: unat_frame_len frame_len_le)
  with sock.read_frame_spec [of s ?hdr "body @ rest" de] assms(1,2) show ?thesis
    by (simp add: frame_bytes_def)
qed

lemma write_frames_extends:
  "write_frames ser w vs = (Inr u, w') \<Longrightarrow> \<exists>tail. wr_out w' = wr_out w @ tail"
proof (induction vs arbitrary: w)
  case Nil
  then show ?case by simp
next
  case (Cons v vs)
  then obtain w1 u1 where w1: "write_frame ser w v = (Inr u1, w1)"
    "write_frames ser w1 vs = (Inr u, w')" by (auto split: prod.splits sum.splits)
  from write_frame_ok [OF w1(1)] Cons.IH [OF w1(2)] show ?case by auto
qed

lemma read_frames_written:
  assumes "write_frames ser w vs = (Inr u, w')"
    and "\<And>v body. v \<in> set vs \<Longrightarrow> ser v = Inr body \<Longrightarrow> de body = Inr v"
    and "sock_ok s" and "wr_out w @ sock_content s = wr_out w' @ rest"
  shows "\<exists>s'. read_frames de (length vs) s = (Inr vs, s') \<and> sock_ok s' \<and> sock_content s' = rest"
  using assms
proof (induction vs arbitrary: w s)
  case Nil
  then show ?case by simp
next
  case (Cons v vs)
  from Cons.prems(1) obtain w1 u1 where w1: "write_frame ser w v = (Inr u1, w1)"
    "write_frames ser w1 vs = (Inr u, w')" by (auto split: prod.splits sum.splits)
  from write_frame_ok [OF w1(1)] obtain body where
    b: "ser v = Inr body" "length body \<le> unat MAX_FRAME_LEN" "wr_out w1 = wr_out w @ frame_bytes body"
    by blast
  obtain tail where t: "wr_out w' = wr_out w1 @ tail"
    using write_frames_extends [OF w1(2)] by blast
  from Cons.prems(4) b(3) t have c: "sock_content s = frame_bytes body @ (tail @ rest)" by simp
  have "de body = Inr v" using Cons.prems(2) [of v] b(1) by simp
  with read_frame_written [OF Cons.prems(3) c b(2), of de] obtain s1 where
    s1: "sock_read_frame de s = (Inr v, s1)" "sock_ok s1" "sock_content s1 = tail @ rest" by auto
  have "wr_out w1 @ sock_content s1 = wr_out w' @ rest" using s1(3) t by simp
  from Cons.IH [OF w1(2) _ s1(2) this] Cons.prems(2) s1(1) show ?case by auto
qed

lemma sock_read_exact_eof:
  "sock_ok s \<Longrightarrow> length (sock_content s) < n \<Longrightarrow> fst (sock_read_exact n s) = Inl early_eof"
proof (induction n s rule: sock_read_exact.induct)
  case (4 v bs evs)
  then have le: "length bs \<le> Suc v" and "length (sock_content evs) < Suc v - length bs" by auto
  with "4.IH" [OF le] "4.prems" show ?case by (auto split: prod.splits sum.splits)
qed auto

lemma write_all_length: "write_all w bs = (r, w') \<Longrightarrow> length (wr_out w') \<le> length (wr_out w) + length bs"
  by (auto simp: write_all_def split: list.splits write_event.splits)

subsection \<open>Properties\<close>

text \<open>
  C28. Frames survive the wire: if a sequence of messages was written without an error, a reader
  that receives those bytes, cut into chunks anywhere and followed by anything, reads exactly the
  same messages back in order and is left with what followed. It assumes only that the JSON
  library decodes what it encoded.
\<close>

theorem frames_roundtrip:
  assumes "write_frames ser \<lparr>wr_out = [], wr_events = evs\<rparr> vs = (Inr u, w')"
    and "\<And>v body. v \<in> set vs \<Longrightarrow> ser v = Inr body \<Longrightarrow> de body = Inr v"
    and "sock_ok s" and "sock_content s = wr_out w' @ rest"
  shows "\<exists>s'. read_frames de (length vs) s = (Inr vs, s') \<and> sock_ok s' \<and> sock_content s' = rest"
  using read_frames_written [OF assms(1-3)] assms(4) by simp

theorem frames_roundtrip_witness:
  "\<exists>s'. read_frames (\<lambda>b. Inr b) (length [''ab'', ''c''])
        [Chunk [CHR 0x00, CHR 0x00], Chunk [CHR 0x00, CHR 0x02, CHR ''a''],
         Chunk [CHR ''b'', CHR 0x00, CHR 0x00, CHR 0x00, CHR 0x01, CHR ''c'', CHR ''x'']] =
      (Inr [''ab'', ''c''], s') \<and> sock_ok s' \<and> sock_content s' = ''x''"
proof (rule frames_roundtrip)
  show "write_frames (\<lambda>b. Inr b) \<lparr>wr_out = [], wr_events = [WriteOk]\<rparr> [''ab'', ''c''] =
      (Inr (), \<lparr>wr_out = [CHR 0x00, CHR 0x00, CHR 0x00, CHR 0x02, CHR ''a'', CHR ''b'',
         CHR 0x00, CHR 0x00, CHR 0x00, CHR 0x01, CHR ''c''], wr_events = []\<rparr>)"
    by (simp add: write_frame_def write_all_def to_be_bytes_def unat_MAX_FRAME_LEN)
qed auto

text \<open>
  What reading a frame does on every input that ends in end of file: fewer than four bytes
  give \<open>UnexpectedEof\<close>; a declared length above 16 MiB gives \<open>FrameTooLarge\<close>, with no byte of the
  body read; a body cut short gives \<open>Truncated\<close> with the two lengths; and otherwise exactly the
  declared number of bytes goes to the JSON decoder.
\<close>

theorem read_frame_cases:
  assumes "sock_ok s" and "sock_content s = c" and "len = from_be_bytes (take 4 c)"
  shows "fst (sock_read_frame de s) =
     (if length c < 4 then Inl (ProtocolIo early_eof)
      else if MAX_FRAME_LEN < len then Inl (FrameTooLarge len)
      else if length c - 4 < unat len then Inl (Truncated len (of_nat (length c - 4)))
      else map_err InvalidJson (de (take (unat len) (drop 4 c)))) \<and>
     (4 \<le> length c \<and> MAX_FRAME_LEN < len \<longrightarrow> sock_content (snd (sock_read_frame de s)) = drop 4 c)"
proof (cases "length c < 4")
  case True
  with sock_read_exact_eof [of s 4] assms(1,2) show ?thesis
    by (cases "sock_read_exact 4 s") (auto simp: read_frame_def)
next
  case False
  then have c: "sock_content s = take 4 c @ drop 4 c" "length (take 4 c) = 4"
    using assms(2) by simp_all
  show ?thesis
    using sock.read_frame_too_large [OF assms(1) c, of de]
      sock.read_frame_truncated [OF assms(1) c, of de]
      sock.read_frame_spec [OF assms(1) c, of de] assms(3) False
    by (cases "MAX_FRAME_LEN < len"; cases "length c - 4 < unat len") (auto simp: not_less)
qed

theorem read_frame_cases_witness:
  "fst (sock_read_frame (\<lambda>b. Inr b) [Chunk [CHR 0x00, CHR 0x00, CHR 0x00, CHR 0x64, CHR ''a'']]) =
     Inl (Truncated 100 1)"
  using read_frame_cases
    [of "[Chunk [CHR 0x00, CHR 0x00, CHR 0x00, CHR 0x64, CHR ''a'']]"
      "[CHR 0x00, CHR 0x00, CHR 0x00, CHR 0x64, CHR ''a'']" 100 "\<lambda>b. Inr b"]
  by (simp add: MAX_FRAME_LEN_def)

text \<open>
  C29. The sender respects the same ceiling: one call of \<open>write_frame\<close>, whatever its outcome,
  puts at most 4 bytes and 16 MiB on the wire; a body above the ceiling is refused with nothing
  written; and on success the four length bytes state the body's length, without wrapping.
\<close>

theorem write_frame_ceiling:
  assumes "write_frame ser w v = (r, w')"
  shows "length (wr_out w') \<le> length (wr_out w) + 4 + unat MAX_FRAME_LEN \<and>
     (\<forall>n. r = Inl (EncodeTooLarge n) \<longrightarrow> w' = w) \<and>
     (r = Inr () \<longrightarrow> (\<exists>body. ser v = Inr body \<and> wr_out w' = wr_out w @ frame_bytes body \<and>
        unat (from_be_bytes (take 4 (frame_bytes body))) = length body))"
proof (intro conjI)
  show "length (wr_out w') \<le> length (wr_out w) + 4 + unat MAX_FRAME_LEN"
    using assms
    by (fastforce simp: write_frame_def split: sum.splits if_splits prod.splits
        dest: write_all_length)
  show "\<forall>n. r = Inl (EncodeTooLarge n) \<longrightarrow> w' = w"
    using assms by (auto simp: write_frame_def split: sum.splits if_splits prod.splits)
  show "r = Inr () \<longrightarrow> (\<exists>body. ser v = Inr body \<and> wr_out w' = wr_out w @ frame_bytes body \<and>
        unat (from_be_bytes (take 4 (frame_bytes body))) = length body)"
    using assms write_frame_ok [of ser w v "()" w'] by (auto simp: frame_bytes_def unat_frame_len)
qed

theorem write_frame_ceiling_witness:
  "length (wr_out \<lparr>wr_out = [CHR 0x00, CHR 0x00, CHR 0x00, CHR 0x01, CHR ''a''], wr_events = []\<rparr>)
     \<le> 0 + 4 + unat MAX_FRAME_LEN"
  using write_frame_ceiling [of "\<lambda>b. Inr b" "\<lparr>wr_out = [], wr_events = []\<rparr>" "''a''" "Inr ()"
      "\<lparr>wr_out = [CHR 0x00, CHR 0x00, CHR 0x00, CHR 0x01, CHR ''a''], wr_events = []\<rparr>"]
  by (simp add: write_frame_def write_all_def to_be_bytes_def frame_bytes_def unat_MAX_FRAME_LEN)

end
