(* ===== verification/Credentials.thy ===== *)
theory Credentials
  imports Rust_Path
begin

unbundle bit_operations_syntax

section \<open>Credentials\<close>

text \<open>
  The model of \<open>src/src/credentials.rs\<close>: where a user's key and token are, the checks made when
  they are loaded, the environment each kind of child gets, and the start and the end of the
  per-operation \<open>ssh-agent\<close>. What the operating system answers (files, groups, processes) is a
  parameter; the effects of starting an agent are returned as the list of actions in the order
  they are made. The \<open>Debug\<close> format of a string depends on Unicode tables and is a parameter.
\<close>

subsection \<open>Files\<close>

definition CREDENTIALS_ROOT :: path where
  "CREDENTIALS_ROOT = ''/etc/ghbrk/credentials''"

definition SSH_KEY_FILE :: string where
  "SSH_KEY_FILE = ''id_rsa''"

definition TOKEN_FILE :: string where
  "TOKEN_FILE = ''token''"

text \<open>The mode \<open>0o600\<close> and the mask \<open>0o777\<close>.\<close>

definition REQUIRED_MODE :: u32 where
  "REQUIRED_MODE = 0x180"

definition PERMISSION_MASK :: u32 where
  "PERMISSION_MASK = 0x1FF"

definition SSH_KEY_TTL_SECS :: nat where
  "SSH_KEY_TTL_SECS = 30"

record credential_paths =
  cp_ssh_key :: path
  cp_token :: path

record credentials =
  ssh_key_path :: path
  token :: string

datatype credential_error =
    KeyNotFound path
  | TokenNotFound path
  | PermissiveSshKey path u32
  | PermissiveToken path u32
  | CredentialIo io_error
  | InvalidUser string
  | AgentStartFailed string

definition credential_error_text :: "(string \<Rightarrow> string) \<Rightarrow> credential_error \<Rightarrow> string" where
  "credential_error_text dbg e =
     (case e of
        KeyNotFound p \<Rightarrow> ''ssh key not found at '' @ p
      | TokenNotFound p \<Rightarrow> ''token not found at '' @ p
      | PermissiveSshKey p m \<Rightarrow>
          ''ssh key '' @ p @ '' has permissive mode '' @ show_oct m @ '', required '' @ show_oct REQUIRED_MODE
      | PermissiveToken p m \<Rightarrow>
          ''token '' @ p @ '' has permissive mode '' @ show_oct m @ '', required '' @ show_oct REQUIRED_MODE
      | CredentialIo err \<Rightarrow> ''io error reading credential: '' @ io_text err
      | InvalidUser u \<Rightarrow> ''invalid user name '' @ dbg u
      | AgentStartFailed why \<Rightarrow> ''failed to start ssh-agent: '' @ why)"

text \<open>The \<open>Debug\<close> form of loaded credentials.\<close>

definition credentials_debug :: "(string \<Rightarrow> string) \<Rightarrow> credentials \<Rightarrow> string" where
  "credentials_debug dbg c =
     ''Credentials { ssh_key_path: '' @ dbg (ssh_key_path c) @ '', token: '' @ dbg ''<redacted>'' @ '' }''"

definition credentials_dir :: path where
  "credentials_dir = CREDENTIALS_ROOT"

definition credential_paths_in :: "path \<Rightarrow> string \<Rightarrow> credential_error + credential_paths" where
  "credential_paths_in base user =
     (if user = [] \<or> CHR ''/'' \<in> set user \<or> CHR 0x5C \<in> set user \<or> user = ''.'' \<or> user = ''..''
      then Inl (InvalidUser user)
      else let user_dir = path_join base user in
             Inr \<lparr>cp_ssh_key = path_join user_dir SSH_KEY_FILE, cp_token = path_join user_dir TOKEN_FILE\<rparr>)"

definition credential_paths_default :: "string \<Rightarrow> credential_error + credential_paths" where
  "credential_paths_default user = credential_paths_in credentials_dir user"

definition verify_ssh_key :: "fs \<Rightarrow> path \<Rightarrow> credential_error + unit" where
  "verify_ssh_key f p =
     (case fs_metadata f p of
        Inl err \<Rightarrow> if io_kind err = NotFound then Inl (KeyNotFound p) else Inl (CredentialIo err)
      | Inr m \<Rightarrow>
          let mode = md_mode m AND PERMISSION_MASK in
            if mode \<noteq> REQUIRED_MODE then Inl (PermissiveSshKey p mode) else Inr ())"

definition read_token :: "fs \<Rightarrow> path \<Rightarrow> credential_error + string" where
  "read_token f p =
     (case fs_metadata f p of
        Inl err \<Rightarrow> if io_kind err = NotFound then Inl (TokenNotFound p) else Inl (CredentialIo err)
      | Inr m \<Rightarrow>
          let mode = md_mode m AND PERMISSION_MASK in
            if mode \<noteq> REQUIRED_MODE then Inl (PermissiveToken p mode)
            else (case fs_read_to_string f p of
                    Inl err \<Rightarrow> Inl (CredentialIo err)
                  | Inr raw \<Rightarrow> Inr (trim_end_matches [CHR 0x0A, CHR 0x0D] raw)))"

definition load_credentials_from :: "fs \<Rightarrow> path \<Rightarrow> string \<Rightarrow> credential_error + credentials" where
  "load_credentials_from f base user =
     (case credential_paths_in base user of
        Inl e \<Rightarrow> Inl e
      | Inr paths \<Rightarrow>
          (case verify_ssh_key f (cp_ssh_key paths) of
             Inl e \<Rightarrow> Inl e
           | Inr _ \<Rightarrow>
               (case read_token f (cp_token paths) of
                  Inl e \<Rightarrow> Inl e
                | Inr t \<Rightarrow> Inr \<lparr>ssh_key_path = cp_ssh_key paths, token = t\<rparr>)))"

definition load_credentials :: "fs \<Rightarrow> string \<Rightarrow> credential_error + credentials" where
  "load_credentials f user = load_credentials_from f credentials_dir user"

subsection \<open>Environments\<close>

type_synonym env = "(string \<times> string) list"

definition git_safe_dir_env :: env where
  "git_safe_dir_env =
     [(''GIT_CONFIG_COUNT'', ''1''), (''GIT_CONFIG_KEY_0'', ''safe.directory''), (''GIT_CONFIG_VALUE_0'', ''*'')]"

text \<open>
  The askpass script on disk. What the operating system answers to the five calls that make it is
  the parameter; when one fails the script is dropped, which removes the file.
\<close>

record script =
  script_path :: path
  script_content :: string
  script_mode :: u32

record https_env =
  https_vars :: env
  askpass_script :: script

record askpass_io =
  ai_tempfile :: "io_error + path"
  ai_write_line1 :: "io_error + unit"
  ai_write_line2 :: "io_error + unit"
  ai_metadata :: "io_error + metadata"
  ai_set_permissions :: "io_error + unit"

definition askpass_text :: string where
  "askpass_text =
     ''#!/bin/sh'' @ [CHR 0x0A] @
     ''printf '' @ [CHR 0x27] @ ''%s'' @ [CHR 0x27] @ '' '' @ [CHR 0x22] @ ''$GHBRK_TOKEN'' @ [CHR 0x22] @ [CHR 0x0A]"

definition https_git_env :: "askpass_io \<Rightarrow> credentials \<Rightarrow> credential_error + https_env" where
  "https_git_env ai creds =
     (case ai_tempfile ai of
        Inl e \<Rightarrow> Inl (CredentialIo e)
      | Inr p \<Rightarrow>
          (case ai_write_line1 ai of
             Inl e \<Rightarrow> Inl (CredentialIo e)
           | Inr _ \<Rightarrow>
               (case ai_write_line2 ai of
                  Inl e \<Rightarrow> Inl (CredentialIo e)
                | Inr _ \<Rightarrow>
                    (case ai_metadata ai of
                       Inl e \<Rightarrow> Inl (CredentialIo e)
                     | Inr _ \<Rightarrow>
                         (case ai_set_permissions ai of
                            Inl e \<Rightarrow> Inl (CredentialIo e)
                          | Inr _ \<Rightarrow>
                              Inr \<lparr>https_vars =
                                     [(''GIT_ASKPASS'', p), (''GIT_TERMINAL_PROMPT'', ''0''),
                                      (''GHBRK_TOKEN'', token creds)] @ git_safe_dir_env,
                                   askpass_script =
                                     \<lparr>script_path = p, script_content = askpass_text,
                                      script_mode = 0x1C0\<rparr>\<rparr>)))))"

text \<open>The variables of the daemon's own environment are the parameter \<open>getenv\<close>.\<close>

definition gh_env :: "(string \<Rightarrow> string option) \<Rightarrow> string \<Rightarrow> env" where
  "gh_env getenv tok =
     [(''GH_TOKEN'', tok)] @
     (case getenv ''HOME'' of None \<Rightarrow> [] | Some home \<Rightarrow> [(''HOME'', home)]) @
     (case getenv ''GH_HOST'' of
        None \<Rightarrow> []
      | Some host \<Rightarrow>
          if host = [] then []
          else (if host \<noteq> ''github.com'' then [(''GH_ENTERPRISE_TOKEN'', tok)] else []) @
               [(''GH_HOST'', host)])"

subsection \<open>The ssh-agent of one operation\<close>

definition CLIENT_GROUP_NAME :: string where
  "CLIENT_GROUP_NAME = ''ghbrk-clients''"

text \<open>
  The answers of the operating system: an error is its text; \<open>ho_exists\<close> is asked once per poll;
  \<open>ssh-add\<close> fails to run, or ends with a status that is a success or is displayed. The last three are
  the outcomes of \<open>kill\<close>, \<open>wait\<close> and \<open>remove_dir_all\<close>, which the code ignores.
\<close>

record host =
  ho_group :: "string + u32 option"
  ho_tempdir :: "string + path"
  ho_chmod :: "path \<Rightarrow> string option"
  ho_chgrp :: "path \<Rightarrow> string option"
  ho_spawn_agent :: "string option"
  ho_exists :: "nat \<Rightarrow> bool"
  ho_ssh_add :: "string + string option"
  ho_bind :: "string option"
  ho_kill :: "string option"
  ho_wait :: "string option"
  ho_remove_dir :: "path \<Rightarrow> string option"

datatype action =
    MkTempDir path
  | Chmod path u32
  | Chgrp path u32
  | SpawnAgent path
  | SshAdd "string list" path
  | BindProxy path
  | SpawnProxy path path
  | AbortProxy
  | KillAgent
  | WaitAgent
  | RemoveDir path

record agent_handle =
  ah_temp_dir :: path

definition client_group_gid :: "host \<Rightarrow> credential_error + u32" where
  "client_group_gid h =
     (case ho_group h of
        Inr (Some gid) \<Rightarrow> Inr gid
      | Inr None \<Rightarrow> Inl (AgentStartFailed (''group '' @ CLIENT_GROUP_NAME @ '' not found''))
      | Inl err \<Rightarrow>
          Inl (AgentStartFailed (''looking up group '' @ CLIENT_GROUP_NAME @ '' failed: '' @ err)))"

text \<open>The loop \<open>for _ in 0..20\<close>; the sleep between two polls has no effect on the result.\<close>

fun poll_ready :: "(nat \<Rightarrow> bool) \<Rightarrow> nat \<Rightarrow> nat \<Rightarrow> bool" where
  "poll_ready exists i 0 = False"
| "poll_ready exists i (Suc n) = (if exists i then True else poll_ready exists (Suc i) n)"

definition agent_failed ::
    "string \<Rightarrow> action list \<Rightarrow> (credential_error + (env \<times> agent_handle)) \<times> action list" where
  "agent_failed why acts = (Inl (AgentStartFailed why), acts)"

definition start_ssh_agent ::
    "host \<Rightarrow> credentials \<Rightarrow> (credential_error + (env \<times> agent_handle)) \<times> action list" where
  "start_ssh_agent h creds =
     (case client_group_gid h of
        Inl e \<Rightarrow> (Inl e, [])
      | Inr gid \<Rightarrow>
     (case ho_tempdir h of
        Inl err \<Rightarrow> agent_failed (''creating temp dir: '' @ err) []
      | Inr dir \<Rightarrow>
     let agent_socket = path_join dir ''agent.sock'';
         proxy_socket = path_join dir ''proxy.sock'';
         a1 = [MkTempDir dir, Chmod dir 0x1C8];
         a2 = a1 @ [Chgrp dir gid];
         a3 = a2 @ [SpawnAgent agent_socket];
         a4 = a3 @ [SshAdd [''-t'', show_nat SSH_KEY_TTL_SECS, ssh_key_path creds] agent_socket];
         a5 = a4 @ [BindProxy proxy_socket];
         a6 = a5 @ [Chmod proxy_socket 0x1B0];
         a7 = a6 @ [Chgrp proxy_socket gid];
         cleanup = [KillAgent, WaitAgent, RemoveDir dir] in
     (case ho_chmod h dir of
        Some err \<Rightarrow> agent_failed (''chmod temp dir: '' @ err) (a1 @ [RemoveDir dir])
      | None \<Rightarrow>
     (case ho_chgrp h dir of
        Some err \<Rightarrow> agent_failed (''chgrp temp dir: '' @ err) (a2 @ [RemoveDir dir])
      | None \<Rightarrow>
     (case ho_spawn_agent h of
        Some err \<Rightarrow> agent_failed (''spawning ssh-agent: '' @ err) (a2 @ [RemoveDir dir])
      | None \<Rightarrow>
     if \<not> poll_ready (ho_exists h) 0 20
     then agent_failed ''ssh-agent socket did not appear within 1s'' (a3 @ cleanup)
     else
     (case ho_ssh_add h of
        Inl err \<Rightarrow> agent_failed (''running ssh-add: '' @ err) (a4 @ cleanup)
      | Inr (Some status) \<Rightarrow> agent_failed (''ssh-add exited with status '' @ status) (a4 @ cleanup)
      | Inr None \<Rightarrow>
     (case ho_bind h of
        Some err \<Rightarrow> agent_failed (''binding proxy socket: '' @ err) (a4 @ cleanup)
      | None \<Rightarrow>
     (case ho_chmod h proxy_socket of
        Some err \<Rightarrow> agent_failed (''chmod proxy socket: '' @ err) (a6 @ cleanup)
      | None \<Rightarrow>
     (case ho_chgrp h proxy_socket of
        Some err \<Rightarrow> agent_failed (''chgrp proxy socket: '' @ err) (a7 @ cleanup)
      | None \<Rightarrow>
          (Inr ((''SSH_AUTH_SOCK'', proxy_socket) # git_safe_dir_env, \<lparr>ah_temp_dir = dir\<rparr>),
           a7 @ [SpawnProxy proxy_socket agent_socket]))))))))))"

definition agent_drop :: "agent_handle \<Rightarrow> action list" where
  "agent_drop ah = [AbortProxy, KillAgent, WaitAgent, RemoveDir (ah_temp_dir ah)]"

subsection \<open>Credential stores\<close>

text \<open>
  What the broker relies on when it loads credentials: whatever is loaded for a user was accepted
  by the check of that user's own files, and the files of two users are different.
\<close>

locale credential_store =
  fixes load :: "string \<Rightarrow> credential_error + credentials"
    and key_of :: "string \<Rightarrow> path"
  assumes load_own_key: "load u = Inr c \<Longrightarrow> ssh_key_path c = key_of u"
    and key_of_inj: "load u = Inr c \<Longrightarrow> load v = Inr d \<Longrightarrow> key_of u = key_of v \<Longrightarrow> u = v"
begin

lemma load_separate: "load u = Inr c \<Longrightarrow> load v = Inr d \<Longrightarrow> ssh_key_path c = ssh_key_path d \<Longrightarrow> u = v"
  using load_own_key key_of_inj by metis

end

definition user_name_ok :: "string \<Rightarrow> bool" where
  "user_name_ok u \<longleftrightarrow> u \<noteq> [] \<and> CHR ''/'' \<notin> set u \<and> CHR 0x5C \<notin> set u \<and> u \<noteq> ''.'' \<and> u \<noteq> ''..''"

lemma user_name_relative: "user_name_ok u \<Longrightarrow> \<not> starts_with u ''/''"
  by (cases u) (auto simp: user_name_ok_def)

text \<open>The directory \<open>base/user\<close> as a prefix: everything up to and including its last slash.\<close>

definition dir_prefix :: "path \<Rightarrow> path" where
  "dir_prefix d = (if d = [] \<or> last d = CHR ''/'' then d else d @ ''/'')"

lemma path_join_prefix: "\<not> starts_with p ''/'' \<Longrightarrow> path_join d p = dir_prefix d @ p"
  by (simp add: path_join_def dir_prefix_def)

lemma user_name_last: "user_name_ok u \<Longrightarrow> last u \<noteq> CHR ''/''"
  by (metis last_in_set user_name_ok_def)

lemma credential_paths_in_ok:
  "credential_paths_in base u = Inr cp \<longleftrightarrow>
     user_name_ok u \<and> cp_ssh_key cp = dir_prefix base @ u @ ''/id_rsa'' \<and>
     cp_token cp = dir_prefix base @ u @ ''/token''"
proof (cases "user_name_ok u")
  case True
  have "path_join (path_join base u) f = dir_prefix base @ u @ CHR ''/'' # f"
    if "\<not> starts_with f ''/''" for f
    using True that user_name_last [OF True]
    by (simp add: path_join_prefix user_name_relative) (simp add: dir_prefix_def user_name_ok_def)
  then show ?thesis using True
    by (cases cp) (auto simp: credential_paths_in_def user_name_ok_def SSH_KEY_FILE_def TOKEN_FILE_def)
next
  case False
  then show ?thesis by (auto simp: credential_paths_in_def user_name_ok_def)
qed

lemma load_credentials_from_ok:
  assumes "load_credentials_from f base u = Inr c"
  shows "\<exists>cp. credential_paths_in base u = Inr cp \<and> ssh_key_path c = cp_ssh_key cp \<and>
    verify_ssh_key f (cp_ssh_key cp) = Inr () \<and> read_token f (cp_token cp) = Inr (token c)"
  using assms by (auto simp: load_credentials_from_def split: sum.splits)

interpretation store: credential_store "load_credentials_from f base" "\<lambda>u. dir_prefix base @ u @ ''/id_rsa''"
  for f base
proof
  fix u v c d
  assume u: "load_credentials_from f base u = Inr c"
  show "ssh_key_path c = dir_prefix base @ u @ ''/id_rsa''"
    using load_credentials_from_ok [OF u] by (auto simp: credential_paths_in_ok)
  assume "dir_prefix base @ u @ ''/id_rsa'' = dir_prefix base @ v @ ''/id_rsa''"
  then show "u = v" by simp
qed

lemma mode_private:
  fixes m :: u32
  assumes "m AND PERMISSION_MASK = REQUIRED_MODE"
  shows "m AND 0x3F = 0"
proof -
  have "m AND 0x3F = (m AND PERMISSION_MASK) AND 0x3F"
    by (simp add: PERMISSION_MASK_def and.assoc)
  also have "\<dots> = 0" by (simp add: assms REQUIRED_MODE_def)
  finally show ?thesis .
qed

subsection \<open>Resources held by an agent\<close>

text \<open>
  What the actions leave in the system, given the outcomes of those the code does not look at: a
  failed \<open>kill\<close>, \<open>wait\<close> or removal changes nothing. \<open>Awaited\<close> is an agent that was waited for although
  it had not been killed, which can take for ever.
\<close>

datatype process_state = NoAgent | Running | Killed | Awaited

record resources =
  res_dirs :: "path list"
  res_agent :: process_state
  res_proxy :: bool

definition no_resources :: resources where
  "no_resources = \<lparr>res_dirs = [], res_agent = NoAgent, res_proxy = False\<rparr>"

fun perform :: "host \<Rightarrow> action \<Rightarrow> resources \<Rightarrow> resources" where
  "perform h (MkTempDir d) r = r\<lparr>res_dirs := d # res_dirs r\<rparr>"
| "perform h (RemoveDir d) r =
     (if ho_remove_dir h d = None then r\<lparr>res_dirs := removeAll d (res_dirs r)\<rparr> else r)"
| "perform h (SpawnAgent s) r = r\<lparr>res_agent := Running\<rparr>"
| "perform h KillAgent r = (if ho_kill h = None \<and> res_agent r = Running then r\<lparr>res_agent := Killed\<rparr> else r)"
| "perform h WaitAgent r =
     (case res_agent r of
        Killed \<Rightarrow> if ho_wait h = None then r\<lparr>res_agent := NoAgent\<rparr> else r
      | Running \<Rightarrow> r\<lparr>res_agent := Awaited\<rparr>
      | _ \<Rightarrow> r)"
| "perform h (SpawnProxy p a) r = r\<lparr>res_proxy := True\<rparr>"
| "perform h AbortProxy r = r\<lparr>res_proxy := False\<rparr>"
| "perform h _ r = r"

text \<open>Nothing is left but what the system itself refused to give up.\<close>

definition cleaned_up :: "host \<Rightarrow> resources \<Rightarrow> bool" where
  "cleaned_up h r \<longleftrightarrow>
     \<not> res_proxy r \<and> (res_agent r = NoAgent \<or> ho_kill h \<noteq> None \<or> ho_wait h \<noteq> None) \<and>
     list_all (\<lambda>d. ho_remove_dir h d \<noteq> None) (res_dirs r)"

lemma cleaned_up_start: "cleaned_up h no_resources"
  by (simp add: cleaned_up_def no_resources_def)

lemma cleaned_up_dir:
  "cleaned_up h (perform h (RemoveDir d) \<lparr>res_dirs = [d], res_agent = NoAgent, res_proxy = False\<rparr>)"
  by (simp add: cleaned_up_def)

lemma cleaned_up_agent:
  "cleaned_up h (perform h (RemoveDir d) (perform h WaitAgent (perform h KillAgent
     \<lparr>res_dirs = [d], res_agent = Running, res_proxy = False\<rparr>)))"
  by (cases "ho_kill h"; cases "ho_wait h"; cases "ho_remove_dir h d") (simp_all add: cleaned_up_def)

subsection \<open>Properties\<close>

text \<open>
  C31. Credential files are private to one user of the credentials directory: the user name is a
  single path component other than \<open>.\<close> and \<open>..\<close>, both files lie in the directory of that name
  directly under the base, and no file of one user is a file of another.
\<close>

theorem credential_paths_confined:
  assumes "credential_paths_in base u = Inr cp" and "credential_paths_in base v = Inr cq"
    and "base \<noteq> []" and "last base \<noteq> CHR ''/''"
  shows "(u = v \<or> set [cp_ssh_key cp, cp_token cp] \<inter> set [cp_ssh_key cq, cp_token cq] = {}) \<and>
    fst (last_component (cp_ssh_key cp)) = fst (last_component (cp_token cp)) \<and>
    last_component (fst (last_component (cp_token cp))) = (base, u) \<and>
    user_name_ok u"
proof (intro conjI)
  note p = assms(1,2) [unfolded credential_paths_in_ok]
  have key: "last_component (cp_ssh_key cp) = (dir_prefix base @ u, ''id_rsa'')"
    and tok: "last_component (cp_token cp) = (dir_prefix base @ u, ''token'')"
    using p last_component_join [of "''id_rsa''" "dir_prefix base @ u"]
      last_component_join [of "''token''" "dir_prefix base @ u"] by simp_all
  then show "fst (last_component (cp_ssh_key cp)) = fst (last_component (cp_token cp))" by simp
  have no: "u @ ''/id_rsa'' \<noteq> w @ ''/token''" "u @ ''/token'' \<noteq> w @ ''/id_rsa''" for w
    using arg_cong [of _ _ last] by fastforce+
  show "u = v \<or> set [cp_ssh_key cp, cp_token cp] \<inter> set [cp_ssh_key cq, cp_token cq] = {}"
    using p no by auto
  show "user_name_ok u" using p by simp
  then have "last_component (base @ CHR ''/'' # u) = (base, u)"
    by (intro last_component_join) (simp add: user_name_ok_def)
  with tok assms(3,4) show "last_component (fst (last_component (cp_token cp))) = (base, u)"
    by (simp add: dir_prefix_def)
qed

theorem credential_paths_confined_witness:
  "\<exists>cp cq. credential_paths_in credentials_dir ''alice'' = Inr cp \<and> credential_paths_in credentials_dir ''bob'' = Inr cq \<and>
     set [cp_ssh_key cp, cp_token cp] \<inter> set [cp_ssh_key cq, cp_token cq] = {}"
proof -
  have "isl (credential_paths_in credentials_dir ''alice'') = False"
    "isl (credential_paths_in credentials_dir ''bob'') = False" by code_simp+
  from this [THEN not_isl_Inr] obtain cp cq where
    p: "credential_paths_in credentials_dir ''alice'' = Inr cp" and
    q: "credential_paths_in credentials_dir ''bob'' = Inr cq" by (elim exE)
  have "credentials_dir \<noteq> []" "last credentials_dir \<noteq> CHR ''/''" "''alice'' \<noteq> ''bob''"
    by (simp_all add: credentials_dir_def CREDENTIALS_ROOT_def)
  from conjunct1 [OF credential_paths_confined [OF p q this(1,2)]] this(3)
  have "set [cp_ssh_key cp, cp_token cp] \<inter> set [cp_ssh_key cq, cp_token cq] = {}"
    by (simp only: simp_thms)
  with p q show ?thesis by (intro exI conjI)
qed

text \<open>
  C30. Credentials are only loaded from files nobody else can read: both files exist and give no
  permission to their group or to others, and the token that is handed out is the content of the
  token file without its line end.
\<close>

theorem load_credentials_checked:
  assumes "load_credentials_from f base u = Inr c"
  shows "\<exists>cp mk mt raw. credential_paths_in base u = Inr cp \<and> ssh_key_path c = cp_ssh_key cp \<and>
    fs_metadata f (cp_ssh_key cp) = Inr mk \<and> md_mode mk AND 0x3F = 0 \<and>
    fs_metadata f (cp_token cp) = Inr mt \<and> md_mode mt AND 0x3F = 0 \<and>
    fs_read_to_string f (cp_token cp) = Inr raw \<and> (\<exists>eol. raw = token c @ eol \<and> set eol \<subseteq> {CHR 0x0A, CHR 0x0D}) \<and>
    (token c = [] \<or> last (token c) \<notin> {CHR 0x0A, CHR 0x0D})"
proof -
  from load_credentials_from_ok [OF assms] obtain cp where cp: "credential_paths_in base u = Inr cp"
    "ssh_key_path c = cp_ssh_key cp" "verify_ssh_key f (cp_ssh_key cp) = Inr ()"
    "read_token f (cp_token cp) = Inr (token c)" by blast
  from cp(3) obtain mk where mk: "fs_metadata f (cp_ssh_key cp) = Inr mk"
    "md_mode mk AND PERMISSION_MASK = REQUIRED_MODE"
    by (auto simp: verify_ssh_key_def Let_def split: sum.splits if_splits)
  from cp(4) obtain mt raw where mt: "fs_metadata f (cp_token cp) = Inr mt"
    "md_mode mt AND PERMISSION_MASK = REQUIRED_MODE" "fs_read_to_string f (cp_token cp) = Inr raw"
    "token c = trim_end_matches [CHR 0x0A, CHR 0x0D] raw"
    by (auto simp: read_token_def Let_def split: sum.splits if_splits)
  have "\<exists>eol. raw = token c @ eol \<and> set eol \<subseteq> {CHR 0x0A, CHR 0x0D}"
    using trim_end_matches_prefix [of raw "[CHR 0x0A, CHR 0x0D]"] mt(4) by simp
  moreover have "token c = [] \<or> last (token c) \<notin> {CHR 0x0A, CHR 0x0D}"
    using trim_end_matches_last [OF mt(4) [symmetric]] by simp
  ultimately show ?thesis using cp mk mt mode_private by blast
qed

definition example_store :: fs where
  "example_store =
     \<lparr>fs_symlink_metadata = (\<lambda>p. True),
      fs_metadata = (\<lambda>p. Inr \<lparr>md_kind = KFile, md_mode = 0x8180, md_uid = 0, md_dev = 0, md_ino = 0\<rparr>),
      fs_read_to_string = (\<lambda>p. Inr (''ghp_secret'' @ [CHR 0x0A]))\<rparr>"

lemma example_store_alice:
  "load_credentials example_store ''alice'' =
     Inr \<lparr>ssh_key_path = ''/etc/ghbrk/credentials/alice/id_rsa'', token = ''ghp_secret''\<rparr>"
  by code_simp

theorem load_credentials_checked_witness:
  "\<exists>cp mk. credential_paths_in credentials_dir ''alice'' = Inr cp \<and>
     fs_metadata example_store (cp_ssh_key cp) = Inr mk \<and> md_mode mk AND 0x3F = 0"
  using load_credentials_checked [OF example_store_alice [unfolded load_credentials_def]] by blast


text \<open>
  The environment of a \<open>gh\<close> child carries the caller's token and nothing of the daemon's but
  its home and host: no variable is set twice, the token is the only value of the token variables,
  and the enterprise token is only set for another host than \<open>github.com\<close>.
\<close>

theorem gh_env_bindings:
  "distinct (map fst (gh_env getenv tok))"
  "map_of (gh_env getenv tok) ''GH_TOKEN'' = Some tok"
  "list_all (\<lambda>(k, v). k \<in> {''GH_TOKEN'', ''GH_ENTERPRISE_TOKEN''} \<and> v = tok \<or>
     k \<in> {''HOME'', ''GH_HOST''} \<and> getenv k = Some v) (gh_env getenv tok)"
  "map_of (gh_env getenv tok) ''GH_ENTERPRISE_TOKEN'' =
     (if getenv ''GH_HOST'' \<in> {None, Some [], Some ''github.com''} then None else Some tok)"
proof -
  show "distinct (map fst (gh_env getenv tok))"
    by (cases "getenv ''HOME''"; cases "getenv ''GH_HOST''") (simp_all add: gh_env_def)
  show "map_of (gh_env getenv tok) ''GH_TOKEN'' = Some tok" by (simp add: gh_env_def)
  show "list_all (\<lambda>(k, v). k \<in> {''GH_TOKEN'', ''GH_ENTERPRISE_TOKEN''} \<and> v = tok \<or>
      k \<in> {''HOME'', ''GH_HOST''} \<and> getenv k = Some v) (gh_env getenv tok)"
    by (cases "getenv ''HOME''"; cases "getenv ''GH_HOST''") (simp_all add: gh_env_def)
  show "map_of (gh_env getenv tok) ''GH_ENTERPRISE_TOKEN'' =
      (if getenv ''GH_HOST'' \<in> {None, Some [], Some ''github.com''} then None else Some tok)"
    by (cases "getenv ''HOME''"; cases "getenv ''GH_HOST''") (simp_all add: gh_env_def)
qed

end
