(* ===== verification/Executor.thy ===== *)
theory Executor
  imports Protocol Credentials Audit_Log
begin

section \<open>The child executor\<close>

text \<open>
  The model of \<open>src/src/executor.rs\<close>: the command of a child and its environment, the privilege
  drop as a sequence of system calls between \<open>fork\<close> and \<open>execve\<close>, the relay of the client's
  standard input, the relay of the child's output in frames, and the select loop that joins the
  two directions. The kernel's answers to system calls, and what a spawned child writes and how it
  ends, are parameters.
\<close>

subsection \<open>The client's side of a connection\<close>

text \<open>
  The open connection: what the client still sends, the bytes written to it, the frames that were
  written completely, and whether the write side was shut down.
\<close>

record conn =
  cn_in :: sock
  cn_writer :: writer
  cn_sent :: "server_frame list"
  cn_shut :: bool

type_synonym frame_encoder = "server_frame \<Rightarrow> string + string"
type_synonym frame_decoder = "string \<Rightarrow> string + client_frame"

definition send_frame :: "frame_encoder \<Rightarrow> server_frame \<Rightarrow> conn \<Rightarrow> (protocol_error + unit) \<times> conn" where
  "send_frame ser v c =
     (case write_frame ser (cn_writer c) v of
        (Inl e, w) \<Rightarrow> (Inl e, c\<lparr>cn_writer := w\<rparr>)
      | (Inr _, w) \<Rightarrow> (Inr (), c\<lparr>cn_writer := w, cn_sent := cn_sent c @ [v]\<rparr>))"

definition shutdown :: "conn \<Rightarrow> conn" where
  "shutdown c = c\<lparr>cn_shut := True\<rparr>"

subsection \<open>Data\<close>

definition READ_BUF_SIZE :: nat where
  "READ_BUF_SIZE = 8 * 1024"

definition SIGNAL_EXIT_OFFSET :: i32 where
  "SIGNAL_EXIT_OFFSET = 128"

datatype executor_error = ExecIo io_error | ExecProtocol protocol_error

definition executor_error_text :: "executor_error \<Rightarrow> string" where
  "executor_error_text e =
     (case e of
        ExecIo err \<Rightarrow> ''io error: '' @ io_text err
      | ExecProtocol err \<Rightarrow> ''protocol error: '' @ protocol_error_text err)"

record child_spec =
  cs_program :: string
  cs_args :: "string list"
  cs_env :: env
  cs_cwd :: path
  cs_uid :: "u32 option"
  cs_gid :: "u32 option"
  cs_supplementary_gids :: "u32 list"
  cs_home :: "path option"

subsection \<open>The command\<close>

datatype syscall =
    SetGroups "u32 list"
  | SetResGid u32 u32 u32
  | SetResUid u32 u32 u32
  | ChDir path

record command =
  cmd_program :: string
  cmd_args :: "string list"
  cmd_cwd :: path
  cmd_env :: "string \<rightharpoonup> string"
  cmd_pre_exec :: "syscall list"

definition set_env :: "env \<Rightarrow> command \<Rightarrow> command" where
  "set_env vars cmd = fold (\<lambda>(k, v) c. c\<lparr>cmd_env := (cmd_env c)(k \<mapsto> v)\<rparr>) vars cmd"

definition build_command :: "(string \<Rightarrow> string option) \<Rightarrow> child_spec \<Rightarrow> command" where
  "build_command getenv spec =
     (let cmd = set_env (cs_env spec)
            \<lparr>cmd_program = cs_program spec, cmd_args = cs_args spec, cmd_cwd = cs_cwd spec,
             cmd_env = Map.empty, cmd_pre_exec = []\<rparr> in
        if \<not> list_ex (\<lambda>(k, _). k = ''PATH'') (cs_env spec)
        then (case getenv ''PATH'' of
                Some p \<Rightarrow> cmd\<lparr>cmd_env := (cmd_env cmd)(''PATH'' \<mapsto> p)\<rparr>
              | None \<Rightarrow> cmd)
        else cmd)"

definition apply_privilege_drop :: "u32 \<Rightarrow> child_spec \<Rightarrow> command \<Rightarrow> command" where
  "apply_privilege_drop own_euid spec cmd =
     (case (cs_uid spec, cs_gid spec) of
        (Some uid, Some gid) \<Rightarrow>
          if uid = 0 \<or> uid = own_euid then cmd
          else
            let cmd1 = (case cs_home spec of
                          Some home \<Rightarrow>
                            if \<not> list_ex (\<lambda>(k, _). k = ''HOME'') (cs_env spec)
                            then cmd\<lparr>cmd_env := (cmd_env cmd)(''HOME'' \<mapsto> home)\<rparr> else cmd
                        | None \<Rightarrow> cmd) in
              cmd1\<lparr>cmd_cwd := ''/'',
                   cmd_pre_exec :=
                     [SetGroups (cs_supplementary_gids spec), SetResGid gid gid gid,
                      SetResUid uid uid uid, ChDir (cs_cwd spec)]\<rparr>
      | _ \<Rightarrow> cmd)"

subsection \<open>Spawning\<close>

record proc =
  p_ruid :: u32
  p_euid :: u32
  p_suid :: u32
  p_rgid :: u32
  p_egid :: u32
  p_sgid :: u32
  p_groups :: "u32 list"
  p_cwd :: path

fun syscall_effect :: "syscall \<Rightarrow> proc \<Rightarrow> proc" where
  "syscall_effect (SetGroups gs) p = p\<lparr>p_groups := gs\<rparr>"
| "syscall_effect (SetResGid r e s) p = p\<lparr>p_rgid := r, p_egid := e, p_sgid := s\<rparr>"
| "syscall_effect (SetResUid r e s) p = p\<lparr>p_ruid := r, p_euid := e, p_suid := s\<rparr>"
| "syscall_effect (ChDir d) p = p\<lparr>p_cwd := d\<rparr>"

text \<open>
  The kernel: whether it grants a system call to a process, the error of a refused change of
  directory, and the outcomes of \<open>fork\<close> and \<open>execve\<close>.
\<close>

record kernel =
  k_fork :: "io_error option"
  k_grants :: "syscall \<Rightarrow> proc \<Rightarrow> bool"
  k_chdir_error :: io_error
  k_exec :: "command \<Rightarrow> proc \<Rightarrow> io_error option"

definition drop_error :: io_error where
  "drop_error = \<lparr>io_kind = PermissionDenied, io_text = ''privilege drop failed''\<rparr>"

fun run_pre_exec :: "kernel \<Rightarrow> syscall list \<Rightarrow> proc \<Rightarrow> io_error + proc" where
  "run_pre_exec k [] p = Inr p"
| "run_pre_exec k (s # ss) p =
     (if k_grants k s p then run_pre_exec k ss (syscall_effect s p) else Inl drop_error)"

text \<open>
  \<open>Command::spawn\<close>: fork, change to the command's directory, run the hook, execute. Every error
  in the forked child is reported to the parent, and no program runs.
\<close>

definition spawn :: "kernel \<Rightarrow> command \<Rightarrow> proc \<Rightarrow> io_error + proc" where
  "spawn k cmd p =
     (case k_fork k of
        Some e \<Rightarrow> Inl e
      | None \<Rightarrow>
          if \<not> k_grants k (ChDir (cmd_cwd cmd)) p then Inl (k_chdir_error k)
          else (case run_pre_exec k (cmd_pre_exec cmd) (syscall_effect (ChDir (cmd_cwd cmd)) p) of
                  Inl e \<Rightarrow> Inl e
                | Inr p' \<Rightarrow> (case k_exec k cmd p' of Some e \<Rightarrow> Inl e | None \<Rightarrow> Inr p')))"

subsection \<open>Relaying the client's standard input\<close>

text \<open>A measure for the bytes and events still to come from a socket.\<close>

fun sock_size :: "sock \<Rightarrow> nat" where
  "sock_size [] = 0"
| "sock_size (Chunk bs # evs) = Suc (length bs + sock_size evs)"
| "sock_size (SockFail e # evs) = Suc (sock_size evs)"

lemma sock_read_size: "sock_read n s = (r, s') \<Longrightarrow> sock_size s' \<le> sock_size s"
  by (induction n s rule: sock_read.induct) (auto split: if_splits)

lemma sock_read_exact_size:
  "sock_read_exact n s = (Inr bs, s') \<Longrightarrow> sock_size s' + n \<le> sock_size s"
proof (induction n s arbitrary: bs s' rule: sock_read_exact.induct)
  case (4 v cs evs)
  show ?case
  proof (cases "length cs \<le> Suc v")
    case True
    with "4.prems" obtain ds where "sock_read_exact (Suc v - length cs) evs = (Inr ds, s')"
      by (auto split: prod.splits sum.splits)
    from "4.IH" [OF True this] True show ?thesis by simp
  next
    case False
    with "4.prems" show ?thesis by auto
  qed
qed auto

lemma fill_body_size: "fill_body sock_read len filled s = (r, s') \<Longrightarrow> sock_size s' \<le> sock_size s"
proof (induction "unat len - length filled" arbitrary: filled s rule: less_induct)
  case less
  show ?case
  proof (cases "length filled < unat len")
    case False
    with less.prems show ?thesis by (simp add: fill_body.simps [of sock_read len filled s])
  next
    case True
    obtain rr s1 where rd: "sock_read (unat len - length filled) s = (rr, s1)" by fastforce
    note s1 = sock_read_size [OF rd]
    show ?thesis
    proof (cases rr)
      case (Inl e)
      with less.prems True rd s1 show ?thesis by (simp add: fill_body.simps [of sock_read len filled s])
    next
      case (Inr bs)
      show ?thesis
      proof (cases "bs = []")
        case nil: True
        with Inr less.prems True rd s1 show ?thesis
          by (simp add: fill_body.simps [of sock_read len filled s])
      next
        case False
        with Inr less.prems True rd have "fill_body sock_read len (filled @ bs) s1 = (r, s')"
          by (simp add: fill_body.simps [of sock_read len filled s])
        moreover have "unat len - length (filled @ bs) < unat len - length filled"
          using True False by (simp add: diff_less_mono2)
        ultimately have "sock_size s' \<le> sock_size s1" by (intro less.hyps)
        with s1 show ?thesis by simp
      qed
    qed
  qed
qed

lemma sock_read_frame_size:
  assumes "sock_read_frame de s = (Inr v, s')"
  shows "sock_size s' < sock_size s"
proof -
  from assms obtain hdr s1 where s1: "sock_read_exact 4 s = (Inr hdr, s1)"
    by (auto simp: read_frame_def split: prod.splits sum.splits)
  with assms obtain body where "fill_body sock_read (from_be_bytes hdr) [] s1 = (Inr body, s')"
    by (auto simp: read_frame_def Let_def split: prod.splits sum.splits if_splits)
  from fill_body_size [OF this] sock_read_exact_size [OF s1] show ?thesis by simp
qed

text \<open>
  One turn of the loop reads a frame and writes its bytes to the pipe of the child. The result is
  the rest of the client's bytes and what the pipe took; the loop always ends by itself.
\<close>

function relay_loop :: "frame_decoder \<Rightarrow> sock \<Rightarrow> writer \<Rightarrow> sock \<times> writer" where
  "relay_loop de s w =
     (case sock_read_frame de s of
        (Inr (StdinChunk bytes), s') \<Rightarrow>
          (case write_all w bytes of
             (Inl _, w') \<Rightarrow> (s', w')
           | (Inr _, w') \<Rightarrow> relay_loop de s' w')
      | (Inr StdinEof, s') \<Rightarrow> (s', w)
      | (Inl _, s') \<Rightarrow> (s', w))"
  by pat_completeness auto
termination
  by (relation "measure (\<lambda>(de, s, w). sock_size s)") (auto dest: sock_read_frame_size [OF sym])

declare relay_loop.simps [simp del]

definition relay_stdin :: "frame_decoder \<Rightarrow> sock \<Rightarrow> writer option \<Rightarrow> sock \<times> writer option" where
  "relay_stdin de s child_stdin =
     (case child_stdin of
        None \<Rightarrow> (s, None)
      | Some w \<Rightarrow> (case relay_loop de s w of (s', w') \<Rightarrow> (s', Some w')))"

subsection \<open>Relaying the child's output\<close>

text \<open>
  A pipe is the list of what the coming reads return: an error, or bytes, of which one read takes
  at most the buffer's size; after the last element the child has closed it.
\<close>

type_synonym pipe = "(io_error + string) list"

definition read_pipe :: "pipe \<Rightarrow> (io_error + string) \<times> pipe" where
  "read_pipe p =
     (case p of
        [] \<Rightarrow> (Inr [], [])
      | Inl e # rest \<Rightarrow> (Inl e, rest)
      | Inr bs # rest \<Rightarrow>
          (Inr (take READ_BUF_SIZE bs),
           if length bs \<le> READ_BUF_SIZE then rest else Inr (drop READ_BUF_SIZE bs) # rest))"

text \<open>One read of a pipe: end of file closes our side of it, other bytes become one frame.\<close>

definition pump ::
    "frame_encoder \<Rightarrow> (string \<Rightarrow> server_frame) \<Rightarrow> pipe \<Rightarrow> conn \<Rightarrow> (executor_error + pipe option) \<times> conn" where
  "pump ser mk p c =
     (case read_pipe p of
        (Inl e, _) \<Rightarrow> (Inl (ExecIo e), c)
      | (Inr bs, p') \<Rightarrow>
          if bs = [] then (Inr None, c)
          else (case send_frame ser (mk bs) c of
                  (Inl e, c') \<Rightarrow> (Inl (ExecProtocol e), c')
                | (Inr _, c') \<Rightarrow> (Inr (Some p'), c')))"

fun pipe_size :: "pipe option \<Rightarrow> nat" where
  "pipe_size None = 0"
| "pipe_size (Some []) = 1"
| "pipe_size (Some (Inl e # p)) = Suc (pipe_size (Some p))"
| "pipe_size (Some (Inr bs # p)) = Suc (length bs + pipe_size (Some p))"

lemma pump_size: "pump ser mk p c = (Inr p', c') \<Longrightarrow> pipe_size p' < pipe_size (Some p)"
  by (cases "Some p" rule: pipe_size.cases)
    (auto simp: pump_def read_pipe_def READ_BUF_SIZE_def split: if_splits prod.splits sum.splits)

text \<open>
  The loop over both pipes. Which pipe is served when both are open is up to the scheduler: the
  list \<open>sched\<close> says for each such turn whether standard output comes first.
\<close>

function stream_pipes ::
    "frame_encoder \<Rightarrow> bool list \<Rightarrow> pipe option \<Rightarrow> pipe option \<Rightarrow> conn \<Rightarrow> (executor_error + unit) \<times> conn" where
  "stream_pipes ser sched stdout stderr c =
     (case (stdout, stderr) of
        (Some out, Some err) \<Rightarrow>
          if (case sched of [] \<Rightarrow> True | b # _ \<Rightarrow> b)
          then (case pump ser StdoutChunk out c of
                  (Inl e, c') \<Rightarrow> (Inl e, c')
                | (Inr out', c') \<Rightarrow> stream_pipes ser (tl sched) out' stderr c')
          else (case pump ser StderrChunk err c of
                  (Inl e, c') \<Rightarrow> (Inl e, c')
                | (Inr err', c') \<Rightarrow> stream_pipes ser (tl sched) stdout err' c')
      | (Some out, None) \<Rightarrow>
          (case pump ser StdoutChunk out c of
             (Inl e, c') \<Rightarrow> (Inl e, c')
           | (Inr out', c') \<Rightarrow> stream_pipes ser sched out' None c')
      | (None, Some err) \<Rightarrow>
          (case pump ser StderrChunk err c of
             (Inl e, c') \<Rightarrow> (Inl e, c')
           | (Inr err', c') \<Rightarrow> stream_pipes ser sched None err' c')
      | (None, None) \<Rightarrow> (Inr (), c))"
  by pat_completeness auto
termination
  by (relation "measure (\<lambda>(ser, sched, stdout, stderr, c). pipe_size stdout + pipe_size stderr)")
    (auto dest: pump_size [OF sym])

declare stream_pipes.simps [simp del]

subsection \<open>Joining both directions\<close>

text \<open>
  A future as the select loop sees it: polled, it makes a step, or is ready with its result, or
  has to wait for the other side. The loop \<open>relay_until_output_ends\<close> as a step relation on the
  flag \<open>input_live\<close> and the two futures.
\<close>

datatype ('s, 't) poll = Waiting | Step 's | Ready 't

datatype ('i, 'o, 't) relay_state = Polling bool 'i 'o | Finished 't 'i

inductive relay_step ::
    "('i \<Rightarrow> ('i, 'i) poll) \<Rightarrow> ('o \<Rightarrow> ('o, 't) poll) \<Rightarrow> ('i, 'o, 't) relay_state \<Rightarrow> ('i, 'o, 't) relay_state \<Rightarrow> bool"
  for inp outp where
  output_step: "outp q = Step q' \<Longrightarrow> relay_step inp outp (Polling live i q) (Polling live i q')"
| output_ready: "outp q = Ready t \<Longrightarrow> relay_step inp outp (Polling live i q) (Finished t i)"
| input_step: "inp i = Step i' \<Longrightarrow> relay_step inp outp (Polling True i q) (Polling True i' q)"
| input_ready: "inp i = Ready i' \<Longrightarrow> relay_step inp outp (Polling True i q) (Polling False i' q)"

inductive_simps relay_step_Polling: "relay_step inp outp (Polling live i q) st"
inductive_cases relay_step_FinishedE: "relay_step inp outp (Finished t i) st"

text \<open>One turn of the loop over the client's frames, as a future.\<close>

definition stdin_poll :: "frame_decoder \<Rightarrow> sock \<times> writer \<Rightarrow> (sock \<times> writer, sock \<times> writer) poll" where
  "stdin_poll de = (\<lambda>(s, w).
     case sock_read_frame de s of
       (Inr (StdinChunk bytes), s') \<Rightarrow>
         (case write_all w bytes of (Inl _, w') \<Rightarrow> Ready (s', w') | (Inr _, w') \<Rightarrow> Step (s', w'))
     | (Inr StdinEof, s') \<Rightarrow> Ready (s', w)
     | (Inl _, s') \<Rightarrow> Ready (s', w))"

text \<open>Polling the input alone, at most \<open>n\<close> times.\<close>

fun run_polls :: "('s \<Rightarrow> ('s, 's) poll) \<Rightarrow> nat \<Rightarrow> 's \<Rightarrow> 's" where
  "run_polls f 0 s = s"
| "run_polls f (Suc n) s =
     (case f s of Waiting \<Rightarrow> s | Step s' \<Rightarrow> run_polls f n s' | Ready s' \<Rightarrow> s')"

text \<open>Polling the output alone until it is ready.\<close>

inductive output_runs :: "('o \<Rightarrow> ('o, 't) poll) \<Rightarrow> 'o \<Rightarrow> 't \<Rightarrow> bool" for outp where
  "outp q = Ready t \<Longrightarrow> output_runs outp q t"
| "outp q = Step q' \<Longrightarrow> output_runs outp q' t \<Longrightarrow> output_runs outp q t"

subsection \<open>The whole child\<close>

datatype exit_status = Exited i32 | Signaled i32 | StatusOther

definition status_code :: "exit_status \<Rightarrow> i32 option" where
  "status_code st = (case st of Exited c \<Rightarrow> Some c | _ \<Rightarrow> None)"

definition status_signal :: "exit_status \<Rightarrow> i32 option" where
  "status_signal st = (case st of Signaled n \<Rightarrow> Some n | _ \<Rightarrow> None)"

definition exit_code_from_status :: "exit_status \<Rightarrow> i32" where
  "exit_code_from_status st =
     (case status_code st of
        Some code \<Rightarrow> code
      | None \<Rightarrow> (case status_signal st of Some sig \<Rightarrow> SIGNAL_EXIT_OFFSET + sig | None \<Rightarrow> -1))"

text \<open>
  What a spawned child does: what its two pipes deliver, in which order the relay sees them, how
  many input frames are relayed before its output ends, how its standard input takes the writes,
  and what \<open>wait\<close> answers.
\<close>

record child_run =
  ch_stdout :: pipe
  ch_stderr :: pipe
  ch_sched :: "bool list"
  ch_input_turns :: nat
  ch_stdin :: "write_event list"
  ch_wait :: "io_error + exit_status"

type_synonym children = "command \<Rightarrow> proc \<Rightarrow> child_run"

text \<open>The process that ran, with what it received on its standard input.\<close>

record ran =
  ran_command :: command
  ran_proc :: proc
  ran_stdin :: string

definition stream_child ::
    "frame_encoder \<Rightarrow> frame_decoder \<Rightarrow> (string \<Rightarrow> string option) \<Rightarrow> kernel \<Rightarrow> proc \<Rightarrow> children \<Rightarrow>
     child_spec \<Rightarrow> sock \<Rightarrow> conn \<Rightarrow> (executor_error + unit) \<times> ran option \<times> sock \<times> conn" where
  "stream_child ser de getenv k daemon children spec frames_in c =
     (let cmd = apply_privilege_drop (p_euid daemon) spec (build_command getenv spec) in
        case spawn k cmd daemon of
          Inl err \<Rightarrow>
            (case send_frame ser (Denied (''failed to spawn '' @ [CHR 0x27] @ cs_program spec @ [CHR 0x27] @
                     '': '' @ io_text err)) c of
               (Inl e, c') \<Rightarrow> (Inl (ExecProtocol e), None, frames_in, c')
             | (Inr _, c') \<Rightarrow> (Inr (), None, frames_in, c'))
        | Inr p \<Rightarrow>
            let ch = children cmd p;
                (s', w') = run_polls (stdin_poll de) (ch_input_turns ch)
                             (frames_in, \<lparr>wr_out = [], wr_events = ch_stdin ch\<rparr>);
                r = Some \<lparr>ran_command = cmd, ran_proc = p, ran_stdin = wr_out w'\<rparr> in
              (case stream_pipes ser (ch_sched ch) (Some (ch_stdout ch)) (Some (ch_stderr ch)) c of
                 (Inl e, c') \<Rightarrow> (Inl e, r, s', c')
               | (Inr _, c') \<Rightarrow>
                   (case ch_wait ch of
                      Inl e \<Rightarrow> (Inl (ExecIo e), r, s', c')
                    | Inr status \<Rightarrow>
                        (case send_frame ser (Exit (exit_code_from_status status)) c' of
                           (Inl e, c'') \<Rightarrow> (Inl (ExecProtocol e), r, s', c'')
                         | (Inr _, c'') \<Rightarrow> (Inr (), r, s', c'')))))"

subsection \<open>Lemmas\<close>

lemma set_env_fields [simp]:
  "cmd_program (set_env vars cmd) = cmd_program cmd" "cmd_args (set_env vars cmd) = cmd_args cmd"
  "cmd_cwd (set_env vars cmd) = cmd_cwd cmd" "cmd_pre_exec (set_env vars cmd) = cmd_pre_exec cmd"
  unfolding set_env_def by (induction vars arbitrary: cmd) auto

lemma set_env_env: "cmd_env (set_env vars cmd) = cmd_env cmd ++ map_of (rev vars)"
  unfolding set_env_def
proof (induction vars arbitrary: cmd)
  case Nil
  then show ?case by simp
next
  case (Cons kv vars)
  then show ?case by (cases kv) (simp add: map_add_def fun_eq_iff split: option.split)
qed

lemma build_command_fields [simp]:
  "cmd_program (build_command getenv spec) = cs_program spec"
  "cmd_args (build_command getenv spec) = cs_args spec"
  "cmd_cwd (build_command getenv spec) = cs_cwd spec"
  "cmd_pre_exec (build_command getenv spec) = []"
  by (simp_all add: build_command_def Let_def split: option.split)

definition drops :: "u32 \<Rightarrow> child_spec \<Rightarrow> bool" where
  "drops own_euid spec =
     (case (cs_uid spec, cs_gid spec) of (Some uid, Some gid) \<Rightarrow> uid \<noteq> 0 \<and> uid \<noteq> own_euid | _ \<Rightarrow> False)"

lemma apply_privilege_drop_skip [simp]:
  "\<not> drops own spec \<Longrightarrow> apply_privilege_drop own spec cmd = cmd"
  by (auto simp: drops_def apply_privilege_drop_def split: option.splits)

lemma apply_privilege_drop_fields [simp]:
  "cmd_program (apply_privilege_drop own spec cmd) = cmd_program cmd"
  "cmd_args (apply_privilege_drop own spec cmd) = cmd_args cmd"
  by (auto simp: apply_privilege_drop_def Let_def split: option.splits)

lemma send_frame_result:
  "send_frame ser v c = (r, c') \<Longrightarrow> cn_in c' = cn_in c \<and> cn_shut c' = cn_shut c \<and>
     cn_sent c' = cn_sent c @ (case r of Inl _ \<Rightarrow> [] | Inr _ \<Rightarrow> [v])"
  by (auto simp: send_frame_def split: prod.splits sum.splits)

lemma send_frame_append: "\<exists>new. cn_sent (snd (send_frame ser v c)) = cn_sent c @ new"
  using send_frame_result [of ser v c "fst (send_frame ser v c)" "snd (send_frame ser v c)"] by auto

interpretation frames_sent: append_only cn_sent "\<lambda>v c. snd (send_frame ser v c)" for ser
  by unfold_locales (rule send_frame_append)

text \<open>
  Where a run of the select loop stands: the input has been polled some number of times on its
  own, and is still running as long as the flag says so; the output goes on as if it were alone.
\<close>

definition relay_inv ::
    "('i \<Rightarrow> ('i, 'i) poll) \<Rightarrow> ('o \<Rightarrow> ('o, 't) poll) \<Rightarrow> 'i \<Rightarrow> 'o \<Rightarrow> ('i, 'o, 't) relay_state \<Rightarrow> bool" where
  "relay_inv inp outp i q st \<longleftrightarrow>
     (case st of
        Polling live i' q' \<Rightarrow>
          (\<exists>n. i' = run_polls inp n i \<and> (live \<longrightarrow> (\<forall>m. run_polls inp (n + m) i = run_polls inp m i'))) \<and>
          (\<forall>t. output_runs outp q' t \<longrightarrow> output_runs outp q t)
      | Finished t i' \<Rightarrow> (\<exists>n. i' = run_polls inp n i) \<and> output_runs outp q t)"

lemma relay_inv_step:
  assumes "relay_inv inp outp i q st" "relay_step inp outp st st'"
  shows "relay_inv inp outp i q st'"
  using assms(2,1)
proof cases
  case (output_step q1 q2 live i1)
  with assms(1) show ?thesis by (auto simp: relay_inv_def intro: output_runs.intros)
next
  case (output_ready q1 t live i1)
  with assms(1) show ?thesis by (auto simp: relay_inv_def intro: output_runs.intros)
next
  case (input_step i1 i2 q1)
  with assms(1) obtain n where n: "\<And>m. run_polls inp (n + m) i = run_polls inp m i1"
    by (auto simp: relay_inv_def)
  have "run_polls inp (Suc n) i = i2" using n [of 1] input_step(3) by simp
  moreover have "run_polls inp (Suc n + m) i = run_polls inp m i2" for m
    using n [of "Suc m"] input_step(3) by simp
  ultimately show ?thesis using assms(1) input_step
    by (auto simp: relay_inv_def intro!: exI [of _ "Suc n"])
next
  case (input_ready i1 i2 q1)
  with assms(1) obtain n where n: "\<And>m. run_polls inp (n + m) i = run_polls inp m i1"
    by (auto simp: relay_inv_def)
  have "run_polls inp (Suc n) i = i2" using n [of 1] input_ready(3) by simp
  then show ?thesis using assms(1) input_ready
    by (auto simp: relay_inv_def intro!: exI [of _ "Suc n"])
qed

lemma relay_inv_run:
  assumes "(relay_step inp outp)\<^sup>*\<^sup>* (Polling True i q) st"
  shows "relay_inv inp outp i q st"
  using assms
proof (induction rule: rtranclp_induct)
  case base
  then show ?case by (auto simp: relay_inv_def intro!: exI [of _ 0])
next
  case (step st st')
  then show ?case by (blast intro: relay_inv_step)
qed

text \<open>What a pipe delivers before it ends or fails, and what a list of frames carries of each stream.\<close>

fun pipe_bytes :: "pipe option \<Rightarrow> string" where
  "pipe_bytes (Some (Inr bs # p)) = bs @ pipe_bytes (Some p)"
| "pipe_bytes _ = []"

definition pipe_ok :: "pipe option \<Rightarrow> bool" where
  "pipe_ok p = (case p of None \<Rightarrow> True | Some q \<Rightarrow> list_all (\<lambda>x. x \<noteq> Inr []) q)"

definition out_bytes :: "server_frame list \<Rightarrow> string" where
  "out_bytes fs = concat (map (\<lambda>f. case f of StdoutChunk d \<Rightarrow> d | _ \<Rightarrow> []) fs)"

definition err_bytes :: "server_frame list \<Rightarrow> string" where
  "err_bytes fs = concat (map (\<lambda>f. case f of StderrChunk d \<Rightarrow> d | _ \<Rightarrow> []) fs)"

definition chunk_ok :: "server_frame \<Rightarrow> bool" where
  "chunk_ok f =
     (case f of
        StdoutChunk d \<Rightarrow> d \<noteq> [] \<and> length d \<le> READ_BUF_SIZE
      | StderrChunk d \<Rightarrow> d \<noteq> [] \<and> length d \<le> READ_BUF_SIZE
      | _ \<Rightarrow> False)"

lemma bytes_simps [simp]:
  "out_bytes [] = []" "err_bytes [] = []"
  "out_bytes (a @ b) = out_bytes a @ out_bytes b" "err_bytes (a @ b) = err_bytes a @ err_bytes b"
  "out_bytes [StdoutChunk d] = d" "out_bytes [StderrChunk d] = []"
  "err_bytes [StderrChunk d] = d" "err_bytes [StdoutChunk d] = []"
  by (simp_all add: out_bytes_def err_bytes_def)

lemma pipe_bytes_None [simp]: "pipe_bytes None = []"
  by simp

lemma read_pipe_spec:
  assumes "read_pipe p = (Inr bs, p')" "pipe_ok (Some p)"
  shows "pipe_ok (Some p') \<and> pipe_bytes (Some p) = bs @ pipe_bytes (Some p') \<and> length bs \<le> READ_BUF_SIZE \<and>
    (bs = [] \<longrightarrow> p = [])"
proof (cases p)
  case Nil
  with assms show ?thesis by (simp add: read_pipe_def READ_BUF_SIZE_def)
next
  case (Cons x q)
  show ?thesis
  proof (cases x)
    case (Inl e)
    with assms Cons show ?thesis by (simp add: read_pipe_def)
  next
    case (Inr cs)
    with assms Cons have "bs = take READ_BUF_SIZE cs" "cs \<noteq> []"
      "p' = (if length cs \<le> READ_BUF_SIZE then q else Inr (drop READ_BUF_SIZE cs) # q)"
      by (auto simp: read_pipe_def pipe_ok_def)
    with assms(2) Cons Inr show ?thesis
      by (auto simp: pipe_ok_def READ_BUF_SIZE_def append_assoc [symmetric] simp del: append_assoc)
  qed
qed

lemma pump_spec:
  assumes "pump ser mk p c = (r, c')" "pipe_ok (Some p)"
  shows "cn_in c' = cn_in c \<and> cn_shut c' = cn_shut c \<and>
    (case r of
       Inl e \<Rightarrow> cn_sent c' = cn_sent c
     | Inr None \<Rightarrow> cn_sent c' = cn_sent c \<and> p = []
     | Inr (Some p') \<Rightarrow> pipe_ok (Some p') \<and>
         (\<exists>bs. bs \<noteq> [] \<and> length bs \<le> READ_BUF_SIZE \<and> cn_sent c' = cn_sent c @ [mk bs] \<and>
            pipe_bytes (Some p) = bs @ pipe_bytes (Some p')))"
proof -
  obtain rd p' where rd: "read_pipe p = (rd, p')" by fastforce
  show ?thesis
  proof (cases rd)
    case (Inl e)
    with assms rd show ?thesis by (auto simp: pump_def)
  next
    case (Inr bs)
    from read_pipe_spec [OF rd [unfolded Inr] assms(2)] have b: "pipe_ok (Some p')"
      "pipe_bytes (Some p) = bs @ pipe_bytes (Some p')" "length bs \<le> READ_BUF_SIZE" "bs = [] \<longrightarrow> p = []"
      by blast+
    obtain sr c1 where sr: "send_frame ser (mk bs) c = (sr, c1)" by fastforce
    from assms(1) rd Inr sr have "(r, c') =
        (if bs = [] then (Inr None, c) else case sr of Inl e \<Rightarrow> (Inl (ExecProtocol e), c1) | Inr _ \<Rightarrow> (Inr (Some p'), c1))"
      by (auto simp: pump_def split: sum.splits)
    with b send_frame_result [OF sr] show ?thesis
      by (cases sr; cases "bs = []") auto
  qed
qed

text \<open>
  What a run of the pipe loop has relayed: one side \<open>a\<close> and the other side \<open>b\<close>, so that the two
  pipes are treated alike.
\<close>

definition relayed ::
    "(server_frame list \<Rightarrow> string) \<Rightarrow> (server_frame list \<Rightarrow> string) \<Rightarrow> pipe option \<Rightarrow> pipe option \<Rightarrow>
     (executor_error + unit) \<Rightarrow> server_frame list \<Rightarrow> bool" where
  "relayed a b p q r new \<longleftrightarrow>
     list_all chunk_ok new \<and>
     (\<exists>rest. pipe_bytes p = a new @ rest \<and> (r = Inr () \<longrightarrow> rest = [])) \<and>
     (\<exists>rest. pipe_bytes q = b new @ rest \<and> (r = Inr () \<longrightarrow> rest = []))"

lemma relayed_swap: "relayed a b p q r new = relayed b a q p r new"
  by (auto simp: relayed_def)

definition extends :: "conn \<Rightarrow> server_frame list \<Rightarrow> conn \<Rightarrow> bool" where
  "extends c new c' \<longleftrightarrow> cn_sent c' = cn_sent c @ new \<and> cn_in c' = cn_in c \<and> cn_shut c' = cn_shut c"

lemma extends_trans: "extends c xs c1 \<Longrightarrow> extends c1 ys c2 \<Longrightarrow> extends c (xs @ ys) c2"
  by (simp add: extends_def)

lemma stream_pipes_turn:
  assumes ok: "pipe_ok (Some p)"
    and a: "\<And>d new. a (mk d # new) = d @ a new" "\<And>d new. b (mk d # new) = b new" "a [] = []" "b [] = []"
    and mk: "\<And>d. d \<noteq> [] \<Longrightarrow> length d \<le> READ_BUF_SIZE \<Longrightarrow> chunk_ok (mk d)"
    and IH: "\<And>p' c1. pump ser mk p c = (Inr p', c1) \<Longrightarrow> pipe_ok p' \<Longrightarrow>
      \<exists>new. extends c1 new (snd (F p' c1)) \<and> relayed a b p' q (fst (F p' c1)) new"
    and res: "(r, c') = (case pump ser mk p c of (Inl e, c1) \<Rightarrow> (Inl e, c1) | (Inr p', c1) \<Rightarrow> F p' c1)"
  shows "\<exists>new. extends c new c' \<and> relayed a b (Some p) q r new"
proof -
  obtain pr c1 where pr: "pump ser mk p c = (pr, c1)" by fastforce
  note sp = pump_spec [OF pr ok]
  show ?thesis
  proof (cases pr)
    case (Inl e)
    with res pr sp a show ?thesis by (intro exI [of _ "[]"]) (simp add: relayed_def extends_def)
  next
    case (Inr p')
    have okp: "pipe_ok p'" using sp Inr by (cases p') (simp_all add: pipe_ok_def)
    have "F p' c1 = (r, c')" using res pr Inr by simp
    with IH [OF pr [unfolded Inr] okp] obtain new where
      new: "extends c1 new c'" "relayed a b p' q r new" by auto
    show ?thesis
    proof (cases p')
      case None
      with new sp Inr show ?thesis by (intro exI [of _ new]) (simp add: relayed_def extends_def)
    next
      case (Some p1)
      with sp Inr obtain bs where bs: "bs \<noteq> []" "length bs \<le> READ_BUF_SIZE"
        "extends c [mk bs] c1" "pipe_bytes (Some p) = bs @ pipe_bytes (Some p1)"
        by (auto simp: extends_def)
      have "extends c (mk bs # new) c'" using extends_trans [OF bs(3) new(1)] by simp
      moreover have "relayed a b (Some p) q r (mk bs # new)"
        using new(2) bs(1,2,4) mk Some by (auto simp: relayed_def a)
      ultimately show ?thesis by blast
    qed
  qed
qed

lemma bytes_Cons:
  "out_bytes (StdoutChunk d # new) = d @ out_bytes new" "out_bytes (StderrChunk d # new) = out_bytes new"
  "err_bytes (StderrChunk d # new) = d @ err_bytes new" "err_bytes (StdoutChunk d # new) = err_bytes new"
  by (simp_all add: out_bytes_def err_bytes_def)

lemma chunk_ok_simps:
  "chunk_ok (StdoutChunk d) \<longleftrightarrow> d \<noteq> [] \<and> length d \<le> READ_BUF_SIZE"
  "chunk_ok (StderrChunk d) \<longleftrightarrow> d \<noteq> [] \<and> length d \<le> READ_BUF_SIZE"
  by (simp_all add: chunk_ok_def)

lemmas stream_pipes_out = stream_pipes_turn [where mk = StdoutChunk and a = out_bytes and b = err_bytes,
    OF _ bytes_Cons(1,4) bytes_simps(1,2)]
lemmas stream_pipes_err = stream_pipes_turn [where mk = StderrChunk and a = err_bytes and b = out_bytes,
    OF _ bytes_Cons(3,2) bytes_simps(2,1)]

lemma stream_pipes_cases:
  "stream_pipes ser sched None None c = (Inr (), c)"
  "stream_pipes ser sched (Some out) None c =
     (case pump ser StdoutChunk out c of (Inl e, c1) \<Rightarrow> (Inl e, c1)
      | (Inr p', c1) \<Rightarrow> stream_pipes ser sched p' None c1)"
  "stream_pipes ser sched None (Some err) c =
     (case pump ser StderrChunk err c of (Inl e, c1) \<Rightarrow> (Inl e, c1)
      | (Inr p', c1) \<Rightarrow> stream_pipes ser sched None p' c1)"
  "stream_pipes ser sched (Some out) (Some err) c =
     (if (case sched of [] \<Rightarrow> True | b # _ \<Rightarrow> b)
      then (case pump ser StdoutChunk out c of (Inl e, c1) \<Rightarrow> (Inl e, c1)
            | (Inr p', c1) \<Rightarrow> stream_pipes ser (tl sched) p' (Some err) c1)
      else (case pump ser StderrChunk err c of (Inl e, c1) \<Rightarrow> (Inl e, c1)
            | (Inr p', c1) \<Rightarrow> stream_pipes ser (tl sched) (Some out) p' c1))"
  by (subst stream_pipes.simps, simp)+

definition relays :: "frame_encoder \<Rightarrow> bool list \<Rightarrow> pipe option \<Rightarrow> pipe option \<Rightarrow> conn \<Rightarrow> bool" where
  "relays ser sched stdout stderr c \<longleftrightarrow>
     (\<exists>new. extends c new (snd (stream_pipes ser sched stdout stderr c)) \<and>
        relayed out_bytes err_bytes stdout stderr (fst (stream_pipes ser sched stdout stderr c)) new)"

lemma relays_out:
  assumes "pipe_ok (Some out)"
    and "\<And>p' c1. pump ser StdoutChunk out c = (Inr p', c1) \<Longrightarrow> pipe_ok p' \<Longrightarrow> relays ser sched' p' stderr c1"
    and "stream_pipes ser sched (Some out) stderr c =
      (case pump ser StdoutChunk out c of (Inl e, c1) \<Rightarrow> (Inl e, c1)
       | (Inr p', c1) \<Rightarrow> stream_pipes ser sched' p' stderr c1)"
  shows "relays ser sched (Some out) stderr c"
  using stream_pipes_out [OF assms(1), of ser c "\<lambda>p' c1. stream_pipes ser sched' p' stderr c1" stderr] assms(2,3)
  by (auto simp: relays_def chunk_ok_simps)

lemma relays_err:
  assumes "pipe_ok (Some err)"
    and "\<And>p' c1. pump ser StderrChunk err c = (Inr p', c1) \<Longrightarrow> pipe_ok p' \<Longrightarrow> relays ser sched' stdout p' c1"
    and "stream_pipes ser sched stdout (Some err) c =
      (case pump ser StderrChunk err c of (Inl e, c1) \<Rightarrow> (Inl e, c1)
       | (Inr p', c1) \<Rightarrow> stream_pipes ser sched' stdout p' c1)"
  shows "relays ser sched stdout (Some err) c"
  using stream_pipes_err [OF assms(1), of ser c "\<lambda>p' c1. stream_pipes ser sched' stdout p' c1" stdout] assms(2,3)
  by (auto simp: relays_def chunk_ok_simps relayed_swap [of out_bytes])

lemma stream_pipes_relays:
  assumes "pipe_ok stdout" "pipe_ok stderr"
  shows "relays ser sched stdout stderr c"
  using assms
proof (induction "pipe_size stdout + pipe_size stderr" arbitrary: sched stdout stderr c rule: less_induct)
  case (less stdout stderr sched c)
  have out: "relays ser sched' p' stderr c1" if "stdout = Some out" "pump ser StdoutChunk out c = (Inr p', c1)" "pipe_ok p'"
    for out p' c1 sched'
    using less.hyps [of p' stderr sched' c1] pump_size [OF that(2)] that less.prems by simp
  have err: "relays ser sched' stdout p' c1" if "stderr = Some err" "pump ser StderrChunk err c = (Inr p', c1)" "pipe_ok p'"
    for err p' c1 sched'
    using less.hyps [of stdout p' sched' c1] pump_size [OF that(2)] that less.prems by simp
  show ?case
  proof (cases stdout; cases stderr)
    fix p q assume pq: "stdout = Some p" "stderr = Some q"
    show ?thesis
    proof (cases "case sched of [] \<Rightarrow> True | b # _ \<Rightarrow> b")
      case True
      then have "stream_pipes ser sched (Some p) (Some q) c =
          (case pump ser StdoutChunk p c of (Inl e, c1) \<Rightarrow> (Inl e, c1)
           | (Inr p', c1) \<Rightarrow> stream_pipes ser (tl sched) p' (Some q) c1)"
        by (simp only: stream_pipes_cases if_True)
      from relays_out [OF _ _ this] pq less.prems out show ?thesis by simp
    next
      case False
      then have "stream_pipes ser sched (Some p) (Some q) c =
          (case pump ser StderrChunk q c of (Inl e, c1) \<Rightarrow> (Inl e, c1)
           | (Inr p', c1) \<Rightarrow> stream_pipes ser (tl sched) (Some p) p' c1)"
        by (simp only: stream_pipes_cases if_False)
      from relays_err [OF _ _ this] pq less.prems err show ?thesis by simp
    qed
  next
    assume "stdout = None" "stderr = None"
    then show ?thesis by (auto simp: relays_def stream_pipes_cases extends_def relayed_def)
  next
    fix p assume "stdout = Some p" "stderr = None"
    with relays_out [OF _ _ stream_pipes_cases(2)] less.prems out show ?thesis by simp
  next
    fix q assume "stdout = None" "stderr = Some q"
    with relays_err [OF _ _ stream_pipes_cases(3)] less.prems err show ?thesis by simp
  qed
qed

lemma spawn_ok:
  "spawn k cmd d = Inr p \<longleftrightarrow>
     k_fork k = None \<and> k_grants k (ChDir (cmd_cwd cmd)) d \<and>
     run_pre_exec k (cmd_pre_exec cmd) (d\<lparr>p_cwd := cmd_cwd cmd\<rparr>) = Inr p \<and> k_exec k cmd p = None"
  by (auto simp: spawn_def split: option.splits sum.splits)

text \<open>The identity a child is meant to have.\<close>

definition dropped :: "child_spec \<Rightarrow> u32 \<Rightarrow> u32 \<Rightarrow> path \<Rightarrow> proc" where
  "dropped spec uid gid dir =
     \<lparr>p_ruid = uid, p_euid = uid, p_suid = uid, p_rgid = gid, p_egid = gid, p_sgid = gid,
      p_groups = cs_supplementary_gids spec, p_cwd = dir\<rparr>"

lemma drops_iff:
  "drops own spec \<longleftrightarrow> (\<exists>uid gid. cs_uid spec = Some uid \<and> cs_gid spec = Some gid \<and> uid \<noteq> 0 \<and> uid \<noteq> own)"
  by (auto simp: drops_def split: option.splits)

lemma spawn_dropped:
  assumes "spawn k (apply_privilege_drop own spec cmd) d = Inr p"
    and "cs_uid spec = Some uid" "cs_gid spec = Some gid" "uid \<noteq> 0" "uid \<noteq> own"
  shows "p = dropped spec uid gid (cs_cwd spec) \<and>
    k_grants k (SetGroups (cs_supplementary_gids spec)) (d\<lparr>p_cwd := ''/''\<rparr>) \<and>
    k_grants k (ChDir (cs_cwd spec)) (dropped spec uid gid ''/'')"
proof -
  have "cmd_cwd (apply_privilege_drop own spec cmd) = ''/''"
    "cmd_pre_exec (apply_privilege_drop own spec cmd) =
       [SetGroups (cs_supplementary_gids spec), SetResGid gid gid gid, SetResUid uid uid uid, ChDir (cs_cwd spec)]"
    using assms(2-5) by (simp_all add: apply_privilege_drop_def Let_def)
  with assms(1) show ?thesis
    by (cases d) (auto simp: spawn_ok dropped_def split: if_splits)
qed

lemma stream_child_spawned:
  assumes "stream_child ser de getenv k d children spec s c = (r, Some rn, s', c')"
  shows "ran_command rn = apply_privilege_drop (p_euid d) spec (build_command getenv spec) \<and>
    spawn k (ran_command rn) d = Inr (ran_proc rn)"
  using assms by (auto simp: stream_child_def Let_def split: sum.splits prod.splits)

lemma stream_child_runs:
  assumes "spawn k (apply_privilege_drop (p_euid d) spec (build_command getenv spec)) d = Inr p"
  shows "\<exists>r q s' c'. stream_child ser de getenv k d children spec s c = (r, Some q, s', c')"
  using assms by (simp add: stream_child_def Let_def split: prod.split sum.split)

lemma run_polls_stdin_prefix:
  "\<exists>more. wr_out (snd (relay_loop de s w)) = wr_out (snd (run_polls (stdin_poll de) n (s, w))) @ more"
proof (induction de s w arbitrary: n rule: relay_loop.induct)
  case (1 de s w)
  have ext: "\<exists>more. wr_out (snd (relay_loop de s w)) = wr_out w @ more" for s w
  proof (induction de s w rule: relay_loop.induct)
    case (1 de s w)
    have wa: "write_all w bs = (r, w') \<Longrightarrow> \<exists>m. wr_out w' = wr_out w @ m" for bs r w'
      by (auto simp: write_all_def split: list.splits write_event.splits)
    show ?case
      using "1.IH" wa
      by (subst relay_loop.simps) (fastforce split: prod.splits sum.splits client_frame.splits)
  qed
  show ?case
  proof (cases n)
    case 0
    with ext show ?thesis by simp
  next
    case (Suc m)
    obtain fr s1 where fr: "sock_read_frame de s = (fr, s1)" by fastforce
    show ?thesis
    proof (cases "\<exists>bs w1. fr = Inr (StdinChunk bs) \<and> write_all w bs = (Inr (), w1)")
      case True
      then obtain bs w1 where bs: "fr = Inr (StdinChunk bs)" "write_all w bs = (Inr (), w1)" by blast
      from "1.IH" [OF fr [symmetric] bs(1) refl bs(2) [symmetric] refl, of m]
      show ?thesis using fr bs Suc
        by (subst relay_loop.simps) (simp add: stdin_poll_def)
    next
      case False
      then show ?thesis using fr Suc
        by (subst relay_loop.simps)
          (auto simp: stdin_poll_def split: sum.splits client_frame.splits prod.splits)
    qed
  qed
qed

lemma relay_loop_frames:
  assumes "write_frames ser w0 (map StdinChunk cs @ [StdinEof]) = (Inr u, w1)"
    and "\<And>v body. ser v = Inr body \<Longrightarrow> de body = Inr v"
    and "sock_ok s" and "wr_out w0 @ sock_content s = wr_out w1 @ rest" and "wr_events w = []"
  shows "\<exists>s'. relay_loop de s w = (s', w\<lparr>wr_out := wr_out w @ concat cs\<rparr>) \<and> sock_ok s' \<and> sock_content s' = rest"
  using assms
proof (induction cs arbitrary: w0 s w)
  case Nil
  from read_frames_written [OF Nil.prems(1) _ Nil.prems(3,4), of de] Nil.prems(2)
  obtain s1 where "read_frames de (length (map StdinChunk [] @ [StdinEof])) s = (Inr [StdinEof], s1)"
    "sock_ok s1" "sock_content s1 = rest" by auto
  then show ?case
    by (subst relay_loop.simps) (auto split: prod.splits sum.splits)
next
  case (Cons bs cs)
  from Cons.prems(1) obtain w2 u2 where w2: "write_frame ser w0 (StdinChunk bs) = (Inr u2, w2)"
    "write_frames ser w2 (map StdinChunk cs @ [StdinEof]) = (Inr u, w1)"
    by (auto split: prod.splits sum.splits)
  from write_frame_ok [OF w2(1)] obtain body where b: "ser (StdinChunk bs) = Inr body"
    "length body \<le> unat MAX_FRAME_LEN" "wr_out w2 = wr_out w0 @ frame_bytes body" by blast
  obtain tail where t: "wr_out w1 = wr_out w2 @ tail" using write_frames_extends [OF w2(2)] by blast
  have "sock_content s = frame_bytes body @ (tail @ rest)" using Cons.prems(4) b(3) t by simp
  from read_frame_written [OF Cons.prems(3) this b(2), of de] Cons.prems(2) [OF b(1)] obtain s1 where
    s1: "sock_read_frame de s = (Inr (StdinChunk bs), s1)" "sock_ok s1" "sock_content s1 = tail @ rest" by auto
  have wa: "write_all w bs = (Inr (), w\<lparr>wr_out := wr_out w @ bs\<rparr>)"
    using Cons.prems(5) by (simp add: write_all_def)
  have "relay_loop de s w = relay_loop de s1 (w\<lparr>wr_out := wr_out w @ bs\<rparr>)"
    using s1(1) wa by (subst relay_loop.simps) simp
  moreover have "wr_out w2 @ sock_content s1 = wr_out w1 @ rest" using s1(3) t by simp
  ultimately show ?case
    using Cons.IH [OF w2(2) Cons.prems(2) s1(2), of "w\<lparr>wr_out := wr_out w @ bs\<rparr>"] Cons.prems(5) by simp
qed

lemma stream_child_sent:
  assumes run: "stream_child ser de getenv k d children spec s c = (r, rn, s', c')"
    and ok: "\<And>cmd p. pipe_ok (Some (ch_stdout (children cmd p))) \<and> pipe_ok (Some (ch_stderr (children cmd p)))"
  shows "cn_in c' = cn_in c \<and> cn_shut c' = cn_shut c \<and>
    (case rn of
       None \<Rightarrow> cn_sent c' = cn_sent c @
         (case (r, spawn k (apply_privilege_drop (p_euid d) spec (build_command getenv spec)) d) of
            (Inr _, Inl err) \<Rightarrow> [Denied (''failed to spawn '' @ [CHR 0x27] @ cs_program spec @ [CHR 0x27] @ '': '' @ io_text err)]
          | _ \<Rightarrow> [])
     | Some q \<Rightarrow>
         \<exists>chunks. list_all chunk_ok chunks \<and>
           (case r of
              Inl _ \<Rightarrow> cn_sent c' = cn_sent c @ chunks
            | Inr _ \<Rightarrow>
                \<exists>status. ch_wait (children (ran_command q) (ran_proc q)) = Inr status \<and>
                  cn_sent c' = cn_sent c @ chunks @ [Exit (exit_code_from_status status)] \<and>
                  out_bytes chunks = pipe_bytes (Some (ch_stdout (children (ran_command q) (ran_proc q)))) \<and>
                  err_bytes chunks = pipe_bytes (Some (ch_stderr (children (ran_command q) (ran_proc q))))))"
proof -
  let ?cmd = "apply_privilege_drop (p_euid d) spec (build_command getenv spec)"
  show ?thesis
  proof (cases "spawn k ?cmd d")
    case (Inl err)
    let ?v = "Denied (''failed to spawn '' @ [CHR 0x27] @ cs_program spec @ [CHR 0x27] @ '': '' @ io_text err)"
    obtain sr c1 where sr: "send_frame ser ?v c = (sr, c1)" by fastforce
    have "(r, rn, s', c') = (case sr of Inl e \<Rightarrow> (Inl (ExecProtocol e), None, s, c1) | Inr _ \<Rightarrow> (Inr (), None, s, c1))"
      using run Inl sr by (simp only: stream_child_def Let_def sum.case prod.case)
    with send_frame_result [OF sr] Inl show ?thesis by (cases sr) auto
  next
    case (Inr p)
    define ch where "ch = children ?cmd p"
    obtain pr c1 where pr: "stream_pipes ser (ch_sched ch) (Some (ch_stdout ch)) (Some (ch_stderr ch)) c = (pr, c1)"
      by fastforce
    have "relays ser (ch_sched ch) (Some (ch_stdout ch)) (Some (ch_stderr ch)) c"
      using ok by (intro stream_pipes_relays) (simp_all add: ch_def)
    with pr obtain chunks where chunks: "extends c chunks c1"
      "relayed out_bytes err_bytes (Some (ch_stdout ch)) (Some (ch_stderr ch)) pr chunks"
      by (auto simp: relays_def)
    obtain q where q: "rn = Some q" "ran_command q = ?cmd" "ran_proc q = p"
      using run Inr by (auto simp: stream_child_def Let_def split: prod.splits sum.splits)
    have "(r, c') =
        (case pr of
           Inl e \<Rightarrow> (Inl e, c1)
         | Inr _ \<Rightarrow>
             (case ch_wait ch of
                Inl e \<Rightarrow> (Inl (ExecIo e), c1)
              | Inr status \<Rightarrow>
                  (case send_frame ser (Exit (exit_code_from_status status)) c1 of
                     (Inl e, c2) \<Rightarrow> (Inl (ExecProtocol e), c2)
                   | (Inr _, c2) \<Rightarrow> (Inr (), c2))))"
      using run Inr pr by (auto simp: stream_child_def Let_def ch_def split: prod.splits sum.splits)
    then consider (fail) "isl r" "c' = c1"
      | (exit) status sr where "ch_wait ch = Inr status" "pr = Inr ()"
          "send_frame ser (Exit (exit_code_from_status status)) c1 = (sr, c')" "isl r \<longleftrightarrow> isl sr"
      by (auto split: sum.splits prod.splits)
    then show ?thesis
    proof cases
      case fail
      with chunks q show ?thesis by (cases r) (auto simp: extends_def relayed_def)
    next
      case (exit status sr)
      from send_frame_result [OF exit(3)] exit(4) chunks q show ?thesis
        using exit(1,2) by (cases r; cases sr) (auto simp: extends_def relayed_def ch_def)
    qed
  qed
qed

lemma child_env_aux:
  "cmd_env (apply_privilege_drop own spec (build_command getenv spec)) key =
     (case map_of (rev (cs_env spec)) key of
        Some v \<Rightarrow> Some v
      | None \<Rightarrow>
          if key = ''PATH'' then getenv ''PATH''
          else if key = ''HOME'' \<and> drops own spec then cs_home spec
          else None)"
proof -
  have mem: "list_ex (\<lambda>(k, _). k = n) (cs_env spec) \<longleftrightarrow> map_of (rev (cs_env spec)) n \<noteq> None" for n
    by (force simp: list_ex_iff map_of_eq_None_iff image_iff)
  have b: "cmd_env (build_command getenv spec) key =
      (case map_of (rev (cs_env spec)) key of
         Some v \<Rightarrow> Some v | None \<Rightarrow> if key = ''PATH'' then getenv ''PATH'' else None)"
    by (auto simp: build_command_def Let_def mem set_env_env map_add_def split: option.splits)
  show ?thesis
  proof (cases "drops own spec")
    case False
    with b show ?thesis by (auto split: option.splits)
  next
    case True
    then obtain uid gid where "cs_uid spec = Some uid" "cs_gid spec = Some gid" "uid \<noteq> 0" "uid \<noteq> own"
      by (auto simp: drops_iff)
    then have "cmd_env (apply_privilege_drop own spec (build_command getenv spec)) key =
        (if key = ''HOME'' \<and> map_of (rev (cs_env spec)) key = None \<and> cs_home spec \<noteq> None then cs_home spec
         else cmd_env (build_command getenv spec) key)"
      by (auto simp: apply_privilege_drop_def Let_def mem split: option.splits)
    with b True show ?thesis by (auto split: option.splits)
  qed
qed

subsection \<open>Properties\<close>

text \<open>
  C22. The privilege drop is all or nothing: when a child runs for a caller other than root and the
  daemon itself, its real, effective and saved user and group ids are the caller's, its
  supplementary groups are the caller's and it stands in the requested directory. The groups were
  set while the process still had the daemon's identity and the directory was entered with the
  caller's. Otherwise nothing of the daemon's identity was changed.
\<close>

theorem privilege_drop_fail_closed:
  assumes "spawn k (apply_privilege_drop (p_euid d) spec (build_command getenv spec)) d = Inr p"
  shows "(case (cs_uid spec, cs_gid spec) of
      (Some uid, Some gid) \<Rightarrow>
        if uid = 0 \<or> uid = p_euid d then p = d\<lparr>p_cwd := cs_cwd spec\<rparr>
        else p = dropped spec uid gid (cs_cwd spec) \<and>
          k_grants k (SetGroups (cs_supplementary_gids spec)) (d\<lparr>p_cwd := ''/''\<rparr>) \<and>
          k_grants k (ChDir (cs_cwd spec)) (dropped spec uid gid ''/'')
    | _ \<Rightarrow> p = d\<lparr>p_cwd := cs_cwd spec\<rparr>)"
proof (cases "drops (p_euid d) spec")
  case True
  then obtain uid gid where "cs_uid spec = Some uid" "cs_gid spec = Some gid" "uid \<noteq> 0" "uid \<noteq> p_euid d"
    by (auto simp: drops_iff)
  with spawn_dropped [OF assms this] show ?thesis by simp
next
  case False
  with assms have "p = d\<lparr>p_cwd := cs_cwd spec\<rparr>" by (simp add: spawn_ok)
  with False show ?thesis by (auto simp: drops_def split: option.splits)
qed

definition example_spec :: child_spec where
  "example_spec =
     \<lparr>cs_program = ''git'', cs_args = [''push''], cs_env = [(''A'', ''1'')], cs_cwd = ''/home/alice/w'',
      cs_uid = Some 1000, cs_gid = Some 1000, cs_supplementary_gids = [1000, 27], cs_home = Some ''/home/alice''\<rparr>"

definition example_kernel :: kernel where
  "example_kernel =
     \<lparr>k_fork = None, k_grants = (\<lambda>_ _. True), k_chdir_error = drop_error, k_exec = (\<lambda>_ _. None)\<rparr>"

definition example_daemon :: proc where
  "example_daemon =
     \<lparr>p_ruid = 990, p_euid = 990, p_suid = 990, p_rgid = 990, p_egid = 990, p_sgid = 990, p_groups = [],
      p_cwd = ''/''\<rparr>"

theorem privilege_drop_fail_closed_witness:
  "\<exists>p. spawn example_kernel (apply_privilege_drop (p_euid example_daemon) example_spec
        (build_command (\<lambda>_. None) example_spec)) example_daemon = Inr p \<and>
     p = dropped example_spec 1000 1000 ''/home/alice/w''"
proof -
  let ?p = "dropped example_spec 1000 1000 ''/home/alice/w''"
  have "spawn example_kernel (apply_privilege_drop (p_euid example_daemon) example_spec
      (build_command (\<lambda>_. None) example_spec)) example_daemon = Inr ?p"
    by (simp add: spawn_def example_kernel_def apply_privilege_drop_def example_spec_def example_daemon_def
        dropped_def Let_def)
  from this privilege_drop_fail_closed [OF this] show ?thesis
    by (simp add: example_spec_def example_daemon_def)
qed

text \<open>
  The environment of a child is exactly what the broker built: the variables of its
  specification, the daemon's \<open>PATH\<close> when the specification has none, and the caller's home when
  privileges are dropped and the specification has none. Nothing else of the daemon's environment
  reaches the child.
\<close>

theorem child_env_exact:
  "cmd_env (apply_privilege_drop own spec (build_command getenv spec)) key =
     (case map_of (rev (cs_env spec)) key of
        Some v \<Rightarrow> Some v
      | None \<Rightarrow>
          if key = ''PATH'' then getenv ''PATH''
          else if key = ''HOME'' \<and> drops own spec then cs_home spec
          else None)"
  by (rule child_env_aux)

text \<open>
  The select loop never starves a direction and never mixes them: as long as the output can
  move, the relay moves, whatever the input does, and a waiting output still lets a live input
  move. When the relay ends, its result is the result of the output run on its own, and the input
  has been polled some number of times, without losing its place.
\<close>

theorem relay_until_output_ends_sound:
  assumes "(relay_step inp outp)\<^sup>*\<^sup>* (Polling True i q) (Finished t i')"
  shows "output_runs outp q t \<and> (\<exists>n. i' = run_polls inp n i) \<and>
    ((\<exists>st. relay_step inp outp (Polling live j u) st) \<longleftrightarrow> outp u \<noteq> Waiting \<or> live \<and> inp j \<noteq> Waiting)"
proof -
  have "output_runs outp q t \<and> (\<exists>n. i' = run_polls inp n i)"
    using relay_inv_run [OF assms] by (simp add: relay_inv_def)
  moreover have "(\<exists>st. relay_step inp outp (Polling live j u) st) \<longleftrightarrow> outp u \<noteq> Waiting \<or> live \<and> inp j \<noteq> Waiting"
    by (cases "outp u"; cases "inp j"; cases live) (auto simp: relay_step_Polling)
  ultimately show ?thesis by simp
qed

definition countdown :: "nat \<Rightarrow> (nat, nat) poll" where
  "countdown n = (if n = 0 then Ready 0 else Step (n - 1))"

theorem relay_until_output_ends_sound_witness:
  "output_runs countdown 1 0 \<and> (\<exists>n. 4 = run_polls countdown n 5)"
proof -
  have "relay_step countdown countdown (Polling True 5 1) (Polling True 4 1)"
    "relay_step countdown countdown (Polling True 4 1) (Polling True 4 0)"
    "relay_step countdown countdown (Polling True 4 0) (Finished 0 4)"
    by (simp_all add: relay_step_Polling countdown_def)
  then have "(relay_step countdown countdown)\<^sup>*\<^sup>* (Polling True 5 1) (Finished 0 4)"
    by (meson converse_rtranclp_into_rtranclp rtranclp.rtrancl_refl)
  from relay_until_output_ends_sound [OF this] show ?thesis by blast
qed

text \<open>
  A client's standard input reaches the child byte for byte: when a client sends its input in
  chunks and then the end marker, cut anywhere on the wire, the relay writes exactly the
  concatenation of the chunks to the child and leaves what follows the marker unread. Cancelled
  early, it has written a prefix of that.
\<close>

theorem stdin_relayed_exactly:
  assumes "write_frames ser \<lparr>wr_out = [], wr_events = evs\<rparr> (map StdinChunk chunks @ [StdinEof]) = (Inr u, w1)"
    and "\<And>v body. ser v = Inr body \<Longrightarrow> de body = Inr v"
    and "sock_ok s" and "sock_content s = wr_out w1 @ rest" and "wr_events w = []"
  shows "(\<exists>s'. relay_stdin de s (Some w) = (s', Some (w\<lparr>wr_out := wr_out w @ concat chunks\<rparr>)) \<and>
      sock_content s' = rest) \<and>
    (\<exists>unsent. wr_out w @ concat chunks = wr_out (snd (run_polls (stdin_poll de) n (s, w))) @ unsent)"
proof (intro conjI)
  obtain s' where s': "relay_loop de s w = (s', w\<lparr>wr_out := wr_out w @ concat chunks\<rparr>)"
    "sock_content s' = rest"
    using relay_loop_frames [where rest = rest and w = w and de = de, OF assms(1,2)] assms(3-5) by auto
  then show "\<exists>s'. relay_stdin de s (Some w) = (s', Some (w\<lparr>wr_out := wr_out w @ concat chunks\<rparr>)) \<and>
      sock_content s' = rest" by (simp add: relay_stdin_def)
  from run_polls_stdin_prefix [of de s w n] s'(1)
  show "\<exists>unsent. wr_out w @ concat chunks = wr_out (snd (run_polls (stdin_poll de) n (s, w))) @ unsent" by simp
qed

definition example_ser :: "client_frame \<Rightarrow> string + string" where
  "example_ser f = (case f of StdinChunk d \<Rightarrow> Inr (CHR ''c'' # d) | StdinEof \<Rightarrow> Inr ''e'')"

definition example_de :: frame_decoder where
  "example_de b = (case b of CHR ''c'' # d \<Rightarrow> Inr (StdinChunk d) | _ \<Rightarrow> Inr StdinEof)"

theorem stdin_relayed_exactly_witness:
  "\<exists>s'. relay_stdin example_de
       [Chunk [CHR 0x00, CHR 0x00, CHR 0x00], Chunk [CHR 0x02, CHR ''c'', CHR ''x'', CHR 0x00],
        Chunk [CHR 0x00, CHR 0x00, CHR 0x01, CHR ''e'']] (Some \<lparr>wr_out = [], wr_events = []\<rparr>) =
     (s', Some \<lparr>wr_out = ''x'', wr_events = []\<rparr>) \<and> sock_content s' = []"
proof -
  have w: "write_frames example_ser \<lparr>wr_out = [], wr_events = []\<rparr> (map StdinChunk [''x''] @ [StdinEof]) =
      (Inr (), \<lparr>wr_out = [CHR 0x00, CHR 0x00, CHR 0x00, CHR 0x02, CHR ''c'', CHR ''x'',
         CHR 0x00, CHR 0x00, CHR 0x00, CHR 0x01, CHR ''e''], wr_events = []\<rparr>)"
    by (simp add: write_frame_def write_all_def to_be_bytes_def unat_MAX_FRAME_LEN example_ser_def)
  have dec: "example_de body = Inr v" if "example_ser v = Inr body" for v body
    using that by (auto simp: example_ser_def example_de_def split: client_frame.splits)
  show ?thesis
    using stdin_relayed_exactly [OF w dec, where w = "\<lparr>wr_out = [], wr_events = []\<rparr>" and rest = "[]" and
        s = "[Chunk [CHR 0x00, CHR 0x00, CHR 0x00], Chunk [CHR 0x02, CHR ''c'', CHR ''x'', CHR 0x00],
          Chunk [CHR 0x00, CHR 0x00, CHR 0x01, CHR ''e'']]"] by simp
qed

text \<open>
  The output of a child arrives as it was written: every frame the relay sends is a non-empty
  piece of one of the two streams of at most 8 KiB, the pieces of each stream put together in
  order are a prefix of what the child wrote to it, and all of it when the relay reports success.
\<close>

theorem output_relayed_exactly:
  assumes "pipe_ok stdout" "pipe_ok stderr"
    and "stream_pipes ser sched stdout stderr c = (r, c')"
  shows "\<exists>chunks. cn_sent c' = cn_sent c @ chunks \<and> list_all chunk_ok chunks \<and>
    (\<exists>rest. pipe_bytes stdout = out_bytes chunks @ rest \<and> (r = Inr () \<longrightarrow> rest = [])) \<and>
    (\<exists>rest. pipe_bytes stderr = err_bytes chunks @ rest \<and> (r = Inr () \<longrightarrow> rest = []))"
  using stream_pipes_relays [OF assms(1,2), of ser sched c] assms(3)
  by (auto simp: relays_def relayed_def extends_def)

definition example_conn :: conn where
  "example_conn = \<lparr>cn_in = [], cn_writer = \<lparr>wr_out = [], wr_events = []\<rparr>, cn_sent = [], cn_shut = False\<rparr>"

theorem output_relayed_exactly_witness:
  "\<exists>chunks. cn_sent (snd (stream_pipes (\<lambda>_. Inr ''j'') [False] (Some [Inr ''out'']) (Some [Inr ''err'']) example_conn)) =
     chunks \<and> list_all chunk_ok chunks"
  using output_relayed_exactly [of "Some [Inr ''out'']" "Some [Inr ''err'']" "\<lambda>_. Inr ''j''" "[False]" example_conn
      "fst (stream_pipes (\<lambda>_. Inr ''j'') [False] (Some [Inr ''out'']) (Some [Inr ''err'']) example_conn)"
      "snd (stream_pipes (\<lambda>_. Inr ''j'') [False] (Some [Inr ''out'']) (Some [Inr ''err'']) example_conn)"]
  by (simp add: pipe_ok_def example_conn_def)

text \<open>
  What a client sees of a child: if the child could not be spawned, one \<open>Denied\<close> frame that
  names the reason, and the client's input is left unread; otherwise output chunks, and on success
  one final \<open>Exit\<close> frame, with the child's exit code, or 128 plus the signal that killed it.
\<close>

theorem stream_child_frames:
  assumes "stream_child ser de getenv k d children spec s c = (r, rn, s', c')"
    and "\<And>cmd p. pipe_ok (Some (ch_stdout (children cmd p))) \<and> pipe_ok (Some (ch_stderr (children cmd p)))"
  shows "(case rn of
      None \<Rightarrow> s' = s \<and> (\<exists>new. cn_sent c' = cn_sent c @ new \<and>
        (if isl r then new = [] else \<exists>reason. new = [Denied reason]))
    | Some q \<Rightarrow>
        \<exists>chunks tail. cn_sent c' = cn_sent c @ chunks @ tail \<and> list_all chunk_ok chunks \<and>
          (if isl r then tail = []
           else \<exists>status. ch_wait (children (ran_command q) (ran_proc q)) = Inr status \<and>
             tail = [Exit (case status of Exited code \<Rightarrow> code | Signaled sig \<Rightarrow> 128 + sig | StatusOther \<Rightarrow> -1)] \<and>
             out_bytes chunks = pipe_bytes (Some (ch_stdout (children (ran_command q) (ran_proc q)))) \<and>
             err_bytes chunks = pipe_bytes (Some (ch_stderr (children (ran_command q) (ran_proc q))))))"
proof (cases rn)
  case None
  with stream_child_sent [OF assms] assms(1) show ?thesis
    by (auto simp: stream_child_def Let_def split: sum.splits prod.splits)
next
  case (Some q)
  have code: "exit_code_from_status st =
      (case st of Exited code \<Rightarrow> code | Signaled sig \<Rightarrow> 128 + sig | StatusOther \<Rightarrow> -1)" for st
    by (simp add: exit_code_from_status_def status_code_def status_signal_def SIGNAL_EXIT_OFFSET_def
        split: exit_status.split)
  from stream_child_sent [OF assms] Some show ?thesis
    by (cases r) (auto simp: code)
qed

definition example_child :: children where
  "example_child cmd p =
     \<lparr>ch_stdout = [Inr ''ok''], ch_stderr = [], ch_sched = [], ch_input_turns = 0, ch_stdin = [],
      ch_wait = Inr (Signaled 9)\<rparr>"

theorem stream_child_frames_witness:
  "\<exists>q s' c'. stream_child (\<lambda>_. Inr ''j'') example_de (\<lambda>_. None) example_kernel example_daemon example_child
       example_spec [] example_conn = (Inr (), Some q, s', c') \<and>
     (\<exists>chunks. cn_sent c' = chunks @ [Exit 137] \<and> list_all chunk_ok chunks)"
proof -
  obtain r rn s' c' where run: "stream_child (\<lambda>_. Inr ''j'') example_de (\<lambda>_. None) example_kernel example_daemon
      example_child example_spec [] example_conn = (r, rn, s', c')" by (metis prod_cases4)
  have "isl (fst (stream_child (\<lambda>_. Inr ''j'') example_de (\<lambda>_. None) example_kernel example_daemon
      example_child example_spec [] example_conn)) = False \<and>
    fst (snd (stream_child (\<lambda>_. Inr ''j'') example_de (\<lambda>_. None) example_kernel example_daemon
      example_child example_spec [] example_conn)) \<noteq> None"
    by (simp add: stream_child_def spawn_def example_kernel_def apply_privilege_drop_def example_spec_def
        example_daemon_def Let_def example_child_def stream_pipes_cases pump_def read_pipe_def READ_BUF_SIZE_def
        send_frame_def write_frame_def unat_MAX_FRAME_LEN example_conn_def write_all_def)
  with run obtain q where rn: "rn = Some q" "isl r = False" by auto
  have "example_child cmd p = example_child cmd' p'" for cmd p cmd' p' by (simp add: example_child_def)
  with stream_child_frames [OF run] rn run show ?thesis
    by (cases r) (auto simp: example_child_def pipe_ok_def example_conn_def)
qed

end
