(* ===== verification/Health_Check.thy ===== *)
theory Health_Check
  imports Protocol Credentials
begin

unbundle bit_operations_syntax

section \<open>Health checks\<close>

text \<open>
  The model of \<open>src/src/health_check.rs\<close>: the checks the broker runs for \<open>ghbrk doctor\<close> as its own
  user, and the audit of the credential files it sends along. A check returns whether it passed
  and the text it wrote. The file system is a parameter, and so is the \<open>gh api user\<close> subprocess:
  given its arguments and environment it cannot be started, or ends with a success flag and the
  text of its two streams.
\<close>

definition CREDENTIAL_DIR_LABEL :: string where
  "CREDENTIAL_DIR_LABEL = ''Credential dir''"

definition SSH_KEY_LABEL :: string where
  "SSH_KEY_LABEL = ''SSH key''"

definition TOKEN_LABEL :: string where
  "TOKEN_LABEL = ''Token''"

definition BROKER_TMP_PATH :: path where
  "BROKER_TMP_PATH = ''/tmp''"

definition SHARED_FILESYSTEM_LABEL :: string where
  "SHARED_FILESYSTEM_LABEL = ''Shared filesystem:''"

definition SYSTEMD_UNIT_PATH :: path where
  "SYSTEMD_UNIT_PATH = ''/etc/systemd/system/ghbrk.service''"

definition MOUNTINFO_ROOT_FIELD :: nat where
  "MOUNTINFO_ROOT_FIELD = 3"

definition MOUNTINFO_MOUNT_POINT_FIELD :: nat where
  "MOUNTINFO_MOUNT_POINT_FIELD = 4"

definition GH_PROBE_TIMEOUT_SECS :: string where
  "GH_PROBE_TIMEOUT_SECS = ''10''"

definition UNAUTHORIZED_MARKER :: string where
  "UNAUTHORIZED_MARKER = ''HTTP 401''"

definition newline :: string where
  "newline = [CHR 0x0A]"

datatype github_result = GithubOk string | InvalidToken | Unreachable

record probe_output =
  po_success :: bool
  po_stdout :: string
  po_stderr :: string

type_synonym probe = "string list \<Rightarrow> env \<Rightarrow> probe_output option"

record check_inputs =
  creds_root :: path
  user :: string
  ci_caller_tmp :: "tmp_identity option"

subsection \<open>The checks\<close>

definition tmp_mount_root :: "string \<Rightarrow> string option" where
  "tmp_mount_root mountinfo =
     (let root = fold (\<lambda>line root.
            let fields = split_on CHR '' '' line in
              if length fields > MOUNTINFO_MOUNT_POINT_FIELD \<and> fields ! MOUNTINFO_MOUNT_POINT_FIELD = ''/tmp''
              then Some (fields ! MOUNTINFO_ROOT_FIELD) else root) (lines mountinfo) None in
        case root of Some r \<Rightarrow> if r \<noteq> ''/'' then Some r else None | None \<Rightarrow> None)"

definition own_tmp_mount_root :: "fs \<Rightarrow> string option" where
  "own_tmp_mount_root f =
     (case fs_read_to_string f ''/proc/self/mountinfo'' of
        Inl _ \<Rightarrow> None
      | Inr content \<Rightarrow> tmp_mount_root content)"

definition check_shared_filesystem :: "fs \<Rightarrow> path \<Rightarrow> tmp_identity \<Rightarrow> bool \<times> string" where
  "check_shared_filesystem f tmp_path caller =
     (case fs_metadata f tmp_path of
        Inl err \<Rightarrow>
          (False, SHARED_FILESYSTEM_LABEL @ '' ERROR (cannot stat /tmp: '' @ io_text err @ '')'' @ newline)
      | Inr meta \<Rightarrow>
          if md_dev meta = tmp_dev caller \<and> md_ino meta = tmp_ino caller
          then (True, SHARED_FILESYSTEM_LABEL @ '' OK'' @ newline)
          else
            let clause = (case own_tmp_mount_root f of
                            Some root \<Rightarrow> ''; broker /tmp mount root is '' @ root
                          | None \<Rightarrow> []) in
              (False,
               SHARED_FILESYSTEM_LABEL @ '' ERROR (caller /tmp is dev '' @
               show_nat (unat (tmp_dev caller)) @ '':'' @ show_nat (unat (tmp_ino caller)) @
               '', broker /tmp is dev '' @ show_nat (unat (md_dev meta)) @ '':'' @
               show_nat (unat (md_ino meta)) @ ''; caused by PrivateTmp= in '' @ SYSTEMD_UNIT_PATH @ clause @
               ''; remove that directive from '' @ SYSTEMD_UNIT_PATH @ '' and restart the service)'' @ newline))"

definition audit_path :: "fs \<Rightarrow> string \<Rightarrow> path \<Rightarrow> path_audit" where
  "audit_path f label p =
     (case fs_metadata f p of
        Inr meta \<Rightarrow>
          \<lparr>pa_label = label, pa_path = p, pa_present = True, pa_observed_owner_uid = md_uid meta,
           pa_observed_mode = md_mode meta AND PERMISSION_MASK\<rparr>
      | Inl _ \<Rightarrow>
          \<lparr>pa_label = label, pa_path = p, pa_present = False, pa_observed_owner_uid = 0, pa_observed_mode = 0\<rparr>)"

definition audit_credential_paths :: "fs \<Rightarrow> path \<Rightarrow> string \<Rightarrow> credential_audit" where
  "audit_credential_paths f root u =
     (case credential_paths_in root u of
        Inl _ \<Rightarrow> \<lparr>audit_entries = []\<rparr>
      | Inr paths \<Rightarrow>
          \<lparr>audit_entries =
             (case path_parent (cp_ssh_key paths) of
                Some dir \<Rightarrow> [audit_path f CREDENTIAL_DIR_LABEL dir]
              | None \<Rightarrow> []) @
             [audit_path f SSH_KEY_LABEL (cp_ssh_key paths), audit_path f TOKEN_LABEL (cp_token paths)]\<rparr>)"

definition check_file :: "fs \<Rightarrow> string \<Rightarrow> path \<Rightarrow> bool \<times> string" where
  "check_file f label p =
     (case fs_metadata f p of
        Inl e \<Rightarrow>
          if io_kind e = NotFound then (False, label @ '': MISSING'' @ newline)
          else (False, label @ '': ERROR ('' @ io_text e @ '')'' @ newline)
      | Inr meta \<Rightarrow>
          let mode = md_mode meta AND PERMISSION_MASK in
            if mode = REQUIRED_MODE then (True, label @ '': OK'' @ newline)
            else (False, label @ '': BAD PERMISSIONS ('' @ show_oct5 mode @ '')'' @ newline))"

definition read_token_if_available :: "fs \<Rightarrow> path \<Rightarrow> string option" where
  "read_token_if_available f p =
     (case fs_read_to_string f p of
        Inr raw \<Rightarrow> Some (trim_end_matches [CHR 0x0A, CHR 0x0D] raw)
      | Inl _ \<Rightarrow> None)"

definition gh_probe_command :: "string list" where
  "gh_probe_command = [''timeout'', GH_PROBE_TIMEOUT_SECS, ''gh'', ''api'', ''user'', ''-q'', ''.login'']"

definition ping_github :: "(string \<Rightarrow> string option) \<Rightarrow> probe \<Rightarrow> string \<Rightarrow> github_result" where
  "ping_github getenv probe tok =
     (case probe gh_probe_command (gh_env getenv tok) of
        None \<Rightarrow> Unreachable
      | Some out \<Rightarrow>
          if po_success out then GithubOk (trim (po_stdout out))
          else if contains_str UNAUTHORIZED_MARKER (po_stderr out) then InvalidToken
          else Unreachable)"

definition check_github_api ::
    "fs \<Rightarrow> (string \<Rightarrow> string option) \<Rightarrow> probe \<Rightarrow> path \<Rightarrow> bool \<Rightarrow> bool \<times> string" where
  "check_github_api f getenv probe token_path ok =
     (case read_token_if_available f token_path of
        None \<Rightarrow> (ok, ''GitHub API: SKIPPED (no token available)'' @ newline)
      | Some tok \<Rightarrow>
          (case ping_github getenv probe tok of
             GithubOk login \<Rightarrow> (ok, ''GitHub API: OK (user: '' @ login @ '')'' @ newline)
           | InvalidToken \<Rightarrow> (False, ''GitHub API: INVALID TOKEN'' @ newline)
           | Unreachable \<Rightarrow> (False, ''GitHub API: UNREACHABLE'' @ newline)))"

definition run_checks ::
    "fs \<Rightarrow> (string \<Rightarrow> string option) \<Rightarrow> probe \<Rightarrow> (string \<Rightarrow> string) \<Rightarrow> check_inputs \<Rightarrow> bool \<times> string" where
  "run_checks f getenv probe dbg inputs =
     (let (ok0, out0) = (case ci_caller_tmp inputs of
                           Some caller \<Rightarrow> check_shared_filesystem f BROKER_TMP_PATH caller
                         | None \<Rightarrow> (True, [])) in
        case credential_paths_in (creds_root inputs) (user inputs) of
          Inl e \<Rightarrow> (False, out0 @ ''ghbrk check: '' @ credential_error_text dbg e @ newline)
        | Inr paths \<Rightarrow>
            let (ok1, out1) = check_file f ''SSH key'' (cp_ssh_key paths);
                (ok2, out2) = check_file f ''Token'' (cp_token paths);
                (ok3, out3) = check_github_api f getenv probe (cp_token paths) (ok0 \<and> ok1 \<and> ok2) in
              (ok3, out0 @ out1 @ out2 @ out3))"

text \<open>
  The process the checks start: its arguments and the variables set for it, when the credential paths
  of the user are valid and a token can be read. \<open>run_checks\<close> asks the probe nothing else.
\<close>

definition probe_call :: "fs \<Rightarrow> (string \<Rightarrow> string option) \<Rightarrow> check_inputs \<Rightarrow> (string list \<times> env) option" where
  "probe_call f getenv inputs =
     (case credential_paths_in (creds_root inputs) (user inputs) of
        Inl _ \<Rightarrow> None
      | Inr paths \<Rightarrow>
          (case read_token_if_available f (cp_token paths) of
             None \<Rightarrow> None
           | Some tok \<Rightarrow> Some (gh_probe_command, gh_env getenv tok)))"

subsection \<open>Lemmas\<close>

lemma run_checks_probe:
  assumes "case probe_call f getenv inputs of None \<Rightarrow> True | Some (argv, vars) \<Rightarrow> probe argv vars = probe' argv vars"
  shows "run_checks f getenv probe dbg inputs = run_checks f getenv probe' dbg inputs"
proof (cases "credential_paths_in (creds_root inputs) (user inputs)")
  case (Inl e)
  then show ?thesis by (simp add: run_checks_def)
next
  case (Inr paths)
  have "check_github_api f getenv probe (cp_token paths) ok = check_github_api f getenv probe' (cp_token paths) ok" for ok
    using assms Inr
    by (cases "read_token_if_available f (cp_token paths)") (simp_all add: probe_call_def check_github_api_def ping_github_def)
  with Inr show ?thesis by (simp add: run_checks_def)
qed

lemma probe_call_Some:
  "probe_call f getenv inputs = Some (argv, vars) \<longleftrightarrow>
     argv = gh_probe_command \<and>
     (\<exists>paths tok. credential_paths_in (creds_root inputs) (user inputs) = Inr paths \<and>
        read_token_if_available f (cp_token paths) = Some tok \<and> vars = gh_env getenv tok)"
  by (auto simp: probe_call_def split: sum.split option.split)

lemma check_file_ok:
  "fst (check_file f label p) \<longleftrightarrow> (\<exists>m. fs_metadata f p = Inr m \<and> md_mode m AND PERMISSION_MASK = REQUIRED_MODE)"
  by (auto simp: check_file_def Let_def split: sum.splits)

lemma check_file_verify: "fst (check_file f label p) \<longleftrightarrow> verify_ssh_key f p = Inr ()"
  by (auto simp: check_file_ok verify_ssh_key_def Let_def split: sum.splits)

lemma check_file_token:
  "fst (check_file f label p) \<Longrightarrow> read_token_if_available f p = Some t \<Longrightarrow> read_token f p = Inr t"
  by (auto simp: check_file_ok read_token_def read_token_if_available_def Let_def split: sum.splits)

lemma check_github_api_ok: "fst (check_github_api f getenv probe p ok) \<Longrightarrow> ok"
  by (auto simp: check_github_api_def split: option.splits github_result.splits)

lemma check_shared_line:
  "\<exists>text. snd (check_shared_filesystem f p caller) = SHARED_FILESYSTEM_LABEL @ text"
  by (auto simp: check_shared_filesystem_def Let_def split: sum.splits)

subsection \<open>Properties\<close>

text \<open>
  A passing health check is what the broker needs to act: if it passes, the caller's and the
  broker's temporary directory are the same when the caller sent its identity, and the next
  request of the user loads its credentials, unless the token file cannot be read at all, which
  the check only reports as skipped.
\<close>

theorem checks_passed_credentials_load:
  assumes "fst (run_checks f getenv probe dbg inputs)"
  shows "((\<exists>c. load_credentials_from f (creds_root inputs) (user inputs) = Inr c \<and>
        (\<exists>login. ping_github getenv probe (token c) = GithubOk login)) \<or>
      (\<exists>cp e. credential_paths_in (creds_root inputs) (user inputs) = Inr cp \<and> fs_read_to_string f (cp_token cp) = Inl e)) \<and>
    (\<forall>caller. ci_caller_tmp inputs = Some caller \<longrightarrow>
      (\<exists>m. fs_metadata f BROKER_TMP_PATH = Inr m \<and> md_dev m = tmp_dev caller \<and> md_ino m = tmp_ino caller))"
proof (intro conjI allI impI)
  define sh where "sh = (case ci_caller_tmp inputs of
      Some caller \<Rightarrow> check_shared_filesystem f BROKER_TMP_PATH caller | None \<Rightarrow> (True, []))"
  from assms obtain cp where cp: "credential_paths_in (creds_root inputs) (user inputs) = Inr cp"
    by (cases "credential_paths_in (creds_root inputs) (user inputs)")
      (auto simp: run_checks_def Let_def split: prod.splits)
  have api: "fst (check_github_api f getenv probe (cp_token cp)
      (fst sh \<and> fst (check_file f ''SSH key'' (cp_ssh_key cp)) \<and> fst (check_file f ''Token'' (cp_token cp))))"
    using assms cp by (simp add: run_checks_def Let_def sh_def [symmetric] split: prod.splits)
  from check_github_api_ok [OF this] have ok: "fst sh" "fst (check_file f ''SSH key'' (cp_ssh_key cp))"
    "fst (check_file f ''Token'' (cp_token cp))" by auto
  show "(\<exists>c. load_credentials_from f (creds_root inputs) (user inputs) = Inr c \<and>
        (\<exists>login. ping_github getenv probe (token c) = GithubOk login)) \<or>
      (\<exists>cp e. credential_paths_in (creds_root inputs) (user inputs) = Inr cp \<and> fs_read_to_string f (cp_token cp) = Inl e)"
  proof (cases "read_token_if_available f (cp_token cp)")
    case None
    then show ?thesis using cp by (auto simp: read_token_if_available_def split: sum.splits)
  next
    case (Some t)
    with ok cp have "load_credentials_from f (creds_root inputs) (user inputs) =
        Inr \<lparr>ssh_key_path = cp_ssh_key cp, token = t\<rparr>"
      by (simp add: load_credentials_from_def check_file_verify [of f "''SSH key''"] check_file_token [OF ok(3) Some])
    moreover have "\<exists>login. ping_github getenv probe t = GithubOk login"
      using api Some by (auto simp: check_github_api_def split: github_result.splits)
    ultimately show ?thesis by simp
  qed
  show "\<exists>m. fs_metadata f BROKER_TMP_PATH = Inr m \<and> md_dev m = tmp_dev caller \<and> md_ino m = tmp_ino caller"
    if "ci_caller_tmp inputs = Some caller" for caller
    using ok(1) that by (auto simp: sh_def check_shared_filesystem_def Let_def split: sum.splits if_splits)
qed

theorem checks_passed_credentials_load_witness:
  "\<exists>c. load_credentials_from example_store credentials_dir ''alice'' = Inr c"
proof -
  let ?probe = "\<lambda>_ _. Some \<lparr>po_success = True, po_stdout = ''octocat'', po_stderr = []\<rparr>"
  let ?in = "\<lparr>creds_root = credentials_dir, user = ''alice'', ci_caller_tmp = None\<rparr>"
  have "fst (check_file example_store l p)" for l p
    by (auto simp: check_file_ok example_store_def PERMISSION_MASK_def REQUIRED_MODE_def)
  moreover have "credential_paths_in credentials_dir ''alice'' \<noteq> Inl e" for e
    by (simp add: credential_paths_in_def Let_def)
  ultimately have "fst (run_checks example_store (\<lambda>_. None) ?probe id ?in)"
    by (cases "credential_paths_in credentials_dir ''alice''")
      (auto simp: run_checks_def Let_def check_github_api_def read_token_if_available_def example_store_def
        ping_github_def case_prod_beta)
  from checks_passed_credentials_load [OF this] show ?thesis
    by (auto simp: example_store_def)
qed

text \<open>
  A daemon that knows the shared-filesystem check reports it on every path, first: when the
  caller sent the identity of its temporary directory, the output starts with the label the client
  looks for, whatever else fails; when it did not, the output has no other first line than the
  credential checks.
\<close>

theorem shared_filesystem_line_first:
  "(case ci_caller_tmp inputs of
      Some caller \<Rightarrow> starts_with (snd (run_checks f getenv probe dbg inputs)) SHARED_FILESYSTEM_LABEL
    | None \<Rightarrow> starts_with (snd (run_checks f getenv probe dbg inputs)) ''ghbrk check: '' \<or>
        starts_with (snd (run_checks f getenv probe dbg inputs)) ''SSH key: '')"
proof (cases "ci_caller_tmp inputs")
  case None
  have "\<exists>text. snd (check_file f ''SSH key'' p) = ''SSH key: '' @ text" for p
    by (auto simp: check_file_def Let_def split: sum.splits)
  note key_line = this
  show ?thesis
  proof (cases "credential_paths_in (creds_root inputs) (user inputs)")
    case (Inl e)
    with None show ?thesis by (simp add: run_checks_def starts_with_def)
  next
    case (Inr cp)
    from key_line [of "cp_ssh_key cp"] obtain txt1 where
      "snd (check_file f ''SSH key'' (cp_ssh_key cp)) = ''SSH key: '' @ txt1" by blast
    with None Inr show ?thesis
      by (auto simp: run_checks_def Let_def starts_with_def split: prod.splits)
  qed
next
  case (Some caller)
  from check_shared_line [of f BROKER_TMP_PATH caller] obtain txt1 where
    "snd (check_shared_filesystem f BROKER_TMP_PATH caller) = SHARED_FILESYSTEM_LABEL @ txt1" by blast
  with Some show ?thesis
    by (auto simp: run_checks_def Let_def starts_with_iff split: prod.splits sum.splits)
qed

end
