(* ===== verification/Broker_Base.thy ===== *)
theory Broker_Base
  imports Policy Resolver Audit_Log Executor Health_Check
begin

section \<open>State and effects of the broker\<close>

text \<open>
  The parts of \<open>src/src/broker.rs\<close> every handler uses: the identity of the peer, the audit entry,
  the frames sent to a client, credentials and the environment of a child. The state of the daemon
  is the swappable policy handle, the policy file, the audit logger, and the history of what the
  daemon did, which no definition reads. Everything outside the program is one record of
  parameters.
\<close>

subsection \<open>The world outside\<close>

record passwd =
  pw_name :: string
  pw_uid :: u32
  pw_gid :: u32
  pw_dir :: path

text \<open>
  What rewriting the policy file meets: each step fails with an error or succeeds. The join error
  of the blocking task is the text of a task that did not run.
\<close>

record persist_io =
  pi_join :: "string option"
  pi_tempfile_in :: "path \<Rightarrow> io_error option"
  pi_set_permissions :: "io_error option"
  pi_write_all :: "io_error option"
  pi_sync_all :: "io_error option"
  pi_persist :: "io_error option"

record outside =
  x_fs :: fs
  x_glob :: glob
  x_yaml_parse :: yaml_parser
  x_yaml_print :: "policy \<Rightarrow> string + string"
  x_persist :: persist_io
  x_ser :: frame_encoder
  x_de :: frame_decoder
  x_de_request :: "string \<Rightarrow> string + request"
  x_json :: json_encoder
  x_clock :: "string option"
  x_getenv :: "string \<Rightarrow> string option"
  x_dbg :: "string \<Rightarrow> string"
  x_kernel :: kernel
  x_daemon :: proc
  x_children :: children
  x_host :: host
  x_askpass :: askpass_io
  x_probe :: probe
  x_user_from_uid :: "u32 \<Rightarrow> string + passwd option"
  x_getgrouplist :: "string \<Rightarrow> u32 \<Rightarrow> string + u32 list"

subsection \<open>State\<close>

datatype event =
    Audited audit_record
  | Spawned ran
  | PolicyWritten string
  | HandleStored policy
  | AgentActions "action list"
  | Probed "string list" env
  | ScriptRemoved path

record broker =
  b_handle :: policy
  b_policy_file :: "io_error + string"
  b_audit :: audit_logger
  b_events :: "event list"

definition record_event :: "event \<Rightarrow> broker \<Rightarrow> broker" where
  "record_event e b = b\<lparr>b_events := b_events b @ [e]\<rparr>"

text \<open>
  The events that start a process: the child whose streams are relayed, the agent and the program
  that loads the key into it, and the probe of the health check.
\<close>

definition starts_process :: "event \<Rightarrow> bool" where
  "starts_process e =
     (case e of
        Spawned _ \<Rightarrow> True
      | Probed _ _ \<Rightarrow> True
      | AgentActions acts \<Rightarrow> list_ex (\<lambda>a. case a of SpawnAgent _ \<Rightarrow> True | SshAdd _ _ \<Rightarrow> True | _ \<Rightarrow> False) acts
      | _ \<Rightarrow> False)"

lemma starts_process_simps [simp]:
  "starts_process (Spawned q)" "starts_process (Probed argv vars)"
  "\<not> starts_process (Audited r)" "\<not> starts_process (PolicyWritten t)" "\<not> starts_process (HandleStored p)"
  "\<not> starts_process (ScriptRemoved f)" "\<not> starts_process (AgentActions [])"
  by (simp_all add: starts_process_def)

text \<open>The part of a connection's context that does not change: \<open>ConnectionContext\<close>.\<close>

record context_of_conn =
  ctx_policy :: policy
  ctx_policy_path :: path
  ctx_credentials_root :: "path option"

record peer =
  pid_username :: string
  pid_uid :: u32
  pid_gid :: u32
  pid_supplementary_gids :: "u32 list"
  pid_home :: path

subsection \<open>The peer\<close>

definition supplementary_gids_for :: "outside \<Rightarrow> string \<Rightarrow> u32 \<Rightarrow> u32 list" where
  "supplementary_gids_for x username primary =
     (if CHR 0x00 \<in> set username then []
      else (case x_getgrouplist x username primary of Inr groups \<Rightarrow> groups | Inl _ \<Rightarrow> []))"

text \<open>\<open>SO_PEERCRED\<close> of the stream is the first argument.\<close>

definition peer_identity :: "outside \<Rightarrow> string + u32 \<Rightarrow> peer option" where
  "peer_identity x cred =
     (case cred of
        Inl _ \<Rightarrow> None
      | Inr uid \<Rightarrow>
          (case x_user_from_uid x uid of
             Inr (Some u) \<Rightarrow>
               Some \<lparr>pid_username = pw_name u, pid_uid = pw_uid u, pid_gid = pw_gid u,
                     pid_supplementary_gids = supplementary_gids_for x (pw_name u) (pw_gid u),
                     pid_home = pw_dir u\<rparr>
           | Inr None \<Rightarrow> None
           | Inl _ \<Rightarrow> None))"

definition peer_username :: "outside \<Rightarrow> string + u32 \<Rightarrow> string option" where
  "peer_username x cred = map_option pid_username (peer_identity x cred)"

definition username_for_uid :: "outside \<Rightarrow> u32 \<Rightarrow> string option" where
  "username_for_uid x uid =
     (case x_user_from_uid x uid of
        Inr (Some u) \<Rightarrow> Some (pw_name u)
      | Inr None \<Rightarrow> None
      | Inl _ \<Rightarrow> None)"

subsection \<open>Audit entries\<close>

fun operation_name :: "operation \<Rightarrow> string" where
  "operation_name Push = ''push''"
| "operation_name Fetch = ''fetch''"
| "operation_name Pull = ''pull''"
| "operation_name Clone = ''clone''"
| "operation_name PrOpen = ''pr_open''"
| "operation_name PrComment = ''pr_comment''"
| "operation_name PrClose = ''pr_close''"
| "operation_name PrMerge = ''pr_merge''"
| "operation_name PrReview = ''pr_review''"
| "operation_name IssueOpen = ''issue_open''"
| "operation_name IssueComment = ''issue_comment''"
| "operation_name IssueClose = ''issue_close''"
| "operation_name ReleaseCreate = ''release_create''"
| "operation_name ReleaseDelete = ''release_delete''"
| "operation_name ReleaseEdit = ''release_edit''"
| "operation_name ReleaseUpload = ''release_upload''"
| "operation_name ReleaseDeleteAsset = ''release_delete_asset''"
| "operation_name ReleaseList = ''release_list''"
| "operation_name ReleaseView = ''release_view''"
| "operation_name ReleaseDownload = ''release_download''"
| "operation_name (GhApiRead _) = ''gh_api_read''"

record audit_entry =
  ae_user :: string
  ae_tool :: string
  ae_args :: "string list"
  ae_org :: string
  ae_repo :: string
  ae_branch :: "string option"
  ae_operation :: string
  ae_decision :: audit_decision

definition record_of :: "outside \<Rightarrow> audit_entry \<Rightarrow> audit_record" where
  "record_of x e =
     \<lparr>ar_timestamp = now_timestamp (x_clock x), ar_user = ae_user e, ar_tool = ae_tool e,
      ar_args = ae_args e, ar_org = ae_org e, ar_repo = ae_repo e, ar_branch = ae_branch e,
      ar_operation = ae_operation e, ar_decision = ae_decision e\<rparr>"

text \<open>A failed write is only logged; the request goes on.\<close>

definition write_audit :: "outside \<Rightarrow> audit_entry \<Rightarrow> broker \<Rightarrow> broker" where
  "write_audit x e b =
     (case audit_write (x_json x) (record_of x e) (b_audit b) of
        (_, l) \<Rightarrow> record_event (Audited (record_of x e)) (b\<lparr>b_audit := l\<rparr>))"

subsection \<open>Frames\<close>

definition send_denied :: "outside \<Rightarrow> string \<Rightarrow> conn \<Rightarrow> (protocol_error + unit) \<times> conn" where
  "send_denied x reason c = send_frame (x_ser x) (Denied reason) c"

definition stream_text :: "outside \<Rightarrow> string \<Rightarrow> conn \<Rightarrow> (protocol_error + unit) \<times> conn" where
  "stream_text x txt c = send_frame (x_ser x) (StdoutChunk txt) c"

definition finish_explain :: "outside \<Rightarrow> i32 \<Rightarrow> conn \<Rightarrow> (protocol_error + unit) \<times> conn" where
  "finish_explain x code c =
     (case send_frame (x_ser x) (Exit code) c of
        (Inl e, c') \<Rightarrow> (Inl e, c')
      | (Inr _, c') \<Rightarrow> (Inr (), shutdown c'))"

text \<open>The operator \<open>?\<close> on two sends in a row.\<close>

definition then_send ::
    "(protocol_error + unit) \<times> conn \<Rightarrow> (conn \<Rightarrow> (protocol_error + unit) \<times> conn) \<Rightarrow> (protocol_error + unit) \<times> conn" where
  "then_send m k = (case m of (Inl e, c) \<Rightarrow> (Inl e, c) | (Inr _, c) \<Rightarrow> k c)"

subsection \<open>Credentials and the environment of a child\<close>

definition load_user_credentials :: "outside \<Rightarrow> string \<Rightarrow> path option \<Rightarrow> credential_error + credentials" where
  "load_user_credentials x username root =
     (case root of
        Some base \<Rightarrow> load_credentials_from (x_fs x) base username
      | None \<Rightarrow> load_credentials (x_fs x) username)"

text \<open>
  The variables and the two guards kept alive for the child, with the actions that starting an
  agent made. Only \<open>Git\<close> and \<open>Gh\<close> reach this function.
\<close>

definition build_env ::
    "outside \<Rightarrow> tool \<Rightarrow> resolved_request \<Rightarrow> credentials \<Rightarrow>
     (credential_error + env \<times> https_env option \<times> agent_handle option) \<times> action list" where
  "build_env x t resolved creds =
     (if t = Gh then (Inr (gh_env (x_getenv x) (token creds), None, None), [])
      else (case rr_url_scheme resolved of
              Ssh \<Rightarrow>
                (case start_ssh_agent (x_host x) creds of
                   (Inl e, acts) \<Rightarrow> (Inl e, acts)
                 | (Inr (vars, h), acts) \<Rightarrow> (Inr (vars, None, Some h), acts))
            | Https \<Rightarrow>
                (case https_git_env (x_askpass x) creds of
                   Inl e \<Rightarrow> (Inl e, [])
                 | Inr env \<Rightarrow> (Inr (https_vars env, Some env, None), []))))"

definition child_spec_for :: "string \<Rightarrow> request \<Rightarrow> env \<Rightarrow> peer \<Rightarrow> child_spec" where
  "child_spec_for program req vars ident =
     \<lparr>cs_program = program, cs_args = args req, cs_env = vars, cs_cwd = cwd req,
      cs_uid = Some (pid_uid ident), cs_gid = Some (pid_gid ident),
      cs_supplementary_gids = pid_supplementary_gids ident, cs_home = Some (pid_home ident)\<rparr>"

definition stream_child_over_connection ::
    "outside \<Rightarrow> child_spec \<Rightarrow> request \<Rightarrow> conn \<Rightarrow> broker \<Rightarrow> conn \<times> broker" where
  "stream_child_over_connection x spec req c b =
     (let (_, rn, s, c') =
            stream_child (x_ser x) (x_de x) (x_getenv x) (x_kernel x) (x_daemon x) (x_children x) spec
              (if client_frames req then cn_in c else []) c;
          c'' = (if client_frames req then c'\<lparr>cn_in := s\<rparr> else c') in
        (shutdown c'', (case rn of None \<Rightarrow> b | Some q \<Rightarrow> record_event (Spawned q) b)))"

text \<open>The process a health check starts, if it can be started.\<close>

definition record_probe :: "outside \<Rightarrow> check_inputs \<Rightarrow> broker \<Rightarrow> broker" where
  "record_probe x inputs b =
     (case probe_call (x_fs x) (x_getenv x) inputs of
        None \<Rightarrow> b
      | Some (argv, vars) \<Rightarrow> if x_probe x argv vars = None then b else record_event (Probed argv vars) b)"

subsection \<open>Lemmas\<close>

lemma record_probe_simps [simp]:
  "b_handle (record_probe x i b) = b_handle b" "b_policy_file (record_probe x i b) = b_policy_file b"
  "b_audit (record_probe x i b) = b_audit b"
  by (simp_all add: record_probe_def record_event_def split: option.split)

lemma record_probe_events:
  obtains "b_events (record_probe x i b) = b_events b"
  | argv vars where "probe_call (x_fs x) (x_getenv x) i = Some (argv, vars)"
      "b_events (record_probe x i b) = b_events b @ [Probed argv vars]"
  by (cases "probe_call (x_fs x) (x_getenv x) i"; cases "x_probe x (fst (the (probe_call (x_fs x) (x_getenv x) i)))
      (snd (the (probe_call (x_fs x) (x_getenv x) i)))")
    (auto simp: record_probe_def record_event_def)

lemma operation_name_tag [simp]: "operation_name op = tag op"
  by (cases op) simp_all

lemma operation_name_fun: "operation_name = tag"
  by (rule ext) simp

lemma record_event_simps [simp]:
  "b_handle (record_event e b) = b_handle b" "b_policy_file (record_event e b) = b_policy_file b"
  "b_audit (record_event e b) = b_audit b" "b_events (record_event e b) = b_events b @ [e]"
  by (simp_all add: record_event_def)

lemma write_audit_simps [simp]:
  "b_handle (write_audit x e b) = b_handle b" "b_policy_file (write_audit x e b) = b_policy_file b"
  "b_events (write_audit x e b) = b_events b @ [Audited (record_of x e)]"
  by (simp_all add: write_audit_def split: prod.split)

lemma stream_child_over_connection_broker:
  "snd (stream_child_over_connection x spec req c b) = b \<or>
   (\<exists>q. snd (stream_child_over_connection x spec req c b) = record_event (Spawned q) b \<and>
      ran_command q = apply_privilege_drop (p_euid (x_daemon x)) spec (build_command (x_getenv x) spec) \<and>
      spawn (x_kernel x) (ran_command q) (x_daemon x) = Inr (ran_proc q))"
proof -
  obtain r rn s c' where run: "stream_child (x_ser x) (x_de x) (x_getenv x) (x_kernel x) (x_daemon x)
      (x_children x) spec (if client_frames req then cn_in c else []) c = (r, rn, s, c')"
    by (metis prod_cases4)
  show ?thesis
  proof (cases rn)
    case None
    with run show ?thesis by (simp add: stream_child_over_connection_def)
  next
    case (Some q)
    have "snd (stream_child_over_connection x spec req c b) = record_event (Spawned q) b"
      using run Some by (simp add: stream_child_over_connection_def)
    with stream_child_spawned [OF run [unfolded Some]] show ?thesis by blast
  qed
qed

subsection \<open>An example world\<close>

definition bob_rule :: rule where
  "bob_rule =
     \<lparr>rule_user = ''bob'', rule_org = ''acme'', rule_repo = ''web'', rule_spec = OpList [Push],
      rule_branches = [''*''], rule_effect = EffAllow\<rparr>"

definition example_parse :: yaml_parser where
  "example_parse t =
     (if t = ''old'' then Inr example_policy
      else if t = ''new'' then Inr (push_rule bob_rule example_policy) else Inl ''no document'')"

definition example_print :: "policy \<Rightarrow> string + string" where
  "example_print p = (if p = push_rule bob_rule example_policy then Inr ''new'' else Inl ''unprintable'')"

definition example_outside :: outside where
  "example_outside =
     \<lparr>x_fs = example_store, x_glob = example_glob, x_yaml_parse = example_parse, x_yaml_print = example_print,
      x_persist = \<lparr>pi_join = None, pi_tempfile_in = (\<lambda>_. None), pi_set_permissions = None, pi_write_all = None,
                   pi_sync_all = None, pi_persist = None\<rparr>,
      x_ser = (\<lambda>_. Inr ''{}''), x_de = example_de,
      x_de_request = (\<lambda>_. Inl ''no request''),
      x_json = example_json, x_clock = Some ''2024-01-01T00:00:00Z'', x_getenv = (\<lambda>_. None), x_dbg = id,
      x_kernel = example_kernel, x_daemon = example_daemon, x_children = example_child,
      x_host = \<lparr>ho_group = Inr (Some 991), ho_tempdir = Inr ''/tmp/agent'', ho_chmod = (\<lambda>_. None),
                ho_chgrp = (\<lambda>_. None), ho_spawn_agent = None, ho_exists = (\<lambda>_. True), ho_ssh_add = Inr None,
                ho_bind = None, ho_kill = None, ho_wait = None, ho_remove_dir = (\<lambda>_. None)\<rparr>,
      x_askpass = \<lparr>ai_tempfile = Inr ''/tmp/askpass.sh'', ai_write_line1 = Inr (), ai_write_line2 = Inr (),
                   ai_metadata = Inr \<lparr>md_kind = KFile, md_mode = 0x8180, md_uid = 990, md_dev = 0, md_ino = 0\<rparr>,
                   ai_set_permissions = Inr ()\<rparr>,
      x_probe = (\<lambda>_ _. None),
      x_user_from_uid = (\<lambda>uid.
        if uid = 0 then Inr (Some \<lparr>pw_name = ''root'', pw_uid = 0, pw_gid = 0, pw_dir = ''/root''\<rparr>)
        else if uid = 1000 then Inr (Some \<lparr>pw_name = ''alice'', pw_uid = 1000, pw_gid = 1000, pw_dir = ''/home/alice''\<rparr>)
        else Inr None),
      x_getgrouplist = (\<lambda>_ gid. Inr [gid])\<rparr>"

definition example_broker :: broker where
  "example_broker =
     \<lparr>b_handle = example_policy, b_policy_file = Inr ''old'', b_audit = example_logger, b_events = []\<rparr>"

definition root_identity :: peer where
  "root_identity =
     \<lparr>pid_username = ''root'', pid_uid = 0, pid_gid = 0, pid_supplementary_gids = [0], pid_home = ''/root''\<rparr>"

definition alice_identity :: peer where
  "alice_identity =
     \<lparr>pid_username = ''alice'', pid_uid = 1000, pid_gid = 1000, pid_supplementary_gids = [1000],
      pid_home = ''/home/alice''\<rparr>"

lemma example_outside_simps [simp]:
  "x_fs example_outside = example_store" "x_glob example_outside = example_glob"
  "x_yaml_parse example_outside = example_parse" "x_yaml_print example_outside = example_print"
  "x_daemon example_outside = example_daemon" "x_kernel example_outside = example_kernel"
  "x_children example_outside = example_child" "x_json example_outside = example_json"
  "x_ser example_outside = (\<lambda>_. Inr ''{}'')" "x_getenv example_outside = (\<lambda>_. None)"
  "pi_join (x_persist example_outside) = None" "pi_tempfile_in (x_persist example_outside) p = None"
  "pi_set_permissions (x_persist example_outside) = None" "pi_write_all (x_persist example_outside) = None"
  "pi_sync_all (x_persist example_outside) = None" "pi_persist (x_persist example_outside) = None"
  by (simp_all add: example_outside_def)

end
