(* ===== verification/Broker_Allow.thy ===== *)
theory Broker_Allow
  imports Broker_Base
begin

section \<open>Granting permissions\<close>

text \<open>
  The privileged \<open>allow\<close> request of \<open>src/src/broker.rs\<close>: the root gate, the parsing and validation
  of the grant, the atomic rewrite of the policy file, the hot reload of the policy handle and the
  confirmation. \<open>serde_yaml\<close> is a pair of parameters; what is relied on, where it is, is that the
  text it prints for a policy parses back to the same policy.
\<close>

subsection \<open>The request\<close>

record allow_request =
  alr_org :: string
  alr_repo :: string
  alr_target_user :: string
  alr_operations :: operations_spec

definition parse_repo_spec :: "string \<Rightarrow> (string \<times> string) option" where
  "parse_repo_spec spec =
     (case split_once CHR ''/'' spec of
        None \<Rightarrow> None
      | Some (org, repo) \<Rightarrow> if org = [] \<or> repo = [] \<or> CHR ''/'' \<in> set repo then None else Some (org, repo))"

definition BUILTIN_ROLE_NAMES :: "string list" where
  "BUILTIN_ROLE_NAMES = [''read-only'', ''write'', ''maintain'', ''admin'']"

definition is_known_role :: "string \<Rightarrow> bool" where
  "is_known_role name = (parse_operation name = None \<and> name \<in> set BUILTIN_ROLE_NAMES)"

fun parse_operation_list :: "string list \<Rightarrow> operation list \<Rightarrow> string + operation list" where
  "parse_operation_list [] ops = Inr ops"
| "parse_operation_list (operand # rest) ops =
     (case parse_operation operand of
        Some op \<Rightarrow> parse_operation_list rest (ops @ [op])
      | None \<Rightarrow> Inl (''allow: unknown operation '' @ quoted operand))"

definition parse_operations_spec :: "string list \<Rightarrow> string + operations_spec" where
  "parse_operations_spec operands =
     (case operands of
        [only] \<Rightarrow>
          if is_known_role only then Inr (Role only)
          else (case parse_operation only of
                  Some op \<Rightarrow> Inr (OpList [op])
                | None \<Rightarrow> Inl (''allow: '' @ quoted only @ '' is neither a known operation nor a known role''))
      | _ \<Rightarrow> (case parse_operation_list operands [] of Inl e \<Rightarrow> Inl e | Inr ops \<Rightarrow> Inr (OpList ops)))"

text \<open>The loop over the arguments after the repository: the target user and the operands so far.\<close>

fun scan_allow_args :: "string list \<Rightarrow> string \<Rightarrow> string list \<Rightarrow> string + (string \<times> string list)" where
  "scan_allow_args [] target operands = Inr (target, operands)"
| "scan_allow_args (arg # rest) target operands =
     (if arg = ''--user''
      then (case rest of
              [] \<Rightarrow> Inl ''allow: --user requires a username''
            | v # rest' \<Rightarrow>
                if v = [] then Inl ''allow: --user requires a non-empty username''
                else scan_allow_args rest' v operands)
      else scan_allow_args rest target (operands @ [arg]))"

definition parse_allow_args :: "string list \<Rightarrow> string \<Rightarrow> string + allow_request" where
  "parse_allow_args as caller =
     (case as of
        [] \<Rightarrow> Inl ''allow: missing repo specifier; expected org/repo''
      | spec # rest \<Rightarrow>
          (case parse_repo_spec spec of
             None \<Rightarrow> Inl (''allow: invalid repo specifier '' @ quoted spec @ ''; expected org/repo'')
           | Some (org, repo) \<Rightarrow>
               (case scan_allow_args rest caller [] of
                  Inl e \<Rightarrow> Inl e
                | Inr (target, operands) \<Rightarrow>
                    if operands = [] then Inl ''allow: no operations or role specified''
                    else (case parse_operations_spec operands of
                            Inl e \<Rightarrow> Inl e
                          | Inr ops \<Rightarrow>
                              Inr \<lparr>alr_org = org, alr_repo = repo, alr_target_user = target,
                                   alr_operations = ops\<rparr>))))"

definition validate_grant :: "operations_spec \<Rightarrow> policy \<Rightarrow> string + unit" where
  "validate_grant ops p =
     (case ops of
        Role name \<Rightarrow> if resolve_role p name = None then Inl (''allow: unknown role '' @ quoted name) else Inr ()
      | OpList _ \<Rightarrow> Inr ())"

definition describe_operations :: "operations_spec \<Rightarrow> string" where
  "describe_operations ops =
     (case ops of
        Role name \<Rightarrow> ''role '' @ quoted name
      | OpList l \<Rightarrow> join_with '', '' (map operation_name l))"

subsection \<open>The policy file\<close>

text \<open>
  The content of the policy file is what \<open>read_to_string\<close> would answer. Every failure before the
  rename leaves it as it is.
\<close>

definition append_rule_atomically ::
    "outside \<Rightarrow> path \<Rightarrow> rule \<Rightarrow> io_error + string \<Rightarrow> (io_error + string) \<times> (io_error + string)" where
  "append_rule_atomically x policy_path r content =
     (case content of
        Inl e \<Rightarrow> (Inl e, content)
      | Inr txt \<Rightarrow>
     (case from_yaml (x_yaml_parse x) (x_glob x) txt of
        Inl e \<Rightarrow> (Inl \<lparr>io_kind = InvalidData, io_text = policy_error_text e\<rparr>, content)
      | Inr p \<Rightarrow>
     (case x_yaml_print x (push_rule r p) of
        Inl e \<Rightarrow> (Inl \<lparr>io_kind = InvalidData, io_text = e\<rparr>, content)
      | Inr serialised \<Rightarrow>
     (case pi_tempfile_in (x_persist x) (unwrap_or ''.'' (path_parent policy_path)) of
        Some e \<Rightarrow> (Inl e, content)
      | None \<Rightarrow>
     (case pi_set_permissions (x_persist x) of
        Some e \<Rightarrow> (Inl e, content)
      | None \<Rightarrow>
     (case pi_write_all (x_persist x) of
        Some e \<Rightarrow> (Inl e, content)
      | None \<Rightarrow>
     (case pi_sync_all (x_persist x) of
        Some e \<Rightarrow> (Inl e, content)
      | None \<Rightarrow>
     (case pi_persist (x_persist x) of
        Some e \<Rightarrow> (Inl \<lparr>io_kind = OtherKind, io_text = io_text e\<rparr>, content)
      | None \<Rightarrow> (Inr serialised, Inr serialised)))))))))"

subsection \<open>The handler\<close>

definition audit_allow ::
    "outside \<Rightarrow> string \<Rightarrow> string list \<Rightarrow> string \<Rightarrow> string \<Rightarrow> audit_decision \<Rightarrow> broker \<Rightarrow> broker" where
  "audit_allow x u as org repo d b =
     write_audit x
       \<lparr>ae_user = u, ae_tool = ''allow'', ae_args = as, ae_org = org, ae_repo = repo, ae_branch = None,
        ae_operation = ''allow'', ae_decision = d\<rparr> b"

text \<open>Every refusal audits its reason and sends it.\<close>

definition refuse_allow ::
    "outside \<Rightarrow> string \<Rightarrow> string list \<Rightarrow> string \<Rightarrow> string \<Rightarrow> string \<Rightarrow> conn \<Rightarrow> broker \<Rightarrow>
     (protocol_error + unit) \<times> conn \<times> broker" where
  "refuse_allow x u as org repo reason c b =
     (let b' = audit_allow x u as org repo (AuditDeny reason) b;
          (r, c') = send_denied x reason c in (r, c', b'))"

definition grant_rule :: "allow_request \<Rightarrow> rule" where
  "grant_rule a =
     \<lparr>rule_user = alr_target_user a, rule_org = alr_org a, rule_repo = alr_repo a,
      rule_spec = alr_operations a, rule_branches = [''*''], rule_effect = EffAllow\<rparr>"

definition confirmation :: "allow_request \<Rightarrow> string" where
  "confirmation a =
     ''granted '' @ describe_operations (alr_operations a) @ '' on '' @ alr_org a @ ''/'' @ alr_repo a @
     '' to '' @ alr_target_user a @ newline"

text \<open>The update of the file and of the handle, after the grant was accepted.\<close>

definition apply_grant ::
    "outside \<Rightarrow> string \<Rightarrow> string list \<Rightarrow> path \<Rightarrow> allow_request \<Rightarrow> conn \<Rightarrow> broker \<Rightarrow>
     (protocol_error + unit) \<times> conn \<times> broker" where
  "apply_grant x u as policy_path a c b =
     (case pi_join (x_persist x) of
        Some err \<Rightarrow>
          refuse_allow x u as (alr_org a) (alr_repo a) (''allow: policy write task failed: '' @ err) c b
      | None \<Rightarrow>
     (case append_rule_atomically x policy_path (grant_rule a) (b_policy_file b) of
        (Inl err, content) \<Rightarrow>
          refuse_allow x u as (alr_org a) (alr_repo a)
            (''allow: failed to update policy file: '' @ io_text err @ '' (policy path: '' @ policy_path @
             ''; hint: set GHBRK_POLICY to a writable path such as /var/etc/ghbrk/policy.yaml)'')
            c (b\<lparr>b_policy_file := content\<rparr>)
      | (Inr new_text, content) \<Rightarrow>
          let b1 = record_event (PolicyWritten new_text) (b\<lparr>b_policy_file := content\<rparr>) in
            (case from_yaml (x_yaml_parse x) (x_glob x) new_text of
               Inl err \<Rightarrow>
                 refuse_allow x u as (alr_org a) (alr_repo a)
                   (''allow: wrote policy but failed to reload it: '' @ policy_error_text err) c b1
             | Inr reloaded \<Rightarrow>
                 let b2 = audit_allow x u as (alr_org a) (alr_repo a) AuditAllow
                            (record_event (HandleStored reloaded) (b1\<lparr>b_handle := reloaded\<rparr>));
                     (r, c') = then_send (stream_text x (confirmation a) c) (send_frame (x_ser x) (Exit 0)) in
                   (r, c', b2))))"

definition handle_allow ::
    "outside \<Rightarrow> string list \<Rightarrow> peer \<Rightarrow> path \<Rightarrow> conn \<Rightarrow> broker \<Rightarrow>
     (protocol_error + unit) \<times> conn \<times> broker" where
  "handle_allow x as ident policy_path c b =
     (let u = pid_username ident in
        if pid_uid ident \<noteq> 0
        then refuse_allow x u as [] [] ''allow requires elevated privileges (root)'' c b
        else (case parse_allow_args as u of
                Inl reason \<Rightarrow> refuse_allow x u as [] [] reason c b
              | Inr a \<Rightarrow>
                  (case validate_grant (alr_operations a) (b_handle b) of
                     Inl reason \<Rightarrow> refuse_allow x u as (alr_org a) (alr_repo a) reason c b
                   | Inr _ \<Rightarrow> apply_grant x u as policy_path a c b)))"

subsection \<open>Lemmas\<close>

lemma parse_repo_spec_ok:
  "parse_repo_spec spec = Some (org, repo) \<longleftrightarrow> parse_org_repo_pair spec = Inr (org, repo)"
  by (auto simp: parse_repo_spec_def parse_org_repo_pair_def split: option.splits)

lemma refuse_allow_broker:
  "snd (snd (refuse_allow x u as org repo reason c b)) = audit_allow x u as org repo (AuditDeny reason) b"
  by (simp add: refuse_allow_def Let_def split: prod.split)

lemma audit_allow_simps [simp]:
  "b_handle (audit_allow x u as org repo d b) = b_handle b"
  "b_policy_file (audit_allow x u as org repo d b) = b_policy_file b"
  "\<exists>r. b_events (audit_allow x u as org repo d b) = b_events b @ [Audited r]"
  by (simp_all add: audit_allow_def)

lemma append_rule_atomically_result:
  "append_rule_atomically x p r content = (res, content') \<Longrightarrow>
     (case res of
        Inl e \<Rightarrow> content' = content
      | Inr yml \<Rightarrow> content' = Inr yml \<and>
          (\<exists>old q. content = Inr old \<and> from_yaml (x_yaml_parse x) (x_glob x) old = Inr q \<and>
             x_yaml_print x (push_rule r q) = Inr yml))"
  by (auto simp: append_rule_atomically_def split: sum.splits option.splits)

lemma refuse_allow_result:
  assumes "refuse_allow x u as org repo reason c b = (r, c', b')"
  shows "b' = audit_allow x u as org repo (AuditDeny reason) b"
    and "r = Inr () \<Longrightarrow> cn_sent c' = cn_sent c @ [Denied reason]"
proof -
  obtain sr c1 where sr: "send_denied x reason c = (sr, c1)" by fastforce
  with assms have "r = sr" "c' = c1" "b' = audit_allow x u as org repo (AuditDeny reason) b"
    by (simp_all add: refuse_allow_def Let_def)
  with send_frame_result [OF sr [unfolded send_denied_def]]
  show "b' = audit_allow x u as org repo (AuditDeny reason) b"
    and "r = Inr () \<Longrightarrow> cn_sent c' = cn_sent c @ [Denied reason]" by simp_all
qed

lemma then_send_sent:
  assumes "then_send (send_frame ser v c) (send_frame ser w) = (Inr u, c')"
  shows "cn_sent c' = cn_sent c @ [v, w]"
proof -
  from assms obtain u1 c1 where c1: "send_frame ser v c = (Inr u1, c1)" "send_frame ser w c1 = (Inr u, c')"
    by (auto simp: then_send_def split: prod.splits sum.splits)
  from send_frame_result [OF c1(1)] send_frame_result [OF c1(2)] show ?thesis by simp
qed

text \<open>The three ways through \<open>apply_grant\<close>, before what each leaves behind is spelt out.\<close>

lemma apply_grant_split:
  assumes "apply_grant x u as p a c b = (r, c', b')"
  obtains
    (refuse) reason where "refuse_allow x u as (alr_org a) (alr_repo a) reason c b = (r, c', b')"
  | (written) old q yml reloaded where
      "b_policy_file b = Inr old" "from_yaml (x_yaml_parse x) (x_glob x) old = Inr q"
      "x_yaml_print x (push_rule (grant_rule a) q) = Inr yml"
      "from_yaml (x_yaml_parse x) (x_glob x) yml = reloaded"
      "(case reloaded of
          Inl e \<Rightarrow> \<exists>reason. refuse_allow x u as (alr_org a) (alr_repo a) reason c
            (record_event (PolicyWritten yml) (b\<lparr>b_policy_file := Inr yml\<rparr>)) = (r, c', b')
        | Inr new \<Rightarrow>
            b' = audit_allow x u as (alr_org a) (alr_repo a) AuditAllow
              (record_event (HandleStored new)
                ((record_event (PolicyWritten yml) (b\<lparr>b_policy_file := Inr yml\<rparr>))\<lparr>b_handle := new\<rparr>)) \<and>
            then_send (stream_text x (confirmation a) c) (send_frame (x_ser x) (Exit 0)) = (r, c'))"
proof -
  obtain ar content where ar: "append_rule_atomically x p (grant_rule a) (b_policy_file b) = (ar, content)"
    by fastforce
  note content_is = append_rule_atomically_result [OF ar]
  consider (join) err where "pi_join (x_persist x) = Some err"
    | (kept) err where "pi_join (x_persist x) = None" "ar = Inl err"
    | (new) yml where "pi_join (x_persist x) = None" "ar = Inr yml"
    by (cases "pi_join (x_persist x)"; cases ar) blast+
  then show thesis
  proof cases
    case (join err)
    with assms refuse show thesis by (simp add: apply_grant_def)
  next
    case (kept err)
    with content_is assms ar refuse show thesis by (simp add: apply_grant_def)
  next
    case (new yml)
    with content_is obtain old q where old: "content = Inr yml" "b_policy_file b = Inr old"
      "from_yaml (x_yaml_parse x) (x_glob x) old = Inr q"
      "x_yaml_print x (push_rule (grant_rule a) q) = Inr yml" by auto
    show thesis
    proof (rule written [OF old(2-4) refl], cases "from_yaml (x_yaml_parse x) (x_glob x) yml", goal_cases)
      case (1 e)
      with assms ar new old(1) show ?case by (auto simp: apply_grant_def Let_def)
    next
      case (2 q')
      with assms ar new old(1) show ?case by (simp add: apply_grant_def Let_def split: prod.splits)
    qed
  qed
qed

lemma audit_allow_record:
  "\<exists>rec. b_events (audit_allow x u as org repo d b) = b_events b @ [Audited rec] \<and> ar_decision rec = d"
  by (simp add: audit_allow_def) (simp add: record_of_def)

text \<open>The three ways an accepted grant ends.\<close>

lemma apply_grant_cases:
  assumes "apply_grant x u as p a c b = (r, c', b')"
  obtains
    (granted) old q yml new rec where
      "b_policy_file b = Inr old" "from_yaml (x_yaml_parse x) (x_glob x) old = Inr q"
      "x_yaml_print x (push_rule (grant_rule a) q) = Inr yml"
      "from_yaml (x_yaml_parse x) (x_glob x) yml = Inr new"
      "b_policy_file b' = Inr yml" "b_handle b' = new"
      "b_events b' = b_events b @ [PolicyWritten yml, HandleStored new, Audited rec]"
      "ar_decision rec = AuditAllow"
      "r = Inr () \<Longrightarrow> cn_sent c' = cn_sent c @ [StdoutChunk (confirmation a), Exit 0]"
  | (refused) reason rec where
      "b_policy_file b' = b_policy_file b" "b_handle b' = b_handle b"
      "b_events b' = b_events b @ [Audited rec]" "ar_decision rec = AuditDeny reason"
      "r = Inr () \<Longrightarrow> cn_sent c' = cn_sent c @ [Denied reason]"
  | (unreadable) old q yml e reason rec where
      "b_policy_file b = Inr old" "from_yaml (x_yaml_parse x) (x_glob x) old = Inr q"
      "x_yaml_print x (push_rule (grant_rule a) q) = Inr yml"
      "from_yaml (x_yaml_parse x) (x_glob x) yml = Inl e"
      "b_policy_file b' = Inr yml" "b_handle b' = b_handle b"
      "b_events b' = b_events b @ [PolicyWritten yml, Audited rec]" "ar_decision rec = AuditDeny reason"
      "r = Inr () \<Longrightarrow> cn_sent c' = cn_sent c @ [Denied reason]"
  using assms
proof (cases rule: apply_grant_split)
  case (refuse reason)
  obtain rec where "b_events b' = b_events b @ [Audited rec]" "ar_decision rec = AuditDeny reason"
    using audit_allow_record [of x u as "alr_org a" "alr_repo a" "AuditDeny reason" b]
    unfolding refuse_allow_result(1) [OF refuse] by blast
  with refuse_allow_result [OF refuse] refused show thesis by simp
next
  case (written old q yml reloaded)
  show thesis
  proof (cases reloaded)
    case (Inl e)
    with written(5) obtain reason where refuse: "refuse_allow x u as (alr_org a) (alr_repo a) reason c
        (record_event (PolicyWritten yml) (b\<lparr>b_policy_file := Inr yml\<rparr>)) = (r, c', b')" by auto
    obtain rec where "b_events b' = b_events b @ [PolicyWritten yml, Audited rec]" "ar_decision rec = AuditDeny reason"
      using audit_allow_record [of x u as "alr_org a" "alr_repo a" "AuditDeny reason"
          "record_event (PolicyWritten yml) (b\<lparr>b_policy_file := Inr yml\<rparr>)"]
      unfolding refuse_allow_result(1) [OF refuse] by auto
    with refuse_allow_result [OF refuse] unreadable [OF written(1-4) [unfolded Inl]] show thesis by simp
  next
    case (Inr new)
    with written(5) have b': "b' = audit_allow x u as (alr_org a) (alr_repo a) AuditAllow
        (record_event (HandleStored new)
          ((record_event (PolicyWritten yml) (b\<lparr>b_policy_file := Inr yml\<rparr>))\<lparr>b_handle := new\<rparr>))"
      and sent: "then_send (stream_text x (confirmation a) c) (send_frame (x_ser x) (Exit 0)) = (r, c')" by simp_all
    obtain rec where "b_events b' = b_events b @ [PolicyWritten yml, HandleStored new, Audited rec]" "ar_decision rec = AuditAllow"
      using audit_allow_record [of x u as "alr_org a" "alr_repo a" AuditAllow "record_event (HandleStored new)
          ((record_event (PolicyWritten yml) (b\<lparr>b_policy_file := Inr yml\<rparr>))\<lparr>b_handle := new\<rparr>)"]
      unfolding b' by auto
    moreover have "r = Inr () \<Longrightarrow> cn_sent c' = cn_sent c @ [StdoutChunk (confirmation a), Exit 0]"
      using sent then_send_sent by (simp add: stream_text_def)
    ultimately show thesis using granted [OF written(1-4) [unfolded Inr]] b' by simp
  qed
qed

text \<open>
  A policy as loading leaves it: the path of a \<open>gh_api_read\<close> entry is not part of its tag, so a
  loaded policy has none.
\<close>

definition canonical_op :: "operation \<Rightarrow> bool" where
  "canonical_op op = (case op of GhApiRead p \<Rightarrow> p = [] | _ \<Rightarrow> True)"

definition canonical_spec :: "operations_spec \<Rightarrow> bool" where
  "canonical_spec s = (case s of Role _ \<Rightarrow> True | OpList ops \<Rightarrow> list_all canonical_op ops)"

definition canonical_policy :: "policy \<Rightarrow> bool" where
  "canonical_policy p \<longleftrightarrow>
     list_all (\<lambda>r. canonical_spec (rule_spec r)) (rules p) \<and> list_all (\<lambda>(_, ops). list_all canonical_op ops) (roles p)"

text \<open>What is relied on of \<open>serde_yaml\<close>: documents parse to canonical policies, and print and parse agree.\<close>

definition yaml_sound :: "yaml_parser \<Rightarrow> (policy \<Rightarrow> string + string) \<Rightarrow> bool" where
  "yaml_sound parse print \<longleftrightarrow>
     (\<forall>t p. parse t = Inr p \<longrightarrow> canonical_policy p) \<and>
     (\<forall>t p. canonical_policy p \<longrightarrow> print p = Inr t \<longrightarrow> (\<exists>p'. parse t = Inr p' \<and> same_policy p' p \<and> set (roles p') = set (roles p)))"

lemma wf_policy_same:
  assumes "same_policy p' p" "set (roles p') = set (roles p)"
  shows "wf_policy glob p' \<longleftrightarrow> wf_policy glob p"
proof -
  have "wf_rule glob p' = wf_rule glob p"
    using resolve_role_same [OF assms(1)] by (simp add: wf_rule_def wf_spec_def fun_eq_iff split: operations_spec.split)
  with assms show ?thesis by (simp add: wf_policy_def same_policy_def list_all_iff)
qed

lemma parse_operation_canonical: "parse_operation t = Some op \<Longrightarrow> canonical_op op"
  by (auto simp: parse_operation_def from_tag_def canonical_op_def split: if_splits)

lemma parse_operation_list_ok:
  "parse_operation_list operands ops = Inr l \<Longrightarrow> list_all canonical_op ops \<Longrightarrow>
   list_all canonical_op l \<and> length l = length ops + length operands"
  by (induction operands ops rule: parse_operation_list.induct)
    (auto split: option.splits dest: parse_operation_canonical)

lemma parse_operations_spec_ok:
  assumes "parse_operations_spec operands = Inr s" "operands \<noteq> []"
  shows "canonical_spec s" and "wf_spec p s"
proof -
  have "canonical_spec s \<and> wf_spec p s"
  proof (cases "\<exists>only. operands = [only]")
    case True
    then obtain only where only: "operands = [only]" by blast
    show ?thesis
    proof (cases "is_known_role only")
      case True
      then have "map_of builtin_roles only \<noteq> None"
        by (auto simp: is_known_role_def BUILTIN_ROLE_NAMES_def builtin_roles_def)
      with True only assms(1) show ?thesis
        by (auto simp: parse_operations_spec_def canonical_spec_def wf_spec_def resolve_role_def split: option.splits)
    next
      case False
      with only assms(1) show ?thesis
        by (auto simp: parse_operations_spec_def canonical_spec_def wf_spec_def
            dest: parse_operation_canonical split: option.splits)
    qed
  next
    case False
    with assms(2) obtain l where l: "parse_operation_list operands [] = Inr l" "s = OpList l"
      using assms(1) by (auto simp: parse_operations_spec_def split: list.splits sum.splits)
    from parse_operation_list_ok [OF l(1)] assms(2) show ?thesis
      by (auto simp: l(2) canonical_spec_def wf_spec_def)
  qed
  then show "canonical_spec s" and "wf_spec p s" by auto
qed

lemma scan_allow_args_target:
  "scan_allow_args as t ops = Inr (t', ops') \<Longrightarrow> t \<noteq> [] \<Longrightarrow> t' \<noteq> []"
proof (induction as t ops rule: scan_allow_args.induct)
  case (1 t ops)
  then show ?case by simp
next
  case (2 arg rest t ops)
  show ?case
  proof (cases "arg = ''--user''")
    case False
    with "2.prems"(1) have "scan_allow_args rest t (ops @ [arg]) = Inr (t', ops')"
      by (simp only: scan_allow_args.simps if_False)
    with False "2.IH"(2) "2.prems"(2) show ?thesis by simp
  next
    case True
    show ?thesis
    proof (cases rest)
      case Nil
      with True "2.prems" show ?thesis by simp
    next
      case (Cons v rest')
      with True "2.prems" have "v \<noteq> []" "scan_allow_args rest' v ops = Inr (t', ops')"
        by (simp_all split: if_split_asm)
      with "2.IH"(1) [OF True Cons] show ?thesis by simp
    qed
  qed
qed

lemma parse_allow_args_ok:
  assumes "parse_allow_args as caller = Inr a"
  shows "wf_name (alr_org a)" "wf_name (alr_repo a)" "caller \<noteq> [] \<Longrightarrow> alr_target_user a \<noteq> []"
    "canonical_spec (alr_operations a)" "wf_spec p (alr_operations a)"
proof -
  from assms obtain spec rest org repo target operands ops where
    "as = spec # rest" "parse_repo_spec spec = Some (org, repo)"
    and s: "scan_allow_args rest caller [] = Inr (target, operands)" "operands \<noteq> []"
      "parse_operations_spec operands = Inr ops"
    and a: "a = \<lparr>alr_org = org, alr_repo = repo, alr_target_user = target, alr_operations = ops\<rparr>"
    by (auto simp: parse_allow_args_def split: list.splits option.splits sum.splits if_splits)
  then have "wf_name org \<and> wf_name repo"
    by (simp add: parse_repo_spec_ok parse_org_repo_pair_ok)
  then show "wf_name (alr_org a)" "wf_name (alr_repo a)" by (simp_all add: a)
  show "caller \<noteq> [] \<Longrightarrow> alr_target_user a \<noteq> []"
    using scan_allow_args_target [OF s(1)] by (simp add: a)
  show "canonical_spec (alr_operations a)" "wf_spec p (alr_operations a)"
    using parse_operations_spec_ok [OF s(3,2)] by (simp_all add: a)
qed

lemma grant_reloads:
  assumes "yaml_sound (x_yaml_parse x) (x_yaml_print x)" and "x_glob x ''*'' = Inr m"
    and "parse_allow_args as u = Inr a"
    and "from_yaml (x_yaml_parse x) (x_glob x) old = Inr q"
    and "x_yaml_print x (push_rule (grant_rule a) q) = Inr yml"
  shows "\<exists>new. from_yaml (x_yaml_parse x) (x_glob x) yml = Inr new \<and> same_policy new (push_rule (grant_rule a) q)"
proof -
  from assms(4) have q: "x_yaml_parse x old = Inr q" "wf_policy (x_glob x) q" by (simp_all add: from_yaml_ok)
  with assms(1) have "canonical_policy q" unfolding yaml_sound_def by blast
  with parse_allow_args_ok(4) [OF assms(3)] have can: "canonical_policy (push_rule (grant_rule a) q)"
    by (simp add: canonical_policy_def grant_rule_def)
  with assms(1,5) obtain new where new: "x_yaml_parse x yml = Inr new"
    "same_policy new (push_rule (grant_rule a) q)" "set (roles new) = set (roles (push_rule (grant_rule a) q))"
    unfolding yaml_sound_def by blast
  have "wf_rule (x_glob x) q (grant_rule a)"
    using parse_allow_args_ok(5) [OF assms(3), of q] assms(2) by (simp add: wf_rule_def grant_rule_def)
  with q(2) have "wf_policy (x_glob x) new"
    using wf_policy_same [OF new(2,3)] by (simp add: wf_policy_push)
  with new show ?thesis by (auto simp: from_yaml_ok)
qed

lemma handle_allow_cases:
  assumes "handle_allow x as ident path c b = (r, c', b')"
  obtains
    (accepted) a where "pid_uid ident = 0" "parse_allow_args as (pid_username ident) = Inr a"
      "apply_grant x (pid_username ident) as path a c b = (r, c', b')"
  | (refused) org repo reason where
      "refuse_allow x (pid_username ident) as org repo reason c b = (r, c', b')"
  using assms by (auto simp: handle_allow_def Let_def split: if_splits sum.splits)

lemma example_yaml_sound: "yaml_sound example_parse example_print"
proof -
  have can: "canonical_policy example_policy" "canonical_policy (push_rule bob_rule example_policy)"
    by (simp_all add: canonical_policy_def example_policy_def push_rule_def canonical_spec_def example_rule_def
        bob_rule_def canonical_op_def)
  show ?thesis
    unfolding yaml_sound_def
  proof (intro conjI allI impI)
    fix t p assume "example_parse t = Inr p"
    with can show "canonical_policy p" by (auto simp: example_parse_def split: if_split_asm)
  next
    fix t p assume "example_print p = Inr t"
    then have "p = push_rule bob_rule example_policy" "t = ''new''"
      by (simp_all add: example_print_def split: if_split_asm)
    then show "\<exists>p'. example_parse t = Inr p' \<and> same_policy p' p \<and> set (roles p') = set (roles p)"
      by (simp add: example_parse_def same_policy_def)
  qed
qed

lemma example_glob_star: "example_glob ''*'' = Inr (\<lambda>b. True)"
  by (simp add: example_glob_def)

definition bob_grant :: "string list" where
  "bob_grant = [''acme/web'', ''--user'', ''bob'', ''push'']"

lemma bob_grant_parsed:
  "parse_allow_args bob_grant u =
     Inr \<lparr>alr_org = ''acme'', alr_repo = ''web'', alr_target_user = ''bob'', alr_operations = OpList [Push]\<rparr>"
proof -
  have "parse_repo_spec ''acme/web'' = Some (''acme'', ''web'')" by code_simp
  moreover have "parse_operations_spec [''push''] = Inr (OpList [Push])" by code_simp
  ultimately show ?thesis by (simp add: parse_allow_args_def bob_grant_def)
qed

lemma example_policy_loads: "from_yaml example_parse example_glob ''old'' = Inr example_policy"
  "from_yaml example_parse example_glob ''new'' = Inr (push_rule bob_rule example_policy)"
  unfolding from_yaml_def example_parse_def by code_simp+

lemma bob_grant_handle:
  "b_handle (snd (snd (handle_allow example_outside bob_grant root_identity ''/p'' example_conn example_broker))) =
     push_rule bob_rule example_policy"
proof -
  have g: "grant_rule \<lparr>alr_org = ''acme'', alr_repo = ''web'', alr_target_user = ''bob'', alr_operations = OpList [Push]\<rparr> = bob_rule"
    by (simp add: grant_rule_def bob_rule_def)
  have "append_rule_atomically example_outside ''/p'' bob_rule (Inr ''old'') = (Inr ''new'', Inr ''new'')"
    by (simp add: append_rule_atomically_def example_policy_loads example_print_def)
  then show ?thesis
    by (simp add: handle_allow_def root_identity_def bob_grant_parsed validate_grant_def apply_grant_def g
        example_broker_def example_policy_loads Let_def split: prod.split)
qed

subsection \<open>Properties\<close>

text \<open>
  Only root changes the policy: for any other peer an \<open>allow\<close> request leaves the policy file and
  the policy in force as they are, whatever its arguments; it is answered with one \<open>Denied\<close> frame
  and audited as denied.
\<close>

theorem allow_requires_root:
  assumes "pid_uid ident \<noteq> 0" and "handle_allow x as ident path c b = (r, c', b')"
  shows "b_policy_file b' = b_policy_file b \<and> b_handle b' = b_handle b \<and>
    (\<exists>rec reason. b_events b' = b_events b @ [Audited rec] \<and> ar_decision rec = AuditDeny reason \<and>
       ar_user rec = pid_username ident \<and> (r = Inr () \<longrightarrow> cn_sent c' = cn_sent c @ [Denied reason]))"
proof -
  let ?why = "''allow requires elevated privileges (root)''"
  from assms have ref: "refuse_allow x (pid_username ident) as [] [] ?why c b = (r, c', b')"
    by (simp add: handle_allow_def)
  note res = refuse_allow_result [OF ref]
  have "\<exists>rec reason. b_events b' = b_events b @ [Audited rec] \<and> ar_decision rec = AuditDeny reason \<and>
       ar_user rec = pid_username ident \<and> (r = Inr () \<longrightarrow> cn_sent c' = cn_sent c @ [Denied reason])"
    using res(2) by (simp add: res(1) audit_allow_def) (auto simp: record_of_def)
  then show ?thesis by (simp add: res(1))
qed

theorem allow_requires_root_witness:
  "b_handle (snd (snd (handle_allow example_outside [''acme/web'', ''admin''] alice_identity ''/p'' example_conn example_broker))) =
     example_policy"
  using allow_requires_root [of alice_identity example_outside "[''acme/web'', ''admin'']" "''/p''" example_conn example_broker
      "fst (handle_allow example_outside [''acme/web'', ''admin''] alice_identity ''/p'' example_conn example_broker)"
      "fst (snd (handle_allow example_outside [''acme/web'', ''admin''] alice_identity ''/p'' example_conn example_broker))"
      "snd (snd (handle_allow example_outside [''acme/web'', ''admin''] alice_identity ''/p'' example_conn example_broker))"]
  by (simp add: alice_identity_def example_broker_def)

text \<open>
  C11. A grant is all or nothing: after an \<open>allow\<close> request either the policy file and the policy in
  force are what they were and the client was refused, or the file holds the old policy with the
  granted rule appended at its end, it loads, and it is the policy now in force. Relied on: the
  YAML library prints what it parses and the glob \<open>*\<close> compiles.
\<close>

theorem allow_all_or_nothing:
  assumes "handle_allow x as ident path c b = (r, c', b')"
    and "yaml_sound (x_yaml_parse x) (x_yaml_print x)" and "x_glob x ''*'' = Inr m"
  shows "(b_policy_file b' = b_policy_file b \<and> b_handle b' = b_handle b \<and>
      (r = Inr () \<longrightarrow> (\<exists>reason. cn_sent c' = cn_sent c @ [Denied reason]))) \<or>
    (\<exists>a old q yml. parse_allow_args as (pid_username ident) = Inr a \<and> pid_uid ident = 0 \<and>
      b_policy_file b = Inr old \<and> from_yaml (x_yaml_parse x) (x_glob x) old = Inr q \<and>
      b_policy_file b' = Inr yml \<and> from_yaml (x_yaml_parse x) (x_glob x) yml = Inr (b_handle b') \<and>
      same_policy (b_handle b') (push_rule (grant_rule a) q) \<and>
      (r = Inr () \<longrightarrow> cn_sent c' = cn_sent c @ [StdoutChunk (confirmation a), Exit 0]))"
  using assms(1)
proof (cases rule: handle_allow_cases)
  case (refused org repo reason)
  with refuse_allow_result [OF refused] show ?thesis by (intro disjI1) simp
next
  case (accepted a)
  note reloads = grant_reloads [OF assms(2,3) accepted(2)]
  from accepted(3) show ?thesis
  proof (cases rule: apply_grant_cases)
    case (granted old q yml new rec)
    with reloads [OF granted(2,3)] accepted(1,2) show ?thesis by (intro disjI2) auto
  next
    case (refused reason rec)
    then show ?thesis by (intro disjI1) simp
  next
    case (unreadable old q yml e reason rec)
    with reloads [OF unreadable(2,3)] show ?thesis by auto
  qed
qed

theorem allow_all_or_nothing_witness:
  "\<exists>a. parse_allow_args bob_grant ''root'' = Inr a \<and>
     same_policy (b_handle (snd (snd (handle_allow example_outside bob_grant root_identity ''/p'' example_conn example_broker))))
       (push_rule (grant_rule a) example_policy)"
proof -
  let ?h = "handle_allow example_outside bob_grant root_identity ''/p'' example_conn example_broker"
  have h: "?h = (fst ?h, fst (snd ?h), snd (snd ?h))" by simp
  have "push_rule bob_rule example_policy \<noteq> example_policy" by (simp add: push_rule_def example_policy_def)
  then have "b_handle (snd (snd ?h)) \<noteq> b_handle example_broker"
    unfolding bob_grant_handle by (simp add: example_broker_def)
  with allow_all_or_nothing [OF h, unfolded example_outside_simps, OF example_yaml_sound example_glob_star]
  obtain a q where "parse_allow_args bob_grant ''root'' = Inr a"
    "from_yaml example_parse example_glob ''old'' = Inr q" "same_policy (b_handle (snd (snd ?h))) (push_rule (grant_rule a) q)"
    by (auto simp: root_identity_def example_broker_def)
  then show ?thesis by (simp add: example_policy_loads)
qed

text \<open>The operations a grant is about: the listed ones, or those of the role.\<close>

definition granted_operations :: "policy \<Rightarrow> allow_request \<Rightarrow> operation list" where
  "granted_operations q a =
     (case alr_operations a of OpList ops \<Rightarrow> ops | Role name \<Rightarrow> unwrap_or [] (resolve_role q name))"

lemma grant_rule_applies:
  assumes "glob ''*'' = Inr (\<lambda>_. True)"
  shows "rule_applies glob q (grant_rule a) rq \<longleftrightarrow>
    alr_target_user a \<in> {''*'', req_user rq} \<and> alr_org a \<in> {''*'', req_org rq} \<and> alr_repo a \<in> {''*'', req_repo rq} \<and>
    list_ex (\<lambda>op. same_kind op (req_operation rq)) (granted_operations q a)"
proof -
  have "branch_matches glob [''*''] rq" using assms by (simp add: branch_matches_def split: option.split)
  then show ?thesis
    by (auto simp: rule_applies_def grant_rule_def rule_operations_def rule_matches_def field_matches_def
        granted_operations_def split: operations_spec.split option.split)
qed

text \<open>
  C12. What a grant means for decisions. The policy in force afterwards is the one the new file holds.
  It is decided from the policy \<open>q\<close> of the old file: every request that a rule of \<open>q\<close> applies to is
  decided as \<open>q\<close> decides it, and the target user may now do each granted operation on the named
  repository, on every branch, unless such an older rule says otherwise; everything else is denied.
  A name or repository given as \<open>*\<close> stands for all. When the file was not edited since the policy
  in force was loaded from it, the only decisions that change are those of granted requests no rule
  matched before, which are now allowed. (Edits pending in the file come into force with the
  grant.) Relied on: YAML reads back what it prints, and the glob \<open>*\<close> matches everything.
\<close>

theorem allow_decisions:
  assumes "handle_allow x as ident path c b = (r, c', b')"
    and "yaml_sound (x_yaml_parse x) (x_yaml_print x)" and "x_glob x ''*'' = Inr (\<lambda>_. True)"
    and "b_handle b' \<noteq> b_handle b"
  shows "\<exists>a old q. parse_allow_args as (pid_username ident) = Inr a \<and> b_policy_file b = Inr old \<and>
    from_yaml (x_yaml_parse x) (x_glob x) old = Inr q \<and>
    (\<forall>rq. evaluate (x_glob x) (b_handle b') rq =
       (if list_ex (\<lambda>s. rule_applies (x_glob x) q s rq) (rules q) then evaluate (x_glob x) q rq
        else if alr_target_user a \<in> {''*'', req_user rq} \<and> alr_org a \<in> {''*'', req_org rq} \<and>
          alr_repo a \<in> {''*'', req_repo rq} \<and>
          list_ex (\<lambda>op. same_kind op (req_operation rq)) (granted_operations q a) then Allow
        else Deny ''no matching rule'')) \<and>
    (\<exists>yml. b_policy_file b' = Inr yml \<and> from_yaml (x_yaml_parse x) (x_glob x) yml = Inr (b_handle b')) \<and>
    (q = b_handle b \<longrightarrow> (\<forall>rq. evaluate (x_glob x) (b_handle b') rq \<noteq> evaluate (x_glob x) (b_handle b) rq \<longrightarrow>
       evaluate (x_glob x) (b_handle b) rq = Deny ''no matching rule'' \<and>
       evaluate (x_glob x) (b_handle b') rq = Allow))"
  using assms(1)
proof (cases rule: handle_allow_cases)
  case (refused org repo reason)
  with refuse_allow_result(1) [OF refused] assms(4) show ?thesis by simp
next
  case (accepted a)
  from accepted(3) show ?thesis
  proof (cases rule: apply_grant_cases)
    case (granted old q yml new rec)
    with grant_reloads [OF assms(2,3) accepted(2) granted(2,3)]
    have same: "same_policy (b_handle b') (push_rule (grant_rule a) q)"
      and inforce: "from_yaml (x_yaml_parse x) (x_glob x) yml = Inr (b_handle b')"
      using granted(4,6) by auto
    have allow: "rule_decision (grant_rule a) = Allow" by (simp add: grant_rule_def)
    have changed: "evaluate (x_glob x) q rq = Deny ''no matching rule'' \<and> evaluate (x_glob x) (b_handle b') rq = Allow"
      if "evaluate (x_glob x) (b_handle b') rq \<noteq> evaluate (x_glob x) q rq" for rq
      using that unfolding evaluate_same [OF same] evaluate_push_aux allow
      by (simp add: evaluate_no_rule split: if_split_asm)
    show ?thesis
    proof (intro exI conjI)
      show "parse_allow_args as (pid_username ident) = Inr a" by (rule accepted(2))
      show "b_policy_file b = Inr old" by (rule granted(1))
      show "from_yaml (x_yaml_parse x) (x_glob x) old = Inr q" by (rule granted(2))
      show "\<forall>rq. evaluate (x_glob x) (b_handle b') rq =
         (if list_ex (\<lambda>s. rule_applies (x_glob x) q s rq) (rules q) then evaluate (x_glob x) q rq
          else if alr_target_user a \<in> {''*'', req_user rq} \<and> alr_org a \<in> {''*'', req_org rq} \<and>
            alr_repo a \<in> {''*'', req_repo rq} \<and>
            list_ex (\<lambda>op. same_kind op (req_operation rq)) (granted_operations q a) then Allow
          else Deny ''no matching rule'')"
        unfolding evaluate_same [OF same] evaluate_push_aux allow
          grant_rule_applies [where glob = "x_glob x", OF assms(3), symmetric] by blast
      show "b_policy_file b' = Inr yml" by (rule granted(5))
      show "from_yaml (x_yaml_parse x) (x_glob x) yml = Inr (b_handle b')" by (rule inforce)
      show "q = b_handle b \<longrightarrow> (\<forall>rq. evaluate (x_glob x) (b_handle b') rq \<noteq> evaluate (x_glob x) (b_handle b) rq \<longrightarrow>
         evaluate (x_glob x) (b_handle b) rq = Deny ''no matching rule'' \<and>
         evaluate (x_glob x) (b_handle b') rq = Allow)"
        using changed by blast
    qed
  next
    case (refused reason rec)
    with assms(4) show ?thesis by simp
  next
    case (unreadable old q yml e reason rec)
    with assms(4) show ?thesis by simp
  qed
qed

theorem allow_decisions_witness:
  "evaluate example_glob (push_rule bob_rule example_policy)
     \<lparr>req_user = ''bob'', req_org = ''acme'', req_repo = ''web'', req_operation = Push, req_branch = Some ''main''\<rparr> = Allow"
proof -
  let ?h = "handle_allow example_outside bob_grant root_identity ''/p'' example_conn example_broker"
  let ?rq = "\<lparr>req_user = ''bob'', req_org = ''acme'', req_repo = ''web'', req_operation = Push, req_branch = Some ''main''\<rparr>"
  have h: "?h = (fst ?h, fst (snd ?h), snd (snd ?h))" by simp
  have "push_rule bob_rule example_policy \<noteq> example_policy" by (simp add: push_rule_def example_policy_def)
  then have "b_handle (snd (snd ?h)) \<noteq> b_handle example_broker"
    unfolding bob_grant_handle by (simp add: example_broker_def)
  from allow_decisions [OF h, unfolded example_outside_simps, OF example_yaml_sound example_glob_star this]
  obtain a q where q: "from_yaml example_parse example_glob ''old'' = Inr q" "parse_allow_args bob_grant ''root'' = Inr a"
    "evaluate example_glob (push_rule bob_rule example_policy) ?rq =
       (if list_ex (\<lambda>s. rule_applies example_glob q s ?rq) (rules q) then evaluate example_glob q ?rq
        else if alr_target_user a \<in> {''*'', req_user ?rq} \<and> alr_org a \<in> {''*'', req_org ?rq} \<and>
          alr_repo a \<in> {''*'', req_repo ?rq} \<and>
          list_ex (\<lambda>op. same_kind op (req_operation ?rq)) (granted_operations q a) then Allow
        else Deny ''no matching rule'')"
    unfolding bob_grant_handle by (auto simp only: root_identity_def example_broker_def peer.simps broker.simps sum.inject)
  have "\<not> list_ex (\<lambda>s. rule_applies example_glob q s ?rq) (rules q)"
    using q(1) unfolding example_policy_loads
    by (auto simp: example_policy_def example_rule_def rule_applies_def rule_operations_def rule_matches_def field_matches_def
        split: option.splits)
  moreover have "a = \<lparr>alr_org = ''acme'', alr_repo = ''web'', alr_target_user = ''bob'', alr_operations = OpList [Push]\<rparr>"
    using q(2) by (simp add: bob_grant_parsed)
  ultimately show ?thesis using q(3) by (simp add: granted_operations_def same_kind_def)
qed

subsection \<open>Two grants at the same time\<close>

text \<open>
  The rewrite runs on a blocking thread for each connection, and nothing orders two of them. Its
  two halves, reading the file and computing the new text, and replacing the file, as separate
  steps: on its own each rewrite is the first half followed by the second.
\<close>

definition prepare_rewrite :: "outside \<Rightarrow> path \<Rightarrow> rule \<Rightarrow> io_error + string \<Rightarrow> io_error + string" where
  "prepare_rewrite x policy_path r content =
     (case content of
        Inl e \<Rightarrow> Inl e
      | Inr old \<Rightarrow>
     (case from_yaml (x_yaml_parse x) (x_glob x) old of
        Inl e \<Rightarrow> Inl \<lparr>io_kind = InvalidData, io_text = policy_error_text e\<rparr>
      | Inr p \<Rightarrow> (case x_yaml_print x (push_rule r p) of
                   Inl e \<Rightarrow> Inl \<lparr>io_kind = InvalidData, io_text = e\<rparr>
                 | Inr serialised \<Rightarrow> Inr serialised)))"

definition commit_rewrite ::
    "outside \<Rightarrow> path \<Rightarrow> io_error + string \<Rightarrow> io_error + string \<Rightarrow> (io_error + string) \<times> (io_error + string)" where
  "commit_rewrite x policy_path prepared content =
     (case prepared of
        Inl e \<Rightarrow> (Inl e, content)
      | Inr serialised \<Rightarrow>
     (case pi_tempfile_in (x_persist x) (unwrap_or ''.'' (path_parent policy_path)) of
        Some e \<Rightarrow> (Inl e, content)
      | None \<Rightarrow>
     (case pi_set_permissions (x_persist x) of
        Some e \<Rightarrow> (Inl e, content)
      | None \<Rightarrow>
     (case pi_write_all (x_persist x) of
        Some e \<Rightarrow> (Inl e, content)
      | None \<Rightarrow>
     (case pi_sync_all (x_persist x) of
        Some e \<Rightarrow> (Inl e, content)
      | None \<Rightarrow>
     (case pi_persist (x_persist x) of
        Some e \<Rightarrow> (Inl \<lparr>io_kind = OtherKind, io_text = io_text e\<rparr>, content)
      | None \<Rightarrow> (Inr serialised, Inr serialised)))))))"

lemma append_rule_atomically_halves:
  "append_rule_atomically x p r content = commit_rewrite x p (prepare_rewrite x p r content) content"
  by (auto simp: append_rule_atomically_def commit_rewrite_def prepare_rewrite_def split: sum.split option.split)

lemma commit_rewrite_result:
  "commit_rewrite x p prepared content = (Inr new, content') \<Longrightarrow> prepared = Inr new \<and> content' = Inr new"
  by (auto simp: commit_rewrite_def split: sum.splits option.splits)

text \<open>
  C35. A grant can be lost: two rewrites that read the same file and then both succeed leave only the
  rule of the one that renamed last, although both clients are told that their grant is in place.
\<close>

theorem concurrent_grants_lose_one:
  assumes "yaml_sound (x_yaml_parse x) (x_yaml_print x)"
    and "from_yaml (x_yaml_parse x) (x_glob x) old = Inr q" "canonical_spec (rule_spec r1)" "canonical_spec (rule_spec r2)"
    and "commit_rewrite x p (prepare_rewrite x p r1 (Inr old)) (Inr old) = (Inr new1, content1)"
    and "commit_rewrite x p (prepare_rewrite x p r2 (Inr old)) content1 = (Inr new2, content2)"
    and "r1 \<notin> set (rules q)" "r1 \<noteq> r2"
  shows "\<exists>final. content2 = Inr new2 \<and> x_yaml_parse x new2 = Inr final \<and> r2 \<in> set (rules final) \<and> r1 \<notin> set (rules final)"
proof -
  from commit_rewrite_result [OF assms(6)] have prep: "prepare_rewrite x p r2 (Inr old) = Inr new2" "content2 = Inr new2"
    by simp_all
  with assms(2) have pr: "x_yaml_print x (push_rule r2 q) = Inr new2"
    by (auto simp: prepare_rewrite_def split: sum.splits)
  have "canonical_policy q" using assms(1,2) unfolding yaml_sound_def from_yaml_ok by blast
  with assms(4) have "canonical_policy (push_rule r2 q)" by (simp add: canonical_policy_def)
  with assms(1) pr obtain final where f: "x_yaml_parse x new2 = Inr final" "same_policy final (push_rule r2 q)"
    unfolding yaml_sound_def by blast
  then have "rules final = rules q @ [r2]" by (simp add: same_policy_def)
  with f(1) prep(2) assms(7,8) show ?thesis by simp
qed

definition carol_rule :: rule where
  "carol_rule = bob_rule\<lparr>rule_user := ''carol''\<rparr>"

definition race_parse :: yaml_parser where
  "race_parse t = (if t = ''carol'' then Inr (push_rule carol_rule example_policy) else example_parse t)"

definition race_print :: "policy \<Rightarrow> string + string" where
  "race_print p = (if p = push_rule carol_rule example_policy then Inr ''carol'' else example_print p)"

theorem concurrent_grants_lose_one_witness:
  "\<exists>final. race_parse ''new'' = Inr final \<and> bob_rule \<in> set (rules final) \<and> carol_rule \<notin> set (rules final)"
proof -
  let ?x = "example_outside\<lparr>x_yaml_parse := race_parse, x_yaml_print := race_print\<rparr>"
  have can: "canonical_policy (push_rule carol_rule example_policy)"
    by (simp add: canonical_policy_def example_policy_def push_rule_def canonical_spec_def example_rule_def
        bob_rule_def carol_rule_def canonical_op_def)
  have sound: "yaml_sound race_parse race_print"
    unfolding yaml_sound_def
  proof (intro conjI allI impI)
    fix t p assume "race_parse t = Inr p"
    with can example_yaml_sound show "canonical_policy p"
      unfolding yaml_sound_def race_parse_def by (auto split: if_split_asm)
  next
    fix t p assume p: "canonical_policy p" "race_print p = Inr t"
    show "\<exists>p'. race_parse t = Inr p' \<and> same_policy p' p \<and> set (roles p') = set (roles p)"
    proof (cases "p = push_rule carol_rule example_policy")
      case True
      with p(2) show ?thesis by (auto simp: race_print_def race_parse_def same_policy_def)
    next
      case False
      with p(2) have "example_print p = Inr t" by (simp add: race_print_def)
      then have "t = ''new''" "p = push_rule bob_rule example_policy"
        by (simp_all add: example_print_def split: if_split_asm)
      then show ?thesis by (simp add: race_parse_def example_parse_def same_policy_def)
    qed
  qed
  have old: "from_yaml race_parse example_glob ''old'' = Inr example_policy"
    using example_policy_loads(1) by (simp add: from_yaml_def race_parse_def)
  have neq: "push_rule bob_rule example_policy \<noteq> push_rule carol_rule example_policy" "carol_rule \<noteq> bob_rule"
    by (simp_all add: push_rule_def carol_rule_def bob_rule_def example_policy_def)
  have prep: "prepare_rewrite ?x ''/p'' carol_rule (Inr ''old'') = Inr ''carol''"
    "prepare_rewrite ?x ''/p'' bob_rule (Inr ''old'') = Inr ''new''"
    using neq by (simp_all add: prepare_rewrite_def old race_print_def example_print_def)
  have "commit_rewrite ?x ''/p'' (Inr t) content = (Inr t, Inr t)" for t content
    by (simp add: commit_rewrite_def)
  with prep have com: "commit_rewrite ?x ''/p'' (prepare_rewrite ?x ''/p'' carol_rule (Inr ''old'')) (Inr ''old'') = (Inr ''carol'', Inr ''carol'')"
    "commit_rewrite ?x ''/p'' (prepare_rewrite ?x ''/p'' bob_rule (Inr ''old'')) (Inr ''carol'') = (Inr ''new'', Inr ''new'')"
    by simp_all
  have sides: "canonical_spec (rule_spec carol_rule)" "canonical_spec (rule_spec bob_rule)"
    "carol_rule \<notin> set (rules example_policy)"
    by (simp_all add: carol_rule_def bob_rule_def canonical_spec_def canonical_op_def example_policy_def example_rule_def)
  from concurrent_grants_lose_one [OF _ _ sides(1,2) com sides(3) neq(2)] sound old show ?thesis by simp
qed

end
