(* ===== verification/Broker_Query.thy ===== *)
theory Broker_Query
  imports Broker_Allow "HOL-Library.Multiset"
begin

section \<open>Classification and query tools\<close>

text \<open>
  The parts of \<open>src/src/broker.rs\<close> that decide which path a request takes, and the tools that
  answer without running anything: \<open>explain\<close>, \<open>policy\<close> and \<open>check\<close>. None of these definitions
  takes the state of the broker, so none can change it.
\<close>

subsection \<open>Which path a request takes\<close>

definition gh_broker_ops :: "(string \<times> string) list" where
  "gh_broker_ops =
     [(''pr'', ''create''), (''pr'', ''comment''), (''pr'', ''merge''), (''pr'', ''close''), (''pr'', ''review''),
      (''issue'', ''create''), (''issue'', ''comment''), (''issue'', ''close''),
      (''release'', ''create''), (''release'', ''delete''), (''release'', ''delete-asset''),
      (''release'', ''download''), (''release'', ''edit''), (''release'', ''list''), (''release'', ''upload''),
      (''release'', ''view'')]"

definition gh_is_broker_op :: "string list \<Rightarrow> bool" where
  "gh_is_broker_op as =
     (let positional = filter (\<lambda>a. \<not> is_flag a) as;
          group = unwrap_or [] (get positional 0);
          action = unwrap_or [] (get positional 1) in
        if group = ''api'' then True else (group, action) \<in> set gh_broker_ops)"

definition broker_flag_takes_value :: "string \<Rightarrow> bool" where
  "broker_flag_takes_value arg =
     (arg \<in> set [''-c'', ''-C'', ''--config'', ''--git-dir'', ''--work-tree'', ''--namespace''])"

fun git_first_subcommand :: "string list \<Rightarrow> string option" where
  "git_first_subcommand [] = None"
| "git_first_subcommand (arg # rest) =
     (if \<not> is_flag arg then Some arg
      else if broker_flag_takes_value arg then git_first_subcommand (tl rest)
      else git_first_subcommand rest)"

definition git_is_remote_op :: "string list \<Rightarrow> bool" where
  "git_is_remote_op as =
     (git_first_subcommand as \<in> Some ` set [''push'', ''fetch'', ''clone'', ''pull''])"

subsection \<open>Explain\<close>

text \<open>Only \<open>Git\<close> and \<open>Gh\<close> reach the resolver; the other tools are handled before.\<close>

definition resolve_for_tool ::
    "outside \<Rightarrow> tool \<Rightarrow> string list \<Rightarrow> path \<Rightarrow> string option \<Rightarrow> string option \<Rightarrow> resolver_error + resolved_request" where
  "resolve_for_tool x t as dir url_hint branch_hint =
     (if t = Git then resolve_git (x_fs x) as dir url_hint branch_hint
      else resolve_gh (x_fs x) as dir url_hint branch_hint)"

definition resolve_request :: "outside \<Rightarrow> request \<Rightarrow> resolver_error + resolved_request" where
  "resolve_request x req =
     (if tool req = Git
      then resolve_git (x_fs x) (args req) (cwd req) (remote_url req) (head_branch_hint req)
      else resolve_gh (x_fs x) (args req) (cwd req) (remote_url req) (head_branch_hint req))"

definition policy_request_for :: "string \<Rightarrow> resolved_request \<Rightarrow> policy_request" where
  "policy_request_for username r =
     \<lparr>req_user = username, req_org = rr_org r, req_repo = rr_repo r, req_operation = rr_operation r,
      req_branch = rr_branch r\<rparr>"

definition inject_label :: "tool \<Rightarrow> url_scheme \<Rightarrow> string" where
  "inject_label t scheme =
     (case t of
        Gh \<Rightarrow> ''GitHub token (GH_TOKEN)''
      | Git \<Rightarrow> (case scheme of Ssh \<Rightarrow> ''SSH credential'' | Https \<Rightarrow> ''HTTPS credential (GIT_ASKPASS)'')
      | _ \<Rightarrow> ''none'')"

definition explain_local_git :: "string \<Rightarrow> string" where
  "explain_local_git subcmd =
     ''tool:      git '' @ subcmd @ newline @
     ''scope:     local '' @ [CHR 0xE2, CHR 0x80, CHR 0x94] @ '' outside ghbrk'' @ [CHR 0x27] @ ''s gateway'' @ newline @
     ''guidance:  run '' @ quoted (''git '' @ subcmd) @
     '' directly; ghbrk only brokers remote git operations (push, fetch, clone, pull)'' @ newline @
     ''policy:    N/A (not evaluated)'' @ newline @
     ''inject:    none'' @ newline"

definition explain_report :: "tool \<Rightarrow> string \<Rightarrow> string list \<Rightarrow> resolved_request \<Rightarrow> decision \<Rightarrow> string" where
  "explain_report t tool_name sub r d =
     (let subcmd = unwrap_or [] (get sub 0);
          (policy_line, inject) =
            (case d of
               Allow \<Rightarrow> (''allow'', inject_label t (rr_url_scheme r))
             | Deny reason \<Rightarrow> (''deny: '' @ reason, ''none'')) in
        ''tool:      '' @ tool_name @ '' '' @ subcmd @ newline @
        ''operation: '' @ operation_name (rr_operation r) @ newline @
        ''repo:      '' @ rr_org r @ ''/'' @ rr_repo r @ newline @
        ''branch:    '' @ unwrap_or ''N/A'' (rr_branch r) @ newline @
        ''policy:    '' @ policy_line @ newline @
        ''inject:    '' @ inject @ newline)"

definition explain_resolved ::
    "outside \<Rightarrow> request \<Rightarrow> string \<Rightarrow> policy \<Rightarrow> tool \<Rightarrow> string \<Rightarrow> conn \<Rightarrow> (protocol_error + unit) \<times> conn" where
  "explain_resolved x req username p t tool_name c =
     (let sub = drop 1 (args req) in
        case resolve_for_tool x t sub (cwd req) (remote_url req) (head_branch_hint req) of
          Inl err \<Rightarrow>
            then_send (stream_text x (''explain: resolver error: '' @ resolver_error_text err @ newline) c)
              (finish_explain x 1)
        | Inr r \<Rightarrow>
            then_send
              (stream_text x (explain_report t tool_name sub r (evaluate (x_glob x) p (policy_request_for username r))) c)
              (finish_explain x 0))"

definition handle_explain_request ::
    "outside \<Rightarrow> request \<Rightarrow> string \<Rightarrow> policy \<Rightarrow> conn \<Rightarrow> (protocol_error + unit) \<times> conn" where
  "handle_explain_request x req username p c =
     (let t = unwrap_or [] (get (args req) 0) in
        if t = [] then then_send (stream_text x (''explain: no command provided'' @ newline) c) (finish_explain x 1)
        else if t = ''git''
        then (let sub = drop 1 (args req) in
                if \<not> git_is_remote_op sub
                then then_send (stream_text x (explain_local_git (unwrap_or [] (git_first_subcommand sub))) c)
                       (finish_explain x 0)
                else explain_resolved x req username p Git ''git'' c)
        else if t = ''gh'' then explain_resolved x req username p Gh ''gh'' c
        else then_send
               (stream_text x (''explain: unknown tool '' @ quoted t @ ''; expected '' @ quoted ''git'' @ '' or '' @
                  quoted ''gh'' @ newline) c)
               (finish_explain x 1))"

subsection \<open>Policy\<close>

definition ALL_OPS :: "operation list" where
  "ALL_OPS =
     [Push, Fetch, Pull, Clone, PrOpen, PrComment, PrClose, PrMerge, PrReview, IssueOpen, IssueComment,
      IssueClose, ReleaseCreate, GhApiRead []]"

definition report_lines :: "string list \<Rightarrow> string" where
  "report_lines ops =
     (if ops = [] then ''  (none)'' @ newline else concat (map (\<lambda>op. ''  '' @ op @ newline) ops))"

definition policy_report :: "string \<Rightarrow> string \<Rightarrow> string list \<Rightarrow> string list \<Rightarrow> string" where
  "policy_report org repo allowed forbidden =
     ''repo: '' @ org @ ''/'' @ repo @ newline @ newline @ ''allowed operations:'' @ newline @
     report_lines allowed @
     newline @ ''forbidden operations (default-deny):'' @ newline @
     report_lines forbidden"

definition policy_split :: "glob \<Rightarrow> policy \<Rightarrow> string \<Rightarrow> string \<Rightarrow> string \<Rightarrow> string list \<times> string list" where
  "policy_split glob p username org repo =
     fold (\<lambda>op (allowed, forbidden).
       case evaluate glob p \<lparr>req_user = username, req_org = org, req_repo = repo, req_operation = op, req_branch = None\<rparr> of
         Allow \<Rightarrow> (allowed @ [operation_name op], forbidden)
       | Deny _ \<Rightarrow> (allowed, forbidden @ [operation_name op])) ALL_OPS ([], [])"

definition handle_policy_request ::
    "outside \<Rightarrow> request \<Rightarrow> string \<Rightarrow> policy \<Rightarrow> conn \<Rightarrow> (protocol_error + unit) \<times> conn" where
  "handle_policy_request x req username p c =
     (let spec = unwrap_or [] (get (args req) 0) in
        case parse_repo_spec spec of
          None \<Rightarrow>
            then_send (stream_text x (''policy: invalid repo specifier '' @ quoted spec @ ''; expected org/repo'' @ newline) c)
              (finish_explain x 1)
        | Some (org, repo) \<Rightarrow>
            let (allowed, forbidden) = policy_split (x_glob x) p username org repo in
              then_send (stream_text x (policy_report org repo allowed forbidden) c) (finish_explain x 0))"

subsection \<open>Check\<close>

definition handle_check_request :: "outside \<Rightarrow> check_inputs \<Rightarrow> conn \<Rightarrow> (protocol_error + unit) \<times> conn" where
  "handle_check_request x inputs c =
     (let (all_ok, out) = run_checks (x_fs x) (x_getenv x) (x_probe x) (x_dbg x) inputs;
          audit = audit_credential_paths (x_fs x) (creds_root inputs) (user inputs);
          code = (if all_ok then 0 else 1) in
        then_send
          (then_send
             (if out \<noteq> [] then send_frame (x_ser x) (StdoutChunk out) c else (Inr (), c))
             (send_frame (x_ser x) (CredentialAuditFrame audit)))
          (finish_explain x code))"

subsection \<open>Lemmas\<close>

interpretation broker_scan: subcommand_scan broker_flag_takes_value git_first_subcommand
  by unfold_locales simp_all

lemma flag_tables_agree: "broker_flag_takes_value = git_global_flag_takes_value"
  by (auto simp: broker_flag_takes_value_def git_global_flag_takes_value_def fun_eq_iff)

lemma git_first_subcommand_eq: "git_first_subcommand as = first_non_flag as"
  using broker_scan.scan_eq_reference [of as] resolver_scan.scan_eq_reference [of as]
  by (simp add: flag_tables_agree)

lemma gh_tables_agree: "map fst gh_operations = gh_broker_ops"
  unfolding gh_operations_def gh_broker_ops_def by code_simp

lemma policy_split_filter:
  "policy_split glob p username org repo =
     (let ok = (\<lambda>op. evaluate glob p \<lparr>req_user = username, req_org = org, req_repo = repo, req_operation = op,
                   req_branch = None\<rparr> = Allow) in
        (map operation_name (filter ok ALL_OPS), map operation_name (filter (\<lambda>op. \<not> ok op) ALL_OPS)))"
proof -
  let ?ev = "\<lambda>op. evaluate glob p \<lparr>req_user = username, req_org = org, req_repo = repo, req_operation = op, req_branch = None\<rparr>"
  have "fold (\<lambda>op (allowed, forbidden).
         case ?ev op of Allow \<Rightarrow> (allowed @ [operation_name op], forbidden)
         | Deny _ \<Rightarrow> (allowed, forbidden @ [operation_name op])) ops (a, f) =
       (a @ map operation_name (filter (\<lambda>op. ?ev op = Allow) ops),
        f @ map operation_name (filter (\<lambda>op. ?ev op \<noteq> Allow) ops))" for ops a f
    by (induction ops arbitrary: a f) (auto split: decision.split)
  then show ?thesis by (simp add: policy_split_def Let_def)
qed

lemma gh_is_broker_op_table:
  assumes "get (filter (\<lambda>a. \<not> is_flag a) as) 0 = Some g" "get (filter (\<lambda>a. \<not> is_flag a) as) 1 = Some a"
    "map_of gh_operations (g, a) = Some op"
  shows "gh_is_broker_op as"
proof -
  from assms(3) have "(g, a) \<in> fst ` set gh_operations" by (metis image_eqI fst_conv map_of_SomeD)
  then have "(g, a) \<in> set gh_broker_ops" unfolding gh_tables_agree [symmetric] by simp
  with assms(1,2) show ?thesis by (simp add: gh_is_broker_op_def Let_def)
qed

lemma find_filter_get: "find P xs = get (filter P xs) 0"
  by (induction xs) auto

lemma classify_gh_mediated:
  assumes "classify_gh as = Inr op"
  shows "gh_is_broker_op as"
proof (cases "find (\<lambda>arg. \<not> is_flag arg) as = Some ''api''")
  case True
  then show ?thesis by (simp add: gh_is_broker_op_def Let_def find_filter_get)
next
  case False
  then have pos: "gh_positional_args as = filter (\<lambda>arg. \<not> is_flag arg) as"
    by (simp add: gh_positional_args_def)
  have "op \<noteq> GhApiRead p" for p
    using assms False by (auto simp: classify_gh_api pos find_filter_get)
  from classify_gh_table [OF assms this] pos show ?thesis
    using gh_is_broker_op_table by auto
qed

lemma resolve_git_remote: "resolve_git f as dir url branch = Inr res \<Longrightarrow> git_is_remote_op as"
  by (cases "first_non_flag as")
    (auto simp: resolve_git_def git_is_remote_op_def git_first_subcommand_eq git_operations_def split: if_splits)

lemma resolve_gh_mediated: "resolve_gh f as dir url branch = Inr res \<Longrightarrow> gh_is_broker_op as"
  by (cases "classify_gh as") (auto simp: resolve_gh_def intro: classify_gh_mediated)

subsection \<open>Properties\<close>

text \<open>
  C18. The broker and the resolver agree on what a remote git operation is: the two scanners find the
  same subcommand in every argument list, the broker lets exactly those requests through that name
  an operation of the vocabulary, and what it rejects as local the resolver would reject too.
\<close>

theorem git_filter_agrees:
  "git_first_subcommand as = first_non_flag as \<and>
   (git_is_remote_op as \<longleftrightarrow> Option.bind (first_non_flag as) (map_of git_operations) \<noteq> None) \<and>
   (git_is_remote_op as \<or> (\<exists>sub. resolve_git f as dir url branch = Inl (UnknownGitSubcommand sub)))"
proof (intro conjI)
  show "git_first_subcommand as = first_non_flag as" by (rule git_first_subcommand_eq)
  show "git_is_remote_op as \<longleftrightarrow> Option.bind (first_non_flag as) (map_of git_operations) \<noteq> None"
    by (cases "first_non_flag as")
      (simp_all add: git_is_remote_op_def git_first_subcommand_eq git_operations_def)
  show "git_is_remote_op as \<or> (\<exists>sub. resolve_git f as dir url branch = Inl (UnknownGitSubcommand sub))"
    by (cases "first_non_flag as")
      (simp_all add: git_is_remote_op_def git_first_subcommand_eq resolve_git_def)
qed

text \<open>
  C21. No gh command the resolver can name is passed through: whenever the resolver classifies an
  argument list as an operation of the policy vocabulary, the broker sends it through the policy.
\<close>

theorem classified_gh_is_mediated:
  assumes "classify_gh as = Inr op"
  shows "gh_is_broker_op as"
  using assms by (rule classify_gh_mediated)

theorem classified_gh_is_mediated_witness: "gh_is_broker_op [''pr'', ''merge'', ''5'']"
proof -
  have "classify_gh [''pr'', ''merge'', ''5''] = Inr PrMerge" by code_simp
  then show ?thesis by (rule classified_gh_is_mediated)
qed

text \<open>
  The policy report is what the engine decides: the allowed column lists exactly the operations
  of the table that the policy allows the caller on that repository, in the order of the table, and
  the forbidden column the rest; no operation is in both or lost. The table, however, lacks seven
  of the release operations, so a caller who may delete a release does not see it.
\<close>

theorem policy_report_exact:
  assumes "policy_split glob p username org repo = (allowed, forbidden)"
  shows "allowed = map tag (filter (\<lambda>op. evaluate glob p \<lparr>req_user = username, req_org = org, req_repo = repo,
       req_operation = op, req_branch = None\<rparr> = Allow) ALL_OPS) \<and>
     mset allowed + mset forbidden = mset (map tag ALL_OPS) \<and>
     tag ReleaseDelete \<notin> set (map tag ALL_OPS)"
proof -
  let ?ok = "\<lambda>op. evaluate glob p \<lparr>req_user = username, req_org = org, req_repo = repo, req_operation = op,
    req_branch = None\<rparr> = Allow"
  from assms have "allowed = map tag (filter ?ok ALL_OPS)" "forbidden = map tag (filter (\<lambda>op. \<not> ?ok op) ALL_OPS)"
    by (auto simp: policy_split_filter Let_def operation_name_fun)
  moreover have "image_mset tag (mset (filter ?ok ALL_OPS)) + image_mset tag (mset (filter (\<lambda>op. \<not> ?ok op) ALL_OPS)) =
      image_mset tag (mset ALL_OPS)"
    by (metis image_mset_union mset_filter multiset_partition)
  moreover have "tag ReleaseDelete \<notin> set (map tag ALL_OPS)" by (simp add: ALL_OPS_def)
  ultimately show ?thesis by simp
qed

theorem policy_report_exact_witness:
  "\<exists>allowed forbidden. policy_split example_glob example_policy ''alice'' ''acme'' ''web'' = (allowed, forbidden) \<and>
     mset allowed + mset forbidden = mset (map tag ALL_OPS)"
  using policy_report_exact [of example_glob example_policy "''alice''" "''acme''" "''web''"
      "fst (policy_split example_glob example_policy ''alice'' ''acme'' ''web'')"
      "snd (policy_split example_glob example_policy ''alice'' ''acme'' ''web'')"]
  by (metis prod.collapse)

end
