(* ===== verification/Broker.thy ===== *)
theory Broker
  imports Broker_Query
begin

section \<open>Requests, connections and the daemon\<close>

text \<open>
  The request pipeline of \<open>src/src/broker.rs\<close>: \<open>process_request\<close>, \<open>handle_connection\<close> and the accept
  loop \<open>run_broker\<close>, which is a step relation: a connection is accepted with a snapshot of the
  policy in force, and served at any later time. Every process a request starts is an event of the
  history: the relayed child, the processes of an ssh-agent, the probe of a check.
\<close>

subsection \<open>Passthrough\<close>

definition handle_gh_passthrough ::
    "outside \<Rightarrow> request \<Rightarrow> peer \<Rightarrow> path option \<Rightarrow> conn \<Rightarrow> broker \<Rightarrow> (protocol_error + unit) \<times> conn \<times> broker" where
  "handle_gh_passthrough x req ident root c b =
     (case load_user_credentials x (pid_username ident) root of
        Inl err \<Rightarrow>
          (case send_denied x (''credentials: '' @ credential_error_text (x_dbg x) err) c of (r, c') \<Rightarrow> (r, c', b))
      | Inr creds \<Rightarrow>
          let b1 = write_audit x
                \<lparr>ae_user = pid_username ident, ae_tool = ''gh'', ae_args = args req, ae_org = [], ae_repo = [],
                 ae_branch = None, ae_operation = ''passthrough'', ae_decision = AuditPassthrough\<rparr> b;
              spec = child_spec_for ''gh'' req (gh_env (x_getenv x) (token creds)) ident;
              (c', b') = stream_child_over_connection x spec req c b1 in
            (Inr (), c', b'))"

subsection \<open>Mediated requests\<close>

text \<open>\<open>tool_name\<close> of the request; only \<open>Git\<close> and \<open>Gh\<close> reach it.\<close>

definition tool_name :: "tool \<Rightarrow> string" where
  "tool_name t = (if t = Git then ''git'' else ''gh'')"

definition deny_request ::
    "outside \<Rightarrow> audit_entry \<Rightarrow> string \<Rightarrow> conn \<Rightarrow> broker \<Rightarrow> (protocol_error + unit) \<times> conn \<times> broker" where
  "deny_request x e reason c b =
     (let b' = write_audit x (e\<lparr>ae_decision := AuditDeny reason\<rparr>) b;
          (r, c') = send_denied x reason c in (r, c', b'))"

text \<open>The entry of a resolved request, for both decisions.\<close>

definition resolved_entry :: "peer \<Rightarrow> request \<Rightarrow> resolved_request \<Rightarrow> audit_entry" where
  "resolved_entry ident req r =
     \<lparr>ae_user = pid_username ident, ae_tool = tool_name (tool req), ae_args = args req, ae_org = rr_org r,
      ae_repo = rr_repo r, ae_branch = rr_branch r, ae_operation = operation_name (rr_operation r),
      ae_decision = AuditAllow\<rparr>"

text \<open>
  After the policy allowed the request: load the credentials, build the environment, run the
  child, and drop the guards.
\<close>

definition run_allowed ::
    "outside \<Rightarrow> request \<Rightarrow> peer \<Rightarrow> path option \<Rightarrow> resolved_request \<Rightarrow> conn \<Rightarrow> broker \<Rightarrow>
     (protocol_error + unit) \<times> conn \<times> broker" where
  "run_allowed x req ident root r c b =
     (case load_user_credentials x (pid_username ident) root of
        Inl err \<Rightarrow>
          (case send_denied x (''credentials: '' @ credential_error_text (x_dbg x) err) c of (q, c') \<Rightarrow> (q, c', b))
      | Inr creds \<Rightarrow>
          (case build_env x (tool req) r creds of
             (Inl err, acts) \<Rightarrow>
               (case send_denied x (''credentials: '' @ credential_error_text (x_dbg x) err) c of
                  (q, c') \<Rightarrow> (q, c', record_event (AgentActions acts) b))
           | (Inr (vars, keepalive, agent), acts) \<Rightarrow>
               let b1 = record_event (AgentActions acts) b;
                   spec = child_spec_for (tool_name (tool req)) req vars ident;
                   (c', b2) = stream_child_over_connection x spec req c b1;
                   b3 = (case agent of None \<Rightarrow> b2 | Some h \<Rightarrow> record_event (AgentActions (agent_drop h)) b2);
                   b4 = (case keepalive of
                           None \<Rightarrow> b3
                         | Some k \<Rightarrow> record_event (ScriptRemoved (script_path (askpass_script k))) b3) in
                 (Inr (), c', b4)))"

definition local_git_reason :: string where
  "local_git_reason = ''local git operations must be run directly, not through ghbrk''"

definition process_mediated ::
    "outside \<Rightarrow> request \<Rightarrow> peer \<Rightarrow> context_of_conn \<Rightarrow> conn \<Rightarrow> broker \<Rightarrow> (protocol_error + unit) \<times> conn \<times> broker" where
  "process_mediated x req ident ctx c b =
     (let blank = \<lparr>ae_user = pid_username ident, ae_tool = tool_name (tool req), ae_args = args req, ae_org = [],
                   ae_repo = [], ae_branch = None, ae_operation = ''unresolved'', ae_decision = AuditAllow\<rparr> in
        if tool req = Git \<and> \<not> git_is_remote_op (args req)
        then deny_request x (blank\<lparr>ae_operation := ''local''\<rparr>) local_git_reason c b
        else (case resolve_request x req of
                Inl err \<Rightarrow> deny_request x blank (''resolver: '' @ resolver_error_text err) c b
              | Inr r \<Rightarrow>
                  (case evaluate (x_glob x) (ctx_policy ctx) (policy_request_for (pid_username ident) r) of
                     Deny reason \<Rightarrow> deny_request x (resolved_entry ident req r) reason c b
                   | Allow \<Rightarrow>
                       run_allowed x req ident (ctx_credentials_root ctx) r c
                         (write_audit x (resolved_entry ident req r) b))))"

definition process_request ::
    "outside \<Rightarrow> request \<Rightarrow> peer \<Rightarrow> context_of_conn \<Rightarrow> conn \<Rightarrow> broker \<Rightarrow> (protocol_error + unit) \<times> conn \<times> broker" where
  "process_request x req ident ctx c b =
     (if tool req = AllowTool
      then (case handle_allow x (args req) ident (ctx_policy_path ctx) c b of
              (Inl e, c', b') \<Rightarrow> (Inl e, c', b')
            | (Inr _, c', b') \<Rightarrow> (Inr (), shutdown c', b'))
      else if tool req = Explain
      then (case handle_explain_request x req (pid_username ident) (ctx_policy ctx) c of (r, c') \<Rightarrow> (r, c', b))
      else if tool req = PolicyTool
      then (case handle_policy_request x req (pid_username ident) (ctx_policy ctx) c of (r, c') \<Rightarrow> (r, c', b))
      else if tool req = Check
      then (let inputs = \<lparr>creds_root = unwrap_or credentials_dir (ctx_credentials_root ctx), user = pid_username ident,
                          ci_caller_tmp = caller_tmp req\<rparr> in
              case handle_check_request x inputs c of (r, c') \<Rightarrow> (r, c', record_probe x inputs b))
      else if tool req = Gh \<and> \<not> gh_is_broker_op (args req)
      then handle_gh_passthrough x req ident (ctx_credentials_root ctx) c b
      else process_mediated x req ident ctx c b)"

subsection \<open>Connections\<close>

definition handle_connection ::
    "outside \<Rightarrow> string + u32 \<Rightarrow> context_of_conn \<Rightarrow> conn \<Rightarrow> broker \<Rightarrow> (protocol_error + unit) \<times> conn \<times> broker" where
  "handle_connection x cred ctx c b =
     (case peer_identity x cred of
        None \<Rightarrow> (case send_denied x ''unknown caller'' c of (_, c') \<Rightarrow> (Inr (), c', b))
      | Some ident \<Rightarrow>
          (case sock_read_frame (x_de_request x) (cn_in c) of
             (Inl _, s) \<Rightarrow> (case send_denied x ''malformed request'' (c\<lparr>cn_in := s\<rparr>) of (_, c') \<Rightarrow> (Inr (), c', b))
           | (Inr req, s) \<Rightarrow> process_request x req ident ctx (c\<lparr>cn_in := s\<rparr>) b))"

subsection \<open>The daemon\<close>

text \<open>
  The state of the accept loop: the broker, the accepted connections with the policy snapshot each
  of them took, and whether the loop still runs.
\<close>

record daemon =
  d_broker :: broker
  d_pending :: "((string + u32) \<times> context_of_conn \<times> conn) list"
  d_closed :: "conn list"
  d_running :: bool

record broker_config =
  cfg_socket_path :: path
  cfg_policy_path :: path
  cfg_credentials_root :: "path option"

definition snapshot :: "broker_config \<Rightarrow> broker \<Rightarrow> context_of_conn" where
  "snapshot cfg b =
     \<lparr>ctx_policy = b_handle b, ctx_policy_path = cfg_policy_path cfg, ctx_credentials_root = cfg_credentials_root cfg\<rparr>"

text \<open>
  One step of the daemon: accept a connection, fail to accept one, let one of the accepted
  connections be served, or stop at a signal, which flushes the audit log. The world outside may be
  different at each step; \<open>W\<close> is the set of what it can be.
\<close>

inductive daemon_step :: "outside set \<Rightarrow> broker_config \<Rightarrow> daemon \<Rightarrow> daemon \<Rightarrow> bool" for W cfg where
  accept:
    "d_running d \<Longrightarrow>
     daemon_step W cfg d (d\<lparr>d_pending := d_pending d @ [(cred, snapshot cfg (d_broker d), c)]\<rparr>)"
| accept_failed:
    "d_running d \<Longrightarrow> daemon_step W cfg d d"
| serve:
    "x \<in> W \<Longrightarrow> d_pending d = before @ (cred, ctx, c) # after \<Longrightarrow>
     handle_connection x cred ctx c (d_broker d) = (r, c', b') \<Longrightarrow>
     daemon_step W cfg d (d\<lparr>d_broker := b', d_pending := before @ after, d_closed := d_closed d @ [c']\<rparr>)"
| stop:
    "d_running d \<Longrightarrow>
     daemon_step W cfg d
       (d\<lparr>d_broker := (d_broker d)\<lparr>b_audit := snd (audit_flush (b_audit (d_broker d)))\<rparr>, d_running := False\<rparr>)"

inductive_cases daemon_stepE: "daemon_step W cfg d d'"

definition initial :: "broker \<Rightarrow> daemon" where
  "initial b = \<lparr>d_broker = b, d_pending = [], d_closed = [], d_running = True\<rparr>"

definition reachable :: "outside set \<Rightarrow> broker_config \<Rightarrow> broker \<Rightarrow> daemon \<Rightarrow> bool" where
  "reachable W cfg b d \<longleftrightarrow> (daemon_step W cfg)\<^sup>*\<^sup>* (initial b) d"

subsection \<open>Lemmas\<close>

text \<open>No child whose streams are relayed was run; no process was started at all.\<close>

definition no_streamed :: "event list \<Rightarrow> bool" where
  "no_streamed es = list_all (\<lambda>e. case e of Spawned _ \<Rightarrow> False | _ \<Rightarrow> True) es"

abbreviation no_process :: "event list \<Rightarrow> bool" where
  "no_process es \<equiv> list_all (\<lambda>e. \<not> starts_process e) es"

text \<open>Only an agent or the script that answers for it was dealt with.\<close>

abbreviation agent_event :: "event \<Rightarrow> bool" where
  "agent_event e \<equiv> (case e of AgentActions _ \<Rightarrow> True | ScriptRemoved _ \<Rightarrow> True | _ \<Rightarrow> False)"

lemma agent_events_streamed: "list_all agent_event es \<Longrightarrow> no_streamed es"
  by (induction es) (auto simp: no_streamed_def split: event.splits)

lemma no_process_streamed: "no_process es \<Longrightarrow> no_streamed es"
  by (induction es) (auto simp: no_streamed_def split: event.split)

lemma no_streamed_simps [simp]:
  "no_streamed []" "no_streamed (es @ fs) \<longleftrightarrow> no_streamed es \<and> no_streamed fs"
  "no_streamed (Audited r # es) = no_streamed es" "no_streamed (Spawned q # es) = False"
  "no_streamed (PolicyWritten t # es) = no_streamed es" "no_streamed (HandleStored p # es) = no_streamed es"
  "no_streamed (AgentActions a # es) = no_streamed es" "no_streamed (ScriptRemoved f # es) = no_streamed es"
  "no_streamed (Probed argv vars # es) = no_streamed es"
  by (simp_all add: no_streamed_def)

lemma no_streamed_not_in: "no_streamed es \<Longrightarrow> Spawned q \<notin> set es"
  by (auto simp: no_streamed_def list_all_iff)

lemma audit_allow_events:
  "\<exists>rec. b_events (audit_allow x u as org repo d b) = b_events b @ [Audited rec]"
  by simp

lemma handle_allow_no_process:
  assumes "handle_allow x as ident path c b = (r, c', b')"
  shows "\<exists>new. b_events b' = b_events b @ new \<and> no_process new"
  using assms
proof (cases rule: handle_allow_cases)
  case (accepted a)
  from accepted(3) show ?thesis by (cases rule: apply_grant_cases) auto
next
  case (refused org repo reason)
  with refuse_allow_result(1) [OF refused] audit_allow_events show ?thesis by fastforce
qed

lemma deny_request_result:
  assumes "deny_request x e reason c b = (r, c', b')"
  shows "b' = write_audit x (e\<lparr>ae_decision := AuditDeny reason\<rparr>) b"
    and "r = Inr () \<Longrightarrow> cn_sent c' = cn_sent c @ [Denied reason]"
proof -
  obtain sr c1 where sr: "send_denied x reason c = (sr, c1)" by fastforce
  with assms have "r = sr" "c' = c1" "b' = write_audit x (e\<lparr>ae_decision := AuditDeny reason\<rparr>) b"
    by (simp_all add: deny_request_def Let_def)
  with send_frame_result [OF sr [unfolded send_denied_def]]
  show "b' = write_audit x (e\<lparr>ae_decision := AuditDeny reason\<rparr>) b"
    and "r = Inr () \<Longrightarrow> cn_sent c' = cn_sent c @ [Denied reason]" by simp_all
qed

text \<open>The process that runs a child specification.\<close>

definition runs_spec :: "outside \<Rightarrow> child_spec \<Rightarrow> ran \<Rightarrow> bool" where
  "runs_spec x spec q \<longleftrightarrow>
     ran_command q = apply_privilege_drop (p_euid (x_daemon x)) spec (build_command (x_getenv x) spec) \<and>
     spawn (x_kernel x) (ran_command q) (x_daemon x) = Inr (ran_proc q)"

lemma stream_child_over_connection_events:
  assumes "stream_child_over_connection x spec req c b = (c', b')"
  shows "b' = b \<or> (\<exists>q. b' = record_event (Spawned q) b \<and> runs_spec x spec q)"
  using stream_child_over_connection_broker [of x spec req c b] assms by (auto simp: runs_spec_def)

lemma run_allowed_events:
  assumes "run_allowed x req ident root res c b = (r, c', b')"
  shows "(\<exists>new. b_events b' = b_events b @ new \<and> list_all agent_event new) \<or>
    (\<exists>creds vars keep agent acts q rest.
       load_user_credentials x (pid_username ident) root = Inr creds \<and>
       build_env x (tool req) res creds = (Inr (vars, keep, agent), acts) \<and>
       b_events b' = b_events b @ [AgentActions acts, Spawned q] @ rest \<and> list_all agent_event rest \<and>
       runs_spec x (child_spec_for (tool_name (tool req)) req vars ident) q)"
proof (cases "load_user_credentials x (pid_username ident) root")
  case (Inl e)
  with assms show ?thesis by (auto simp: run_allowed_def split: prod.splits)
next
  case (Inr creds)
  obtain be acts where be: "build_env x (tool req) res creds = (be, acts)" by fastforce
  show ?thesis
  proof (cases be)
    case (Inl e)
    with assms Inr be show ?thesis by (intro disjI1) (auto simp: run_allowed_def split: prod.splits)
  next
    case inr: (Inr v)
    obtain vars keep agent where v: "v = (vars, keep, agent)" by (metis prod_cases3)
    let ?spec = "child_spec_for (tool_name (tool req)) req vars ident"
    obtain c1 b2 where run: "stream_child_over_connection x ?spec req c (record_event (AgentActions acts) b) = (c1, b2)"
      by fastforce
    define rest where "rest = (case agent of None \<Rightarrow> [] | Some h \<Rightarrow> [AgentActions (agent_drop h)]) @
      (case keep of None \<Rightarrow> [] | Some k \<Rightarrow> [ScriptRemoved (script_path (askpass_script k))])"
    have ns: "list_all agent_event rest" by (simp add: rest_def split: option.split)
    have ev: "b_events b' = b_events b2 @ rest"
      using assms Inr be inr v run by (auto simp: run_allowed_def rest_def Let_def split: option.splits)
    from stream_child_over_connection_events [OF run] show ?thesis
    proof
      assume "b2 = record_event (AgentActions acts) b"
      with ev ns show ?thesis by (intro disjI1 exI [of _ "AgentActions acts # rest"]) simp
    next
      assume "\<exists>q. b2 = record_event (Spawned q) (record_event (AgentActions acts) b) \<and> runs_spec x ?spec q"
      then obtain q where q: "b2 = record_event (Spawned q) (record_event (AgentActions acts) b)" "runs_spec x ?spec q"
        by blast
      with ev have "b_events b' = b_events b @ [AgentActions acts, Spawned q] @ rest" by simp
      with Inr be inr v q(2) ns show ?thesis by blast
    qed
  qed
qed

lemma handle_gh_passthrough_events:
  assumes "handle_gh_passthrough x req ident root c b = (r, c', b')"
  shows "(\<exists>new. b_events b' = b_events b @ new \<and> no_process new) \<or>
    (\<exists>creds rec q. load_user_credentials x (pid_username ident) root = Inr creds \<and>
       b_events b' = b_events b @ [Audited rec, Spawned q] \<and> ar_user rec = pid_username ident \<and>
       ar_tool rec = ''gh'' \<and> ar_args rec = args req \<and> ar_decision rec = AuditPassthrough \<and>
       runs_spec x (child_spec_for ''gh'' req (gh_env (x_getenv x) (token creds)) ident) q)"
proof (cases "load_user_credentials x (pid_username ident) root")
  case (Inl e)
  with assms show ?thesis by (auto simp: handle_gh_passthrough_def split: prod.splits)
next
  case (Inr creds)
  let ?e = "\<lparr>ae_user = pid_username ident, ae_tool = ''gh'', ae_args = args req, ae_org = [], ae_repo = [],
    ae_branch = None, ae_operation = ''passthrough'', ae_decision = AuditPassthrough\<rparr>"
  let ?spec = "child_spec_for ''gh'' req (gh_env (x_getenv x) (token creds)) ident"
  obtain c1 b2 where run: "stream_child_over_connection x ?spec req c (write_audit x ?e b) = (c1, b2)" by fastforce
  with assms Inr have "b' = b2" by (simp add: handle_gh_passthrough_def Let_def)
  with stream_child_over_connection_events [OF run]
  consider "b_events b' = b_events b @ [Audited (record_of x ?e)]"
    | q where "b_events b' = b_events b @ [Audited (record_of x ?e), Spawned q]" "runs_spec x ?spec q"
    by auto
  then show ?thesis
  proof cases
    case 1
    then show ?thesis by (intro disjI1) simp
  next
    case (2 q)
    with Inr show ?thesis
      by (intro disjI2 exI [of _ creds] exI [of _ "record_of x ?e"] exI [of _ q]) (simp add: record_of_def)
  qed
qed

text \<open>The tools that are not run start nothing but the probe of a check.\<close>

lemma other_tools_events:
  assumes "process_request x req ident ctx c b = (r, c', b')" "tool req \<notin> {Git, Gh}"
  obtains (quiet) new where "b_events b' = b_events b @ new" "no_process new"
  | (probe) argv vars where "tool req = Check" "b_events b' = b_events b @ [Probed argv vars]"
      "probe_call (x_fs x) (x_getenv x)
         \<lparr>creds_root = unwrap_or credentials_dir (ctx_credentials_root ctx), user = pid_username ident,
          ci_caller_tmp = caller_tmp req\<rparr> = Some (argv, vars)"
proof (cases "tool req")
  case AllowTool
  obtain r1 c1 b1 where h: "handle_allow x (args req) ident (ctx_policy_path ctx) c b = (r1, c1, b1)"
    by (metis prod_cases3)
  with assms AllowTool have "b' = b1" by (auto simp: process_request_def split: sum.splits)
  with handle_allow_no_process [OF h] quiet show thesis by blast
next
  case Check
  let ?i = "\<lparr>creds_root = unwrap_or credentials_dir (ctx_credentials_root ctx), user = pid_username ident,
    ci_caller_tmp = caller_tmp req\<rparr>"
  from assms Check have "b' = record_probe x ?i b" by (auto simp: process_request_def Let_def split: prod.splits)
  with record_probe_events [of x ?i b] Check quiet [of "[]"] probe show thesis by auto
next
  case Explain
  with assms quiet [of "[]"] show thesis by (auto simp: process_request_def split: prod.splits)
next
  case PolicyTool
  with assms quiet [of "[]"] show thesis by (auto simp: process_request_def split: prod.splits)
qed (use assms in simp_all)

lemma other_tools_no_streamed:
  assumes "process_request x req ident ctx c b = (r, c', b')" "tool req \<notin> {Git, Gh}"
  shows "\<exists>new. b_events b' = b_events b @ new \<and> no_streamed new"
  using assms by (cases rule: other_tools_events) (auto dest: no_process_streamed)

text \<open>A mediated request is denied, or allowed and then run.\<close>

lemma process_mediated_cases:
  assumes "process_mediated x req ident ctx c b = (r, c', b')"
  obtains
    (denied) e reason where "deny_request x e reason c b = (r, c', b')"
  | (allowed) res where "resolve_request x req = Inr res"
      "evaluate (x_glob x) (ctx_policy ctx) (policy_request_for (pid_username ident) res) = Allow"
      "run_allowed x req ident (ctx_credentials_root ctx) res c
         (write_audit x (resolved_entry ident req res) b) = (r, c', b')"
  using assms by (auto simp: process_mediated_def Let_def split: if_splits sum.splits decision.splits)

text \<open>The three ways a request can end, by whether a child ran.\<close>

lemma process_request_cases:
  assumes "process_request x req ident ctx c b = (r, c', b')"
  obtains
    (no_child) new where "b_events b' = b_events b @ new" "no_streamed new"
      "no_process new \<or>
       tool req = Check \<and> (\<exists>argv vars. new = [Probed argv vars] \<and> probe_call (x_fs x) (x_getenv x)
         \<lparr>creds_root = unwrap_or credentials_dir (ctx_credentials_root ctx), user = pid_username ident,
          ci_caller_tmp = caller_tmp req\<rparr> = Some (argv, vars)) \<or>
       tool req \<in> {Git, Gh} \<and> (\<exists>res rest. new = Audited (record_of x (resolved_entry ident req res)) # rest \<and>
         list_all agent_event rest \<and> resolve_request x req = Inr res \<and>
         evaluate (x_glob x) (ctx_policy ctx) (policy_request_for (pid_username ident) res) = Allow)"
  | (passthrough) creds rec q where "tool req = Gh" "\<not> gh_is_broker_op (args req)"
      "load_user_credentials x (pid_username ident) (ctx_credentials_root ctx) = Inr creds"
      "b_events b' = b_events b @ [Audited rec, Spawned q]" "ar_user rec = pid_username ident"
      "ar_tool rec = ''gh''" "ar_args rec = args req" "ar_decision rec = AuditPassthrough"
      "runs_spec x (child_spec_for ''gh'' req (gh_env (x_getenv x) (token creds)) ident) q"
  | (mediated) res creds vars keep agent acts q rest where "tool req \<in> {Git, Gh}"
      "resolve_request x req = Inr res"
      "evaluate (x_glob x) (ctx_policy ctx) (policy_request_for (pid_username ident) res) = Allow"
      "load_user_credentials x (pid_username ident) (ctx_credentials_root ctx) = Inr creds"
      "build_env x (tool req) res creds = (Inr (vars, keep, agent), acts)"
      "b_events b' = b_events b @ [Audited (record_of x (resolved_entry ident req res)), AgentActions acts, Spawned q] @ rest"
      "no_streamed rest" "runs_spec x (child_spec_for (tool_name (tool req)) req vars ident) q" "list_all agent_event rest"
proof -
  consider (other) "tool req \<notin> {Git, Gh}" | (pass) "tool req = Gh" "\<not> gh_is_broker_op (args req)"
    | (med) "tool req \<in> {Git, Gh}" "process_mediated x req ident ctx c b = (r, c', b')"
    using assms by (fastforce simp: process_request_def split: if_splits)
  then show thesis
  proof cases
    case other
    from assms other show thesis
    proof (cases rule: other_tools_events)
      case (quiet new)
      then show thesis by (intro no_child [of new]) (simp_all add: no_process_streamed)
    next
      case (probe argv vars)
      then show thesis by (intro no_child [of "[Probed argv vars]"]) simp_all
    qed
  next
    case pass
    with assms have "handle_gh_passthrough x req ident (ctx_credentials_root ctx) c b = (r, c', b')"
      by (simp add: process_request_def)
    from handle_gh_passthrough_events [OF this] show thesis
    proof (elim disjE exE conjE)
      fix new
      assume "b_events b' = b_events b @ new" "no_process new"
      then show thesis by (intro no_child [of new]) (simp_all add: no_process_streamed)
    qed (rule passthrough [OF pass])
  next
    case med
    from med(2) show thesis
    proof (cases rule: process_mediated_cases)
      case (denied e reason)
      with deny_request_result(1) [OF denied] no_child show thesis by simp
    next
      case (allowed res)
      let ?rec = "record_of x (resolved_entry ident req res)"
      from run_allowed_events [OF allowed(3)] consider
          (silent) new where "b_events b' = b_events b @ Audited ?rec # new" "list_all agent_event new"
        | (ran) creds vars keep agent acts q rest where
            "load_user_credentials x (pid_username ident) (ctx_credentials_root ctx) = Inr creds"
            "build_env x (tool req) res creds = (Inr (vars, keep, agent), acts)"
            "b_events b' = b_events b @ [Audited ?rec, AgentActions acts, Spawned q] @ rest" "list_all agent_event rest"
            "runs_spec x (child_spec_for (tool_name (tool req)) req vars ident) q"
        by auto
      then show thesis
      proof cases
        case (silent new)
        with med(1) allowed(1,2) show thesis
          by (intro no_child [of "Audited ?rec # new"]) (simp_all add: agent_events_streamed)
      next
        case (ran creds vars keep agent acts q rest)
        show thesis
          by (rule mediated [OF med(1) allowed(1,2) ran(1-3) _ ran(5) ran(4)]) (rule agent_events_streamed [OF ran(4)])
      qed
    qed
  qed
qed

text \<open>What the rest of the state keeps.\<close>

definition same_policies :: "broker \<Rightarrow> broker \<Rightarrow> bool" where
  "same_policies b b' \<longleftrightarrow> b_handle b' = b_handle b \<and> b_policy_file b' = b_policy_file b"

lemma same_policies_simps [simp]:
  "same_policies b b" "same_policies b (record_event e b') = same_policies b b'"
  "same_policies b (write_audit x entry b') = same_policies b b'"
  by (auto simp: same_policies_def)

lemma stream_child_over_connection_policies:
  assumes "stream_child_over_connection x spec req c b = (c', b')"
  shows "same_policies b b'"
  using stream_child_over_connection_events [OF assms] by auto

lemma same_policies_trans: "same_policies a b \<Longrightarrow> same_policies b c \<Longrightarrow> same_policies a c"
  by (simp add: same_policies_def)

lemma run_allowed_policies:
  assumes "run_allowed x req ident root res c b = (r, c', b')"
  shows "same_policies b b'"
proof -
  have step: "same_policies b b2" if "stream_child_over_connection x spec req c (record_event e b) = (c1, b2)"
    for spec e c1 b2
    using stream_child_over_connection_policies [OF that] by (simp add: same_policies_def)
  show ?thesis
    using assms step
    by (fastforce simp: run_allowed_def Let_def split: sum.splits prod.splits option.splits)
qed

lemma process_request_policies:
  assumes "process_request x req ident ctx c b = (r, c', b')"
    and "tool req \<noteq> AllowTool \<or> pid_uid ident \<noteq> 0"
  shows "same_policies b b'"
proof (cases "tool req = AllowTool")
  case True
  with assms obtain r1 c1 where h: "handle_allow x (args req) ident (ctx_policy_path ctx) c b = (r1, c1, b')"
    by (auto simp: process_request_def split: prod.splits sum.splits)
  with True assms(2) obtain org repo reason where "refuse_allow x (pid_username ident) (args req) org repo reason c b = (r1, c1, b')"
    by (auto simp: handle_allow_def Let_def)
  from refuse_allow_result(1) [OF this] show ?thesis by (simp add: same_policies_def)
next
  case False
  show ?thesis
  proof (cases "tool req = Gh \<and> \<not> gh_is_broker_op (args req)")
    case True
    with assms have "handle_gh_passthrough x req ident (ctx_credentials_root ctx) c b = (r, c', b')"
      by (simp add: process_request_def)
    then show ?thesis
      using stream_child_over_connection_policies
      by (fastforce simp: handle_gh_passthrough_def Let_def same_policies_def split: sum.splits prod.splits)
  next
    case pass: False
    show ?thesis
    proof (cases "tool req \<in> {Explain, PolicyTool, Check}")
      case True
      with assms False show ?thesis
        by (auto simp: process_request_def same_policies_def Let_def split: prod.splits)
    next
      case query: False
      with False pass assms have "process_mediated x req ident ctx c b = (r, c', b')"
        by (auto simp: process_request_def)
      then show ?thesis
        using deny_request_result(1) run_allowed_policies
        by (fastforce simp: process_mediated_def Let_def same_policies_def
            split: if_splits sum.splits decision.splits)
    qed
  qed
qed

lemma handle_allow_wf:
  assumes "handle_allow x as ident path c b = (r, c', b')" "wf_policy (x_glob x) (b_handle b)"
  shows "wf_policy (x_glob x) (b_handle b')"
  using assms(1)
proof (cases rule: handle_allow_cases)
  case (refused org repo reason)
  with refuse_allow_result(1) [OF refused] assms(2) show ?thesis by simp
next
  case (accepted a)
  from accepted(3) show ?thesis
    by (cases rule: apply_grant_cases) (use assms(2) in \<open>auto simp: from_yaml_ok\<close>)
qed

lemma process_request_wf:
  assumes "process_request x req ident ctx c b = (r, c', b')" "wf_policy (x_glob x) (b_handle b)"
  shows "wf_policy (x_glob x) (b_handle b')"
proof (cases "tool req = AllowTool")
  case False
  with process_request_policies [OF assms(1)] assms(2) show ?thesis by (simp add: same_policies_def)
next
  case True
  with assms obtain r1 c1 where "handle_allow x (args req) ident (ctx_policy_path ctx) c b = (r1, c1, b')"
    by (auto simp: process_request_def split: prod.splits sum.splits)
  from handle_allow_wf [OF this assms(2)] show ?thesis .
qed

lemma process_request_extends:
  assumes "process_request x req ident ctx c b = (r, c', b')"
  shows "\<exists>new. b_events b' = b_events b @ new"
  using assms by (cases rule: process_request_cases) auto

lemma handle_connection_cases:
  assumes "handle_connection x cred ctx c b = (r, c', b')"
  obtains (dropped) "b' = b" "r = Inr ()" "cn_sent c' = cn_sent c \<or> (\<exists>reason. cn_sent c' = cn_sent c @ [Denied reason])"
  | (processed) ident req s where "peer_identity x cred = Some ident"
      "sock_read_frame (x_de_request x) (cn_in c) = (Inr req, s)"
      "process_request x req ident ctx (c\<lparr>cn_in := s\<rparr>) b = (r, c', b')"
proof (cases "peer_identity x cred")
  case None
  obtain sr c1 where sr: "send_denied x ''unknown caller'' c = (sr, c1)" by fastforce
  with assms None have "b' = b" "r = Inr ()" "c' = c1" by (simp_all add: handle_connection_def)
  with send_frame_result [OF sr [unfolded send_denied_def]] dropped show thesis by (cases sr) auto
next
  case (Some ident)
  obtain fr s where fr: "sock_read_frame (x_de_request x) (cn_in c) = (fr, s)" by fastforce
  show thesis
  proof (cases fr)
    case (Inl e)
    obtain sr c1 where sr: "send_denied x ''malformed request'' (c\<lparr>cn_in := s\<rparr>) = (sr, c1)" by fastforce
    with assms Some fr Inl have "b' = b" "r = Inr ()" "c' = c1" by (simp_all add: handle_connection_def)
    with send_frame_result [OF sr [unfolded send_denied_def]] dropped show thesis by (cases sr) auto
  next
    case (Inr req)
    with assms Some fr processed show thesis by (simp add: handle_connection_def)
  qed
qed

text \<open>The invariant of the daemon.\<close>

definition daemon_inv :: "glob \<Rightarrow> broker \<Rightarrow> daemon \<Rightarrow> bool" where
  "daemon_inv g b0 d \<longleftrightarrow>
     wf_policy g (b_handle (d_broker d)) \<and>
     list_all (\<lambda>(_, ctx, _). wf_policy g (ctx_policy ctx)) (d_pending d) \<and>
     (\<exists>new. b_events (d_broker d) = b_events b0 @ new)"

lemma daemon_inv_step:
  assumes "daemon_step W cfg d d'" "daemon_inv g b0 d" "\<And>x. x \<in> W \<Longrightarrow> x_glob x = g"
  shows "daemon_inv g b0 d'"
  using assms(1)
proof (cases rule: daemon_step.cases)
  case (accept cred c)
  with assms(2) show ?thesis by (simp add: daemon_inv_def snapshot_def)
next
  case accept_failed
  with assms(2) show ?thesis by simp
next
  case (serve x before cred ctx c after r c' b')
  have g: "x_glob x = g" using assms(3) serve(2) by simp
  from serve(4) have "wf_policy g (b_handle b') \<and> (\<exists>new. b_events b' = b_events (d_broker d) @ new)"
  proof (cases rule: handle_connection_cases)
    case dropped
    with assms(2) show ?thesis by (simp add: daemon_inv_def)
  next
    case (processed ident req s)
    with process_request_wf [OF processed(3)] process_request_extends [OF processed(3)] assms(2) g
    show ?thesis by (simp add: daemon_inv_def)
  qed
  with assms(2) serve(1,3) show ?thesis by (auto simp: daemon_inv_def)
next
  case stop
  with assms(2) show ?thesis by (simp add: daemon_inv_def)
qed

lemma daemon_inv_reachable:
  assumes "reachable W cfg b d" "wf_policy g (b_handle b)" "\<And>x. x \<in> W \<Longrightarrow> x_glob x = g"
  shows "daemon_inv g b d"
proof -
  from assms(1) have "(daemon_step W cfg)\<^sup>*\<^sup>* (initial b) d" by (simp add: reachable_def)
  then show ?thesis
  proof (induction rule: rtranclp_induct)
    case base
    with assms(2) show ?case by (simp add: daemon_inv_def initial_def)
  next
    case (step d d')
    with assms(3) show ?case by (blast intro: daemon_inv_step)
  qed
qed

lemma spawn_split_unique:
  assumes "xs @ Spawned q # ys = pre @ Spawned q' # post" "no_streamed xs" "no_streamed ys"
  shows "pre = xs \<and> q' = q \<and> post = ys"
  using assms
proof (induction xs arbitrary: pre)
  case Nil
  then show ?case
  proof (cases pre)
    case Nil
    with \<open>[] @ Spawned q # ys = pre @ Spawned q' # post\<close> show ?thesis by simp
  next
    case (Cons e pre')
    with Nil.prems(1) have "Spawned q' \<in> set ys" by auto
    with no_streamed_not_in [OF Nil.prems(3)] show ?thesis by blast
  qed
next
  case (Cons e xs)
  then show ?case by (cases pre) (auto simp: no_streamed_def)
qed

text \<open>The variables that carry a secret.\<close>

definition token_variables :: "string list" where
  "token_variables = [''GH_TOKEN'', ''GH_ENTERPRISE_TOKEN'', ''GHBRK_TOKEN'']"

lemma gh_env_token: "(k, v) \<in> set (gh_env getenv tok) \<Longrightarrow> k \<in> set token_variables \<Longrightarrow> v = tok"
  by (auto simp: gh_env_def token_variables_def split: option.splits if_splits)

lemma git_safe_dir_env_token: "(k, v) \<in> set git_safe_dir_env \<Longrightarrow> k \<notin> set token_variables"
  by (auto simp: git_safe_dir_env_def token_variables_def)

lemma build_env_token:
  assumes "build_env x t res creds = (Inr (vars, keep, agent), acts)" "(k, v) \<in> set vars" "k \<in> set token_variables"
  shows "v = token creds"
proof (cases "t = Gh")
  case True
  with assms gh_env_token show ?thesis by (auto simp: build_env_def)
next
  case False
  show ?thesis
  proof (cases "rr_url_scheme res")
    case Https
    with False assms(1) have "vars = [(''GIT_ASKPASS'', p), (''GIT_TERMINAL_PROMPT'', ''0''),
        (''GHBRK_TOKEN'', token creds)] @ git_safe_dir_env" if "ai_tempfile (x_askpass x) = Inr p" for p
      using that by (auto simp: build_env_def https_git_env_def split: sum.splits)
    moreover obtain p where "ai_tempfile (x_askpass x) = Inr p"
      using False Https assms(1) by (auto simp: build_env_def https_git_env_def split: sum.splits)
    ultimately have "(k, v) \<in> set ([(''GIT_ASKPASS'', p), (''GIT_TERMINAL_PROMPT'', ''0''),
        (''GHBRK_TOKEN'', token creds)] @ git_safe_dir_env)" using assms(2) by simp
    with assms(3) git_safe_dir_env_token [of k v] show ?thesis by (auto simp: token_variables_def)
  next
    case Ssh
    with False assms(1) obtain ah where "start_ssh_agent (x_host x) creds = (Inr (vars, ah), acts)"
      by (auto simp: build_env_def split: sum.splits prod.splits)
    then obtain sock where "vars = (''SSH_AUTH_SOCK'', sock) # git_safe_dir_env"
      unfolding start_ssh_agent_def Let_def agent_failed_def
      by (auto split: sum.splits option.splits if_splits)
    with assms(2,3) git_safe_dir_env_token [of k v] show ?thesis by (auto simp: token_variables_def)
  qed
qed

lemma runs_spec_token:
  assumes "runs_spec x (child_spec_for prog req vars ident) q"
    and "cmd_env (ran_command q) k = Some v" "k \<in> set token_variables"
  shows "(k, v) \<in> set vars"
proof -
  have "k \<noteq> ''PATH''" "k \<noteq> ''HOME''" using assms(3) by (auto simp: token_variables_def)
  with assms(1,2) have "map_of (rev vars) k = Some v"
    by (auto simp: runs_spec_def child_env_aux child_spec_for_def split: option.splits)
  then show ?thesis using map_of_SomeD by fastforce
qed

lemma runs_spec_command:
  assumes "runs_spec x (child_spec_for prog req vars ident) q"
  shows "cmd_program (ran_command q) = prog \<and> cmd_args (ran_command q) = args req"
  using assms by (simp add: runs_spec_def child_spec_for_def)

text \<open>
  The identity a child of the daemon \<open>d\<close> has: the caller's in every id, unless the caller is root or
  the daemon's own user, for whom the child keeps the daemon's.
\<close>

definition child_ids :: "proc \<Rightarrow> peer \<Rightarrow> path \<Rightarrow> proc" where
  "child_ids d ident dir =
     (if pid_uid ident = 0 \<or> pid_uid ident = p_euid d then d\<lparr>p_cwd := dir\<rparr>
      else \<lparr>p_ruid = pid_uid ident, p_euid = pid_uid ident, p_suid = pid_uid ident, p_rgid = pid_gid ident,
             p_egid = pid_gid ident, p_sgid = pid_gid ident, p_groups = pid_supplementary_gids ident, p_cwd = dir\<rparr>)"

lemma runs_spec_identity:
  assumes "runs_spec x (child_spec_for prog req vars ident) q"
  shows "ran_proc q = child_ids (x_daemon x) ident (cwd req)"
proof -
  let ?s = "child_spec_for prog req vars ident"
  have run: "spawn (x_kernel x) (apply_privilege_drop (p_euid (x_daemon x)) ?s (build_command (x_getenv x) ?s))
      (x_daemon x) = Inr (ran_proc q)"
    using assms unfolding runs_spec_def by (elim conjE) simp
  have s: "cs_uid ?s = Some (pid_uid ident)" "cs_gid ?s = Some (pid_gid ident)" "cs_cwd ?s = cwd req"
    "cs_supplementary_gids ?s = pid_supplementary_gids ident"
    by (simp_all add: child_spec_for_def)
  show ?thesis
  proof (cases "pid_uid ident = 0 \<or> pid_uid ident = p_euid (x_daemon x)")
    case True
    with s have "\<not> drops (p_euid (x_daemon x)) ?s" by (simp add: drops_iff)
    with run True s show ?thesis by (simp add: spawn_ok child_ids_def)
  next
    case False
    with spawn_dropped [OF run s(1,2)] s show ?thesis by (simp add: child_ids_def dropped_def)
  qed
qed

subsection \<open>An example request\<close>

definition example_push :: request where
  "example_push =
     \<lparr>tool = Git, args = [''push'', ''origin'', ''main''], cwd = ''/home/alice/w'',
      remote_url = Some ''https://github.com/acme/web.git'', head_branch_hint = None, client_frames = False,
      caller_tmp = None\<rparr>"

definition example_ctx :: context_of_conn where
  "example_ctx = \<lparr>ctx_policy = example_policy, ctx_policy_path = ''/p'', ctx_credentials_root = None\<rparr>"

definition push_resolved :: resolved_request where
  "push_resolved =
     \<lparr>rr_org = ''acme'', rr_repo = ''web'', rr_branch = Some ''main'', rr_operation = Push, rr_url_scheme = Https\<rparr>"

lemma example_push_resolved: "resolve_request example_outside example_push = Inr push_resolved"
proof -
  have "resolve_git f [''push'', ''origin'', ''main''] ''/home/alice/w'' (Some ''https://github.com/acme/web.git'') None =
      Inr push_resolved" for f
    unfolding push_resolved_def by code_simp
  then show ?thesis by (simp add: resolve_request_def example_push_def)
qed

lemma example_push_allowed: "evaluate example_glob example_policy (policy_request_for ''alice'' push_resolved) = Allow"
  unfolding push_resolved_def by code_simp

lemma example_spawn:
  "\<exists>p. spawn example_kernel (apply_privilege_drop (p_euid example_daemon) spec (build_command getenv spec)) example_daemon = Inr p"
proof -
  have "\<exists>q. run_pre_exec example_kernel ss p = Inr q" for ss p
    by (induction ss arbitrary: p) (simp_all add: example_kernel_def)
  then show ?thesis by (simp add: spawn_ok) (simp add: example_kernel_def)
qed

text \<open>Whatever codec the connection uses, and with or without forwarded input, the push is run.\<close>

lemma example_push_runs:
  fixes ser :: frame_encoder and de :: "string \<Rightarrow> string + request" and cf :: bool
  defines "x \<equiv> example_outside\<lparr>x_ser := ser, x_de_request := de\<rparr>" and "req \<equiv> example_push\<lparr>client_frames := cf\<rparr>"
  shows "\<exists>c' b' pre q post. process_request x req alice_identity example_ctx c example_broker = (Inr (), c', b') \<and>
     b_events b' = b_events example_broker @ pre @ Spawned q # post"
proof -
  let ?b = "write_audit x (resolved_entry alice_identity req push_resolved) example_broker"
  obtain r c' b' where run: "process_request x req alice_identity example_ctx c example_broker = (r, c', b')"
    by (metis prod_cases3)
  have res: "resolve_request x req = Inr push_resolved"
  proof -
    have "resolve_request x req = resolve_request example_outside example_push"
      by (simp add: x_def req_def resolve_request_def)
    with example_push_resolved show ?thesis by simp
  qed
  have med: "process_request x req alice_identity example_ctx c example_broker =
      run_allowed x req alice_identity None push_resolved c ?b"
    using res example_push_allowed
    by (simp add: process_request_def process_mediated_def Let_def example_ctx_def alice_identity_def)
      (simp add: req_def x_def example_push_def git_is_remote_op_def)
  obtain creds where creds: "load_user_credentials x ''alice'' None = Inr creds"
    using example_store_alice by (simp add: x_def load_user_credentials_def)
  obtain vars keep where be: "build_env x Git push_resolved creds = (Inr (vars, Some keep, None), [])"
    by (simp add: x_def build_env_def push_resolved_def https_git_env_def example_outside_def)
  let ?spec = "child_spec_for ''git'' req vars alice_identity"
  from example_spawn [of ?spec] obtain p where
    "spawn (x_kernel x) (apply_privilege_drop (p_euid (x_daemon x)) ?spec (build_command (x_getenv x) ?spec)) (x_daemon x) = Inr p"
    by (auto simp: x_def)
  from stream_child_runs [OF this] have "\<exists>c1 q. stream_child_over_connection x ?spec req c0 b0 =
      (c1, record_event (Spawned q) b0)" for c0 b0
    by (simp add: stream_child_over_connection_def) (metis (no_types, lifting) case_prod_conv option.simps(5))
  then obtain c1 q where st: "stream_child_over_connection x ?spec req c (record_event (AgentActions []) ?b) =
      (c1, record_event (Spawned q) (record_event (AgentActions []) ?b))" by blast
  have "tool req = Git" "pid_username alice_identity = ''alice''"
    by (simp_all add: req_def example_push_def alice_identity_def)
  with run [unfolded med] creds be st have "r = Inr ()" and
    "b_events b' = b_events example_broker @
       [Audited (record_of x (resolved_entry alice_identity req push_resolved)), AgentActions []] @
       Spawned q # [ScriptRemoved (script_path (askpass_script keep))]"
    by (auto simp: run_allowed_def tool_name_def Let_def)
  with run show ?thesis by blast
qed

lemma example_push_spawns:
  "\<exists>c' b' pre q post.
     process_request example_outside example_push alice_identity example_ctx example_conn example_broker = (Inr (), c', b') \<and>
     b_events b' = b_events example_broker @ pre @ Spawned q # post"
proof -
  have "example_outside\<lparr>x_ser := x_ser example_outside, x_de_request := x_de_request example_outside\<rparr> = example_outside"
    "example_push\<lparr>client_frames := False\<rparr> = example_push" by (simp_all add: example_push_def)
  with example_push_runs [where ser = "x_ser example_outside" and de = "x_de_request example_outside" and
      cf = False and c = example_conn]
  show ?thesis by (simp only:)
qed

text \<open>A repository is not an action: it has a slash.\<close>

lemma repo_spec_no_action:
  assumes "parse_repo_spec spec = Some (org, repo)"
  shows "(g, spec) \<notin> set gh_broker_ops"
proof
  assume "(g, spec) \<in> set gh_broker_ops"
  then have "CHR ''/'' \<notin> set spec" by (auto simp: gh_broker_ops_def)
  with assms show False by (auto simp: parse_repo_spec_def split: option.splits)
qed

text \<open>
  C40. A way around the policy: the passthrough test takes the value of a repository flag for a positional
  argument. With the flag between the two command words, which \<open>gh\<close> accepts, no command of the
  mediated table is mediated: whatever the policy says, the request is passed through with the
  caller's token. With the flag after the command words the same command is mediated.
\<close>

theorem repo_flag_bypasses_policy:
  assumes "tool req = Gh" and "args req = g # flag # spec # a # rest"
    and "(g, a) \<in> set gh_broker_ops" and "flag \<in> {''-R'', ''--repo''}"
    and "parse_repo_spec spec = Some (org, repo)" and "\<not> is_flag spec"
  shows "process_request x req ident ctx c b = handle_gh_passthrough x req ident (ctx_credentials_root ctx) c b \<and>
    gh_is_broker_op (g # a # flag # spec # rest)"
proof -
  have "\<not> is_flag g" "\<not> is_flag a" "g \<noteq> ''api''" "is_flag flag"
    using assms(3,4) by (auto simp: gh_broker_ops_def)
  with assms repo_spec_no_action [OF assms(5)] show ?thesis
    by (simp add: process_request_def gh_is_broker_op_def)
qed

theorem repo_flag_bypasses_policy_witness:
  "let req = example_push\<lparr>tool := Gh, args := [''pr'', ''-R'', ''acme/web'', ''merge'', ''5'']\<rparr> in
     process_request example_outside req alice_identity (example_ctx\<lparr>ctx_policy := \<lparr>rules = [], roles = []\<rparr>\<rparr>)
       example_conn example_broker =
     handle_gh_passthrough example_outside req alice_identity None example_conn example_broker"
proof -
  have "parse_repo_spec ''acme/web'' = Some (''acme'', ''web'')" "(''pr'', ''merge'') \<in> set gh_broker_ops"
    by code_simp+
  with repo_flag_bypasses_policy [of "example_push\<lparr>tool := Gh, args := [''pr'', ''-R'', ''acme/web'', ''merge'', ''5'']\<rparr>"
      "''pr''" "''-R''" "''acme/web''" "''merge''" "[''5'']" "''acme''" "''web''" example_outside alice_identity
      "example_ctx\<lparr>ctx_policy := \<lparr>rules = [], roles = []\<rparr>\<rparr>" example_conn example_broker]
  show ?thesis by (simp add: example_ctx_def)
qed

end
