(* ===== verification/Gateway.thy ===== *)
theory Gateway
  imports Executor
begin

section \<open>The client's side of the relay\<close>

text \<open>
  The model of \<open>src/src/cmd/gateway.rs\<close>: the client connects to the broker's socket, sends one
  request frame, pumps its standard input to the broker in chunks and copies the broker's frames to
  its own standard output and error until an exit code arrives. The two directions run under a
  select loop, which is the step relation \<open>relay_step\<close> of the executor again, here on the futures
  \<open>pump_poll\<close> and \<open>responses_poll\<close>, and as the function \<open>select_loop\<close> of a schedule of turns. How the connection is made and what the broker sends are
  parameters.
\<close>

subsection \<open>Constants\<close>

definition DEFAULT_SOCKET_PATH :: path where
  "DEFAULT_SOCKET_PATH = ''/var/run/ghbrk/broker.sock''"

definition SOCKET_ENV_VAR :: string where
  "SOCKET_ENV_VAR = ''GHBRK_SOCKET''"

definition GATEWAY_ERROR_EXIT :: i32 where
  "GATEWAY_ERROR_EXIT = 1"

definition STDIN_CHUNK_SIZE :: nat where
  "STDIN_CHUNK_SIZE = READ_BUF_SIZE"

definition socket_path_from_env :: "(string \<Rightarrow> string option) \<Rightarrow> path" where
  "socket_path_from_env getenv = unwrap_or DEFAULT_SOCKET_PATH (getenv SOCKET_ENV_VAR)"

subsection \<open>Standard streams\<close>

text \<open>
  A flush takes the next outcome of the writer and moves no bytes of its own; a writer is flushed
  after every write, so a failed flush shows the failure of the write before it.
\<close>

definition flush :: "writer \<Rightarrow> (io_error + unit) \<times> writer" where
  "flush w =
     (case wr_events w of
        [] \<Rightarrow> (Inr (), w)
      | WriteOk # es \<Rightarrow> (Inr (), w\<lparr>wr_events := es\<rparr>)
      | WriteFail n e # es \<Rightarrow> (Inl e, w\<lparr>wr_events := es\<rparr>))"

definition write_and_flush :: "writer \<Rightarrow> string \<Rightarrow> (io_error + unit) \<times> writer" where
  "write_and_flush w bs =
     (case write_all w bs of (Inl e, w') \<Rightarrow> (Inl e, w') | (Inr _, w') \<Rightarrow> flush w')"

definition write_then_flush :: "writer \<Rightarrow> string \<Rightarrow> writer" where
  "write_then_flush w bs = snd (flush (snd (write_all w bs)))"

datatype stdin_source = ProcessStdin | EmptySource

definition caller_stdin :: "tool \<Rightarrow> bool \<Rightarrow> stdin_source option" where
  "caller_stdin t stdin_is_terminal =
     (case t of
        Git \<Rightarrow> Some (if stdin_is_terminal then EmptySource else ProcessStdin)
      | Gh \<Rightarrow> Some (if stdin_is_terminal then EmptySource else ProcessStdin)
      | Check \<Rightarrow> None
      | Explain \<Rightarrow> None
      | PolicyTool \<Rightarrow> None
      | AllowTool \<Rightarrow> None)"

definition source_pipe :: "pipe \<Rightarrow> stdin_source \<Rightarrow> pipe" where
  "source_pipe real src = (case src of ProcessStdin \<Rightarrow> real | EmptySource \<Rightarrow> [])"

subsection \<open>Sending standard input\<close>

record write_half =
  wh_writer :: writer
  wh_shut :: bool

type_synonym client_encoder = "client_frame \<Rightarrow> string + string"
type_synonym server_decoder = "string \<Rightarrow> string + server_frame"

text \<open>Every exit path of the loop sends the end marker, whatever became of it, and shuts down.\<close>

definition finish_pump :: "client_encoder \<Rightarrow> writer \<Rightarrow> write_half" where
  "finish_pump ser w = \<lparr>wh_writer = snd (write_frame ser w StdinEof), wh_shut = True\<rparr>"

lemma read_pipe_size: "read_pipe p = (Inr bs, p') \<Longrightarrow> bs \<noteq> [] \<Longrightarrow> pipe_size (Some p') < pipe_size (Some p)"
  by (cases "Some p" rule: pipe_size.cases) (auto simp: read_pipe_def READ_BUF_SIZE_def split: if_splits)

function pump_stdin :: "client_encoder \<Rightarrow> writer \<Rightarrow> pipe \<Rightarrow> write_half" where
  "pump_stdin ser w src =
     (case read_pipe src of
        (Inl _, _) \<Rightarrow> finish_pump ser w
      | (Inr bs, src') \<Rightarrow>
          if bs = [] then finish_pump ser w
          else (case write_frame ser w (StdinChunk bs) of
                  (Inl _, w') \<Rightarrow> finish_pump ser w'
                | (Inr _, w') \<Rightarrow> pump_stdin ser w' src'))"
  by pat_completeness auto
termination
  by (relation "measure (\<lambda>(ser, w, src). pipe_size (Some src))") (auto dest: read_pipe_size [OF sym])

declare pump_stdin.simps [simp del]

text \<open>
  The same loop as a future: one read and one frame per turn. The source is anything that can be
  read; a pipe of the model ends, but a source in general need not.
\<close>

definition pump_poll_from ::
    "('src \<Rightarrow> (io_error + string) \<times> 'src) \<Rightarrow> client_encoder \<Rightarrow>
     write_half \<times> 'src \<Rightarrow> (write_half \<times> 'src, write_half \<times> 'src) poll" where
  "pump_poll_from read ser = (\<lambda>(h, src).
     case read src of
       (Inl _, src') \<Rightarrow> Ready (finish_pump ser (wh_writer h), src')
     | (Inr bs, src') \<Rightarrow>
         if bs = [] then Ready (finish_pump ser (wh_writer h), src')
         else (case write_frame ser (wh_writer h) (StdinChunk bs) of
                 (Inl _, w') \<Rightarrow> Ready (finish_pump ser w', src')
               | (Inr _, w') \<Rightarrow> Step (h\<lparr>wh_writer := w'\<rparr>, src')))"

definition pump_poll ::
    "client_encoder \<Rightarrow> write_half \<times> pipe \<Rightarrow> (write_half \<times> pipe, write_half \<times> pipe) poll" where
  "pump_poll = pump_poll_from read_pipe"

lemmas pump_poll_unfold = pump_poll_def pump_poll_from_def

subsection \<open>Reading the responses\<close>

definition protocol_failure_text :: "protocol_error \<Rightarrow> string" where
  "protocol_failure_text err =
     (case err of
        ProtocolIo e \<Rightarrow>
          if io_kind e = UnexpectedEof then ''ghbrk: broker closed connection before exit'' @ [CHR 0x0A]
          else ''ghbrk: protocol error: '' @ protocol_error_text err @ [CHR 0x0A]
      | _ \<Rightarrow> ''ghbrk: protocol error: '' @ protocol_error_text err @ [CHR 0x0A])"

definition denied_text :: "string \<Rightarrow> string" where
  "denied_text reason = ''ghbrk: denied: '' @ reason @ [CHR 0x0A]"

function read_responses ::
    "server_decoder \<Rightarrow> sock \<Rightarrow> writer \<Rightarrow> writer \<Rightarrow> i32 \<times> writer \<times> writer" where
  "read_responses de s out err =
     (case sock_read_frame de s of
        (Inr (StdoutChunk d), s') \<Rightarrow>
          (case write_and_flush out d of
             (Inl _, out') \<Rightarrow> (GATEWAY_ERROR_EXIT, out', err)
           | (Inr _, out') \<Rightarrow> read_responses de s' out' err)
      | (Inr (StderrChunk d), s') \<Rightarrow>
          (case write_and_flush err d of
             (Inl _, err') \<Rightarrow> (GATEWAY_ERROR_EXIT, out, err')
           | (Inr _, err') \<Rightarrow> read_responses de s' out err')
      | (Inr (CredentialAuditFrame _), s') \<Rightarrow> read_responses de s' out err
      | (Inr (Exit code), s') \<Rightarrow> (code, snd (flush out), snd (flush err))
      | (Inr (Denied reason), s') \<Rightarrow> (GATEWAY_ERROR_EXIT, out, write_then_flush err (denied_text reason))
      | (Inl e, s') \<Rightarrow> (GATEWAY_ERROR_EXIT, out, write_then_flush err (protocol_failure_text e)))"
  by pat_completeness auto
termination
  by (relation "measure (\<lambda>(de, s, out, err). sock_size s)") (auto dest: sock_read_frame_size [OF sym])

declare read_responses.simps [simp del]

text \<open>The same loop as a future: one frame per turn.\<close>

definition responses_poll ::
    "server_decoder \<Rightarrow> sock \<times> writer \<times> writer \<Rightarrow> (sock \<times> writer \<times> writer, i32 \<times> writer \<times> writer) poll" where
  "responses_poll de = (\<lambda>(s, out, err).
     case sock_read_frame de s of
       (Inr (StdoutChunk d), s') \<Rightarrow>
         (case write_and_flush out d of
            (Inl _, out') \<Rightarrow> Ready (GATEWAY_ERROR_EXIT, out', err)
          | (Inr _, out') \<Rightarrow> Step (s', out', err))
     | (Inr (StderrChunk d), s') \<Rightarrow>
         (case write_and_flush err d of
            (Inl _, err') \<Rightarrow> Ready (GATEWAY_ERROR_EXIT, out, err')
          | (Inr _, err') \<Rightarrow> Step (s', out, err'))
     | (Inr (CredentialAuditFrame _), s') \<Rightarrow> Step (s', out, err)
     | (Inr (Exit code), s') \<Rightarrow> Ready (code, snd (flush out), snd (flush err))
     | (Inr (Denied reason), s') \<Rightarrow> Ready (GATEWAY_ERROR_EXIT, out, write_then_flush err (denied_text reason))
     | (Inl e, s') \<Rightarrow> Ready (GATEWAY_ERROR_EXIT, out, write_then_flush err (protocol_failure_text e)))"

subsection \<open>The select loop\<close>

text \<open>
  What a turn of the loop finds: bytes of the broker, bytes of the caller or nothing yet. A silent
  broker is a schedule without \<open>ResponsesReady\<close>; a pipe that stays open is one without \<open>StdinReady\<close>, or
  a pump that is never ready. The flag is \<open>pumping\<close>.
\<close>

datatype turn = ResponsesReady | StdinReady | Quiet

fun select_turn ::
    "('i \<Rightarrow> ('i, 'i) poll) \<Rightarrow> ('o \<Rightarrow> ('o, 't) poll) \<Rightarrow> turn \<Rightarrow>
     ('i, 'o, 't) relay_state \<Rightarrow> ('i, 'o, 't) relay_state" where
  "select_turn inp outp t (Finished r i) = Finished r i"
| "select_turn inp outp ResponsesReady (Polling pumping i q) =
     (case outp q of
        Waiting \<Rightarrow> Polling pumping i q
      | Step q' \<Rightarrow> Polling pumping i q'
      | Ready r \<Rightarrow> Finished r i)"
| "select_turn inp outp StdinReady (Polling pumping i q) =
     (if \<not> pumping then Polling pumping i q
      else (case inp i of
              Waiting \<Rightarrow> Polling pumping i q
            | Step i' \<Rightarrow> Polling pumping i' q
            | Ready i' \<Rightarrow> Polling False i' q))"
| "select_turn inp outp Quiet (Polling pumping i q) = Polling pumping i q"

primrec select_loop ::
    "('i \<Rightarrow> ('i, 'i) poll) \<Rightarrow> ('o \<Rightarrow> ('o, 't) poll) \<Rightarrow> (nat \<Rightarrow> turn) \<Rightarrow> nat \<Rightarrow>
     ('i, 'o, 't) relay_state \<Rightarrow> ('i, 'o, 't) relay_state" where
  "select_loop inp outp turns 0 st = st"
| "select_loop inp outp turns (Suc n) st = select_turn inp outp (turns n) (select_loop inp outp turns n st)"

subsection \<open>One request\<close>

text \<open>
  A connection the kernel made: what the broker will send, how the writes to it go, and how many
  turns the pump gets before the responses end.
\<close>

record link =
  lk_responses :: sock
  lk_writes :: "write_event list"
  lk_turns :: nat

record relay_result =
  rl_code :: i32
  rl_out :: writer
  rl_err :: writer
  rl_sent :: "write_half option"

definition relay_request ::
    "(request \<Rightarrow> string + string) \<Rightarrow> client_encoder \<Rightarrow> server_decoder \<Rightarrow> (path \<Rightarrow> io_error + link) \<Rightarrow>
     request \<Rightarrow> path \<Rightarrow> pipe option \<Rightarrow> writer \<Rightarrow> writer \<Rightarrow> relay_result" where
  "relay_request ser_req ser de connect req socket_path stdin out err =
     (case connect socket_path of
        Inl e \<Rightarrow>
          \<lparr>rl_code = GATEWAY_ERROR_EXIT, rl_out = out,
           rl_err = write_then_flush err
             (''ghbrk: cannot connect to broker at '' @ socket_path @ '': '' @ io_text e @ [CHR 0x0A]),
           rl_sent = None\<rparr>
      | Inr lk \<Rightarrow>
          (case write_frame ser_req \<lparr>wr_out = [], wr_events = lk_writes lk\<rparr> req of
             (Inl e, w) \<Rightarrow>
               \<lparr>rl_code = GATEWAY_ERROR_EXIT, rl_out = out,
                rl_err = write_then_flush err
                  (''ghbrk: failed to send request to broker: '' @ protocol_error_text e @ [CHR 0x0A]),
                rl_sent = Some \<lparr>wh_writer = w, wh_shut = False\<rparr>\<rparr>
           | (Inr _, w) \<Rightarrow>
               let h = \<lparr>wh_writer = w, wh_shut = False\<rparr>;
                   sent = (case stdin of
                             None \<Rightarrow> h
                           | Some source \<Rightarrow> fst (run_polls (pump_poll ser) (lk_turns lk) (h, source)));
                   (code, out', err') = read_responses de (lk_responses lk) out err in
                 \<lparr>rl_code = code, rl_out = out', rl_err = err', rl_sent = Some sent\<rparr>))"

text \<open>The process that runs a client command, and what it meets.\<close>

record client_world =
  cw_getenv :: "string \<Rightarrow> string option"
  cw_cwd :: "io_error + path"
  cw_fs :: fs
  cw_terminal :: bool
  cw_stdin :: pipe
  cw_runtime :: "io_error option"
  cw_connect :: "path \<Rightarrow> io_error + link"
  cw_ser_request :: "request \<Rightarrow> string + string"
  cw_ser :: client_encoder
  cw_de :: server_decoder
  cw_dbg :: "string \<Rightarrow> string"

definition gateway_request ::
    "tool \<Rightarrow> string list \<Rightarrow> path \<Rightarrow> string option \<Rightarrow> string option \<Rightarrow> bool \<Rightarrow> request" where
  "gateway_request t as dir url branch has_stdin =
     \<lparr>tool = t, args = as, cwd = dir, remote_url = url, head_branch_hint = branch, client_frames = has_stdin,
      caller_tmp = None\<rparr>"

definition relay ::
    "client_world \<Rightarrow> tool \<Rightarrow> string list \<Rightarrow> path \<Rightarrow> path \<Rightarrow> string option \<Rightarrow> string option \<Rightarrow>
     writer \<Rightarrow> writer \<Rightarrow> relay_result" where
  "relay cw t as dir socket_path url branch out err =
     (let stdin = map_option (source_pipe (cw_stdin cw)) (caller_stdin t (cw_terminal cw)) in
        relay_request (cw_ser_request cw) (cw_ser cw) (cw_de cw) (cw_connect cw)
          (gateway_request t as dir url branch (stdin \<noteq> None)) socket_path stdin out err)"

text \<open>
  \<open>eprintln!\<close> followed by an exit: if standard error cannot be written the macro panics, and a
  panicking main thread exits with 101.
\<close>

definition eprintln_exit :: "i32 \<Rightarrow> string \<Rightarrow> writer \<Rightarrow> writer \<Rightarrow> relay_result" where
  "eprintln_exit code msg out err =
     (case write_all err (msg @ [CHR 0x0A]) of
        (Inl _, err') \<Rightarrow> \<lparr>rl_code = 101, rl_out = out, rl_err = err', rl_sent = None\<rparr>
      | (Inr _, err') \<Rightarrow> \<lparr>rl_code = code, rl_out = out, rl_err = err', rl_sent = None\<rparr>)"

definition run_gateway ::
    "client_world \<Rightarrow> tool \<Rightarrow> string list \<Rightarrow> path \<Rightarrow> path \<Rightarrow> string option \<Rightarrow> string option \<Rightarrow>
     writer \<Rightarrow> writer \<Rightarrow> relay_result" where
  "run_gateway cw t as dir socket_path url branch out err =
     (case cw_runtime cw of
        Some e \<Rightarrow>
          eprintln_exit GATEWAY_ERROR_EXIT (''ghbrk: failed to start async runtime: '' @ io_text e) out err
      | None \<Rightarrow> relay cw t as dir socket_path url branch out err)"

subsection \<open>Lemmas\<close>

lemma flush_quiet [simp]: "wr_events w = [] \<Longrightarrow> flush w = (Inr (), w)"
  by (simp add: flush_def)

lemma write_and_flush_quiet [simp]:
  "wr_events w = [] \<Longrightarrow> write_and_flush w bs = (Inr (), w\<lparr>wr_out := wr_out w @ bs\<rparr>)"
  by (simp add: write_and_flush_def write_all_def)

lemma flush_out [simp]: "wr_out (snd (flush w)) = wr_out w"
  by (simp add: flush_def split: list.split write_event.split)

lemma write_and_flush_ok: "write_and_flush w bs = (Inr u, w') \<Longrightarrow> wr_out w' = wr_out w @ bs"
  by (auto simp: write_and_flush_def flush_def dest!: write_all_ok split: prod.splits sum.splits list.splits
      write_event.splits)

text \<open>A frame the client only copies, or skips, and goes on.\<close>

definition relayed_frame :: "server_frame \<Rightarrow> bool" where
  "relayed_frame f = (case f of Exit _ \<Rightarrow> False | Denied _ \<Rightarrow> False | _ \<Rightarrow> True)"

text \<open>Polling the responses to their end is reading them in one go.\<close>

lemma responses_poll_step:
  "responses_poll de (s, out, err) = Step (s', out', err') \<Longrightarrow>
     sock_size s' < sock_size s \<and> read_responses de s out err = read_responses de s' out' err'"
  unfolding read_responses.simps [of de s out err] responses_poll_def
  by (auto dest: sock_read_frame_size split: prod.splits sum.splits server_frame.splits)

lemma responses_poll_ready:
  "responses_poll de (s, out, err) = Ready t \<Longrightarrow> read_responses de s out err = t"
  unfolding read_responses.simps [of de s out err] responses_poll_def
  by (auto split: prod.splits sum.splits server_frame.splits)

lemma responses_poll_not_waiting: "responses_poll de q \<noteq> Waiting"
  unfolding responses_poll_def by (auto split: prod.splits sum.splits server_frame.splits)

lemma responses_run: "output_runs (responses_poll de) q t \<Longrightarrow> t = read_responses de (fst q) (fst (snd q)) (snd (snd q))"
proof (induction rule: output_runs.induct)
  case (1 q t)
  then show ?case by (cases q) (simp add: responses_poll_ready)
next
  case (2 q q' t)
  then show ?case by (cases q; cases q') (auto dest: responses_poll_step)
qed

text \<open>Polling the pump to its end is running it in one go.\<close>

lemma pump_poll_step:
  "pump_poll ser (h, src) = Step (h', src') \<Longrightarrow> pipe_size (Some src') < pipe_size (Some src) \<and>
     pump_stdin ser (wh_writer h) src = pump_stdin ser (wh_writer h') src'"
  unfolding pump_stdin.simps [of ser "wh_writer h" src] pump_poll_unfold
  by (auto dest: read_pipe_size split: prod.splits sum.splits if_splits)

lemma pump_poll_ready:
  "pump_poll ser (h, src) = Ready i \<Longrightarrow> pump_stdin ser (wh_writer h) src = fst i"
  unfolding pump_stdin.simps [of ser "wh_writer h" src] pump_poll_unfold
  by (auto split: prod.splits sum.splits if_splits)

lemma pump_poll_not_waiting: "pump_poll ser i \<noteq> Waiting"
  unfolding pump_poll_unfold by (auto split: prod.splits sum.splits if_splits)

lemma pump_run: "pipe_size (Some src) < n \<Longrightarrow> fst (run_polls (pump_poll ser) n (h, src)) = pump_stdin ser (wh_writer h) src"
proof (induction n arbitrary: h src)
  case (Suc n)
  show ?case
  proof (cases "pump_poll ser (h, src)")
    case Waiting
    then show ?thesis by (simp add: pump_poll_not_waiting)
  next
    case (Step i)
    then show ?thesis using Suc.IH [of "snd i" "fst i"] Suc.prems by (cases i) (auto dest: pump_poll_step)
  next
    case (Ready i)
    then show ?thesis by (simp add: pump_poll_ready)
  qed
qed simp

text \<open>The select loop in turns: each turn is a step of the loop, or nothing happens.\<close>

lemma select_turn_step:
  "select_turn inp outp t st = st \<or> relay_step inp outp st (select_turn inp outp t st)"
proof (cases st)
  case (Polling live i q)
  then show ?thesis
    by (cases t; cases "outp q"; cases "inp i"; cases live) (simp_all add: relay_step_Polling)
next
  case (Finished r i)
  then show ?thesis by simp
qed

lemma select_loop_runs: "(relay_step inp outp)\<^sup>*\<^sup>* st (select_loop inp outp turns n st)"
proof (induction n)
  case (Suc n)
  with select_turn_step [of inp outp "turns n" "select_loop inp outp turns n st"] show ?case
    by (auto intro: rtranclp.rtrancl_into_rtrancl)
qed simp

definition turns_ready :: "(nat \<Rightarrow> turn) \<Rightarrow> nat \<Rightarrow> nat" where
  "turns_ready turns n = length (filter (\<lambda>m. turns m = ResponsesReady) [0..<n])"

lemma turns_ready_simps [simp]:
  "turns_ready turns 0 = 0"
  "turns_ready turns (Suc n) = (if turns n = ResponsesReady then Suc (turns_ready turns n) else turns_ready turns n)"
  by (simp_all add: turns_ready_def)

text \<open>Every turn of the responses uses up bytes, whatever the other direction does.\<close>

lemma select_loop_responses:
  "case select_loop inp (responses_poll de) turns n (Polling True i (s, out, err)) of
     Polling live i' (s', out', err') \<Rightarrow>
       sock_size s' + turns_ready turns n \<le> sock_size s \<and> read_responses de s' out' err' = read_responses de s out err
   | Finished t i' \<Rightarrow> t = read_responses de s out err \<and> 0 < turns_ready turns n"
proof (induction n)
  case (Suc n)
  show ?case
  proof (cases "select_loop inp (responses_poll de) turns n (Polling True i (s, out, err))")
    case (Finished t i')
    with Suc show ?thesis by simp
  next
    case (Polling live i' q)
    obtain s' out' err' where q: "q = (s', out', err')" by (cases q)
    with Suc Polling have inv: "sock_size s' + turns_ready turns n \<le> sock_size s"
      "read_responses de s' out' err' = read_responses de s out err" by simp_all
    show ?thesis
    proof (cases "turns n")
      case ResponsesReady
      show ?thesis
      proof (cases "responses_poll de q")
        case Waiting
        then show ?thesis by (simp add: responses_poll_not_waiting)
      next
        case (Step q')
        with responses_poll_step [of de s' out' err'] inv Polling ResponsesReady q show ?thesis
          by (cases q') auto
      next
        case (Ready t)
        with responses_poll_ready [of de s' out' err' t] inv Polling ResponsesReady q show ?thesis by simp
      qed
    next
      case StdinReady
      with inv Polling q show ?thesis by (cases live; cases "inp i'") simp_all
    next
      case Quiet
      with inv Polling q show ?thesis by simp
    qed
  qed
qed simp

text \<open>Reading frames the broker wrote: everything up to the exit code is copied to its stream.\<close>

lemma read_responses_frames:
  assumes "write_frames ser w0 (fs @ [Exit code]) = (Inr u, w1)" and "list_all relayed_frame fs"
    and "\<And>v body. ser v = Inr body \<Longrightarrow> de body = Inr v"
    and "sock_ok s" and "wr_out w0 @ sock_content s = wr_out w1 @ rest"
    and "wr_events out = []" "wr_events err = []"
  shows "read_responses de s out err =
    (code, out\<lparr>wr_out := wr_out out @ out_bytes fs\<rparr>, err\<lparr>wr_out := wr_out err @ err_bytes fs\<rparr>)"
  using assms
proof (induction fs arbitrary: w0 s out err)
  case Nil
  from read_frames_written [OF Nil.prems(1) _ Nil.prems(4,5), of de] Nil.prems(3)
  obtain s1 where "read_frames de (length ([] @ [Exit code])) s = (Inr [Exit code], s1)" by auto
  with Nil.prems(6,7) show ?case
    by (subst read_responses.simps) (auto split: prod.splits sum.splits)
next
  case (Cons f fs)
  from Cons.prems(1) obtain w2 u2 where w2: "write_frame ser w0 f = (Inr u2, w2)"
    "write_frames ser w2 (fs @ [Exit code]) = (Inr u, w1)"
    by (auto split: prod.splits sum.splits)
  from write_frame_ok [OF w2(1)] obtain body where b: "ser f = Inr body"
    "length body \<le> unat MAX_FRAME_LEN" "wr_out w2 = wr_out w0 @ frame_bytes body" by blast
  obtain tail where t: "wr_out w1 = wr_out w2 @ tail" using write_frames_extends [OF w2(2)] by blast
  have "sock_content s = frame_bytes body @ (tail @ rest)" using Cons.prems(5) b(3) t by simp
  from read_frame_written [OF Cons.prems(4) this b(2), of de] Cons.prems(3) [OF b(1)] obtain s1 where
    s1: "sock_read_frame de s = (Inr f, s1)" "sock_ok s1" "sock_content s1 = tail @ rest" by auto
  have "wr_out w2 @ sock_content s1 = wr_out w1 @ rest" using s1(3) t by simp
  note IH = Cons.IH [OF w2(2) _ Cons.prems(3) s1(2) this]
  show ?case
    using Cons.prems(2,6,7) s1(1)
    by (subst read_responses.simps)
      (cases f; simp add: IH relayed_frame_def out_bytes_def err_bytes_def)
qed

text \<open>What one turn of the response loop has read.\<close>

lemma responses_poll_frame:
  "responses_poll de (s, out, err) = Step (s', out', err') \<Longrightarrow>
     \<exists>f. sock_read_frame de s = (Inr f, s') \<and> relayed_frame f \<and>
       wr_out out' = wr_out out @ out_bytes [f] \<and> wr_out err' = wr_out err @ err_bytes [f]"
  "responses_poll de (s, out, err) = Ready (code, out', err') \<Longrightarrow> code \<noteq> GATEWAY_ERROR_EXIT \<Longrightarrow>
     \<exists>s'. sock_read_frame de s = (Inr (Exit code), s') \<and> wr_out out' = wr_out out \<and> wr_out err' = wr_out err"
  unfolding responses_poll_def
  by (auto simp: relayed_frame_def out_bytes_def err_bytes_def dest: write_and_flush_ok
      split: prod.splits sum.splits server_frame.splits)

lemma read_responses_code:
  assumes "read_responses de s out err = (code, out', err')" "code \<noteq> GATEWAY_ERROR_EXIT"
  shows "\<exists>fs s'. read_frames de (Suc (length fs)) s = (Inr (fs @ [Exit code]), s') \<and> list_all relayed_frame fs \<and>
    wr_out out' = wr_out out @ out_bytes fs \<and> wr_out err' = wr_out err @ err_bytes fs"
  using assms
proof (induction "sock_size s" arbitrary: s out err rule: less_induct)
  case (less s out err)
  show ?case
  proof (cases "responses_poll de (s, out, err)")
    case Waiting
    then show ?thesis by (simp add: responses_poll_not_waiting)
  next
    case (Step q)
    obtain s1 o1 e1 where q: "q = (s1, o1, e1)" by (cases q)
    note st = responses_poll_step [OF Step [unfolded q]]
    from responses_poll_frame(1) [OF Step [unfolded q]] obtain f where
      f: "sock_read_frame de s = (Inr f, s1)" "relayed_frame f"
        "wr_out o1 = wr_out out @ out_bytes [f]" "wr_out e1 = wr_out err @ err_bytes [f]" by blast
    from less.hyps [of s1 o1 e1] st less.prems obtain fs s' where
      fs: "read_frames de (Suc (length fs)) s1 = (Inr (fs @ [Exit code]), s')" "list_all relayed_frame fs"
      "wr_out out' = wr_out o1 @ out_bytes fs" "wr_out err' = wr_out e1 @ err_bytes fs" by auto
    have "read_frames de (Suc (length (f # fs))) s = (Inr ((f # fs) @ [Exit code]), s')"
      unfolding list.size add_Suc_right add_0_right read_frames.simps(2) [of de "Suc (length fs)"] using f(1) fs(1)
      by (simp del: read_frames.simps)
    with f fs show ?thesis
      by (intro exI [of _ "f # fs"] exI [of _ s']) (simp add: out_bytes_def err_bytes_def del: read_frames.simps)
  next
    case (Ready t)
    with less.prems responses_poll_ready [OF Ready] have "responses_poll de (s, out, err) = Ready (code, out', err')"
      by simp
    from responses_poll_frame(2) [OF this less.prems(2)] show ?thesis
      by (auto intro!: exI [where x = "[] :: server_frame list"])
  qed
qed


text \<open>What the broker sent completely is what its writer holds, as long as no write failed.\<close>

definition wrote :: "frame_encoder \<Rightarrow> conn \<Rightarrow> conn \<Rightarrow> bool" where
  "wrote ser c c' \<longleftrightarrow> (\<exists>fs. cn_sent c' = cn_sent c @ fs \<and> write_frames ser (cn_writer c) fs = (Inr (), cn_writer c'))"

lemma write_frames_append:
  "write_frames ser w (fs @ gs) =
     (case write_frames ser w fs of (Inl e, w') \<Rightarrow> (Inl e, w') | (Inr _, w') \<Rightarrow> write_frames ser w' gs)"
  by (induction fs arbitrary: w) (auto split: prod.splits sum.splits)

lemma wrote_refl: "wrote ser c c"
  by (simp add: wrote_def)

lemma wrote_trans: "wrote ser a b \<Longrightarrow> wrote ser b c \<Longrightarrow> wrote ser a c"
  by (auto simp: wrote_def write_frames_append intro: exI [of _ "_ @ _"])

lemma send_frame_wrote: "send_frame ser v c = (Inr u, c') \<Longrightarrow> wrote ser c c'"
  by (auto simp: send_frame_def wrote_def split: prod.splits sum.splits intro!: exI [of _ "[v]"])

lemma pump_wrote: "pump ser mk p c = (Inr p', c') \<Longrightarrow> wrote ser c c'"
  by (auto simp: pump_def wrote_refl dest: send_frame_wrote split: prod.splits sum.splits if_splits)

lemma stream_pipes_wrote:
  "stream_pipes ser sched stdout stderr c = (Inr u, c') \<Longrightarrow> wrote ser c c'"
proof (induction "pipe_size stdout + pipe_size stderr" arbitrary: sched stdout stderr c rule: less_induct)
  case (less stdout stderr sched c)
  have step: "wrote ser c c'"
    if "pump ser mk p c = (Inr p', c1)" "stream_pipes ser sd so se c1 = (Inr u, c')"
      "pipe_size p' < pipe_size (Some p) \<Longrightarrow> pipe_size so + pipe_size se < pipe_size stdout + pipe_size stderr"
    for mk p p' c1 sd so se
    using that(3) [OF pump_size [OF that(1)]] less.hyps that(1,2) by (blast intro: wrote_trans pump_wrote)
  show ?case
  proof (cases stdout)
    case None
    with less.prems show ?thesis
      by (cases stderr) (auto simp: stream_pipes_cases wrote_refl
          split: prod.splits sum.splits intro: step)
  next
    case (Some p)
    with less.prems show ?thesis
      by (cases stderr) (auto simp: stream_pipes_cases wrote_refl
          split: prod.splits sum.splits if_splits intro: step)
  qed
qed

lemma stream_child_wrote:
  assumes "stream_child ser de getenv k d children spec s c = (Inr u, rn, s', c')"
  shows "wrote ser c c'"
  using assms
  by (auto simp: stream_child_def Let_def split: sum.splits prod.splits
      dest: send_frame_wrote stream_pipes_wrote intro: wrote_trans)

text \<open>An encoder that encodes every frame of at most one buffer of input within the frame limit.\<close>

definition encodes_input :: "client_encoder \<Rightarrow> bool" where
  "encodes_input ser \<longleftrightarrow>
     (\<forall>f. (case f of StdinChunk d \<Rightarrow> length d \<le> STDIN_CHUNK_SIZE | StdinEof \<Rightarrow> True) \<longrightarrow>
        (\<exists>body. ser f = Inr body \<and> length body \<le> unat MAX_FRAME_LEN))"

lemma write_frame_quiet:
  assumes "encodes_input ser" "wr_events w = []" "f = StdinEof \<or> (\<exists>d. f = StdinChunk d \<and> length d \<le> STDIN_CHUNK_SIZE)"
  shows "\<exists>w'. write_frame ser w f = (Inr (), w') \<and> wr_events w' = []"
proof -
  from assms(1) [unfolded encodes_input_def, rule_format, of f] assms(3) obtain body where
    "ser f = Inr body" "length body \<le> unat MAX_FRAME_LEN" by auto
  with assms(2) show ?thesis by (simp add: write_frame_def write_all_def)
qed

lemma pump_stdin_frames:
  assumes "encodes_input ser" "pipe_ok (Some src)" "wr_events w = []"
  shows "\<exists>chunks w'. write_frames ser w (map StdinChunk chunks @ [StdinEof]) = (Inr (), w') \<and>
    concat chunks = pipe_bytes (Some src) \<and> pump_stdin ser w src = \<lparr>wh_writer = w', wh_shut = True\<rparr>"
  using assms
proof (induction "pipe_size (Some src)" arbitrary: src w rule: less_induct)
  case (less src w)
  obtain r src' where rd: "read_pipe src = (r, src')" by fastforce
  from write_frame_quiet [OF less.prems(1,3), of StdinEof] obtain w1 where
    eof: "write_frame ser w StdinEof = (Inr (), w1)" by auto
  have ended: ?case if "pipe_bytes (Some src) = []" "pump_stdin ser w src = finish_pump ser w"
    using that eof by (intro exI [of _ "[]"] exI [of _ w1]) (simp add: finish_pump_def)
  show ?case
  proof (cases r)
    case (Inl e)
    with rd have "pipe_bytes (Some src) = []"
      by (cases "Some src" rule: pipe_bytes.cases) (auto simp: read_pipe_def)
    with Inl rd show ?thesis by (intro ended) (simp_all add: pump_stdin.simps [of ser w src])
  next
    case (Inr bs)
    note sp = read_pipe_spec [OF rd [unfolded Inr] less.prems(2)]
    show ?thesis
    proof (cases "bs = []")
      case True
      with Inr rd have "pump_stdin ser w src = finish_pump ser w" by (simp add: pump_stdin.simps [of ser w src])
      moreover have "pipe_bytes (Some src) = []" using sp True by simp
      ultimately show ?thesis by (intro ended)
    next
      case False
      from sp write_frame_quiet [OF less.prems(1,3), of "StdinChunk bs"] obtain w2 where
        w2: "write_frame ser w (StdinChunk bs) = (Inr (), w2)" "wr_events w2 = []"
        by (auto simp: STDIN_CHUNK_SIZE_def)
      from less.hyps [OF read_pipe_size [OF rd [unfolded Inr] False] less.prems(1) _ w2(2)] sp obtain chunks w' where
        ih: "write_frames ser w2 (map StdinChunk chunks @ [StdinEof]) = (Inr (), w')"
          "concat chunks = pipe_bytes (Some src')" "pump_stdin ser w2 src' = \<lparr>wh_writer = w', wh_shut = True\<rparr>" by blast
      have "pump_stdin ser w src = pump_stdin ser w2 src'"
        using rd Inr False w2(1) by (simp add: pump_stdin.simps [of ser w src])
      with ih w2(1) sp show ?thesis by (intro exI [of _ "bs # chunks"] exI [of _ w']) simp
    qed
  qed
qed

subsection \<open>Properties\<close>

text \<open>
  C26. Only the broker decides when the client ends: whatever the standard input does, be it a pipe
  that never ends, never delivers or always delivers, and however the turns fall, the select loop
  has finished with the result of the responses once it could read from the broker more often than
  the broker's bytes have room for frames; and it has not finished, with that or any other result,
  as long as there was nothing to read from the broker.
\<close>

theorem client_relay_terminates:
  assumes "st = select_loop stdin (responses_poll de) turns n (Polling True i (s, out, err))"
  shows "(if sock_size s < turns_ready turns n
      then \<exists>i'. st = Finished (read_responses de s out err) i'
      else if turns_ready turns n = 0 then \<exists>pumping i'. st = Polling pumping i' (s, out, err)
      else case st of Finished t i' \<Rightarrow> t = read_responses de s out err | Polling _ _ _ \<Rightarrow> True)"
proof -
  note inv = select_loop_responses [where inp = stdin and de = de and turns = turns and n = n and i = i and s = s and out = out and err = err,
    folded assms]
  have quiet: "turns_ready turns n = 0 \<Longrightarrow> \<exists>pumping i'. st = Polling pumping i' (s, out, err)"
    unfolding assms
  proof (induction n)
    case (Suc n)
    then obtain pumping i' where
      "select_loop stdin (responses_poll de) turns n (Polling True i (s, out, err)) = Polling pumping i' (s, out, err)"
      by (auto split: if_splits)
    with Suc.prems show ?case by (cases "turns n"; cases pumping; cases "stdin i'") auto
  qed auto
  show ?thesis
  proof (cases st)
    case (Polling live i' q)
    with inv quiet show ?thesis by (cases q) auto
  next
    case (Finished t i')
    with inv quiet show ?thesis by auto
  qed
qed

text \<open>An input that delivers a byte at every turn and never ends.\<close>

definition endless :: "unit \<Rightarrow> (io_error + string) \<times> unit" where
  "endless u = (Inr ''x'', u)"

text \<open>
  C25. The select loop computes what the sequential definition says: however the two directions are
  interleaved, the exit code and the client's output are those of reading the responses alone, and
  the wire holds what some number of turns of the pump put on it; with enough turns that is the
  whole of standard input, the end marker and the shutdown.
\<close>

theorem client_select_refines:
  assumes "(relay_step (pump_poll ser) (responses_poll de))\<^sup>*\<^sup>* (Polling True (h, src) (s, out, err)) (Finished t i)"
  shows "t = read_responses de s out err \<and>
    (\<exists>n. i = run_polls (pump_poll ser) n (h, src) \<and>
      (pipe_size (Some src) < n \<longrightarrow> fst i = pump_stdin ser (wh_writer h) src))"
proof -
  from relay_inv_run [OF assms] have "output_runs (responses_poll de) (s, out, err) t"
    "\<exists>n. i = run_polls (pump_poll ser) n (h, src)" by (simp_all add: relay_inv_def)
  with responses_run [OF this(1)] pump_run show ?thesis by auto
qed

theorem client_select_refines_witness:
  "\<exists>st t i. relay_step (pump_poll example_ser) (responses_poll (\<lambda>_. Inl ''no''))
       (Polling True (\<lparr>wh_writer = \<lparr>wr_out = [], wr_events = []\<rparr>, wh_shut = False\<rparr>, [Inr ''x''])
          ([], \<lparr>wr_out = [], wr_events = []\<rparr>, \<lparr>wr_out = [], wr_events = []\<rparr>)) st \<and> st = Finished t i \<and>
     t = read_responses (\<lambda>_. Inl ''no'') [] \<lparr>wr_out = [], wr_events = []\<rparr> \<lparr>wr_out = [], wr_events = []\<rparr> \<and>
     fst t = GATEWAY_ERROR_EXIT \<and> wr_out (snd (snd t)) \<noteq> []"
proof -
  let ?w = "\<lparr>wr_out = [], wr_events = []\<rparr> :: writer"
  let ?h = "\<lparr>wh_writer = ?w, wh_shut = False\<rparr>"
  let ?t = "(GATEWAY_ERROR_EXIT, ?w, write_then_flush ?w (protocol_failure_text (ProtocolIo early_eof)))"
  have "responses_poll (\<lambda>_. Inl ''no'') ([], ?w, ?w) = Ready ?t"
    by (simp add: responses_poll_def read_frame_def numeral_eq_Suc)
  then have st: "relay_step (pump_poll example_ser) (responses_poll (\<lambda>_. Inl ''no'')) (Polling True (?h, [Inr ''x'']) ([], ?w, ?w))
      (Finished ?t (?h, [Inr ''x'']))" by (rule relay_step.output_ready)
  from client_select_refines [OF r_into_rtranclp [of "relay_step (pump_poll example_ser) (responses_poll (\<lambda>_. Inl ''no''))", OF this]]
  have t: "?t = read_responses (\<lambda>_. Inl ''no'') [] ?w ?w" by (rule conjunct1)
  have "wr_out (snd (snd ?t)) \<noteq> []"
    by (simp add: write_then_flush_def write_all_def protocol_failure_text_def early_eof_def)
  then show ?thesis using st t by (intro exI conjI) (assumption, rule refl, assumption, rule fst_conv, assumption)
qed

text \<open>
  C27. The client never invents success: if it ends with any code other than its error code 1, the
  broker sent exactly that code in an \<open>Exit\<close> frame, after frames that only carry output, and the
  client's two streams got exactly the bytes of those frames.
\<close>

theorem client_exit_code_honest:
  assumes "read_responses de s out err = (code, out', err')" and "code \<noteq> GATEWAY_ERROR_EXIT"
  shows "\<exists>fs s'. read_frames de (Suc (length fs)) s = (Inr (fs @ [Exit code]), s') \<and> list_all relayed_frame fs \<and>
    wr_out out' = wr_out out @ out_bytes fs \<and> wr_out err' = wr_out err @ err_bytes fs"
  using assms by (rule read_responses_code)


definition example_server_ser :: "server_frame \<Rightarrow> string + string" where
  "example_server_ser f =
     (case f of
        StdoutChunk d \<Rightarrow> Inr (CHR ''o'' # d)
      | Exit c \<Rightarrow> if c = 137 then Inr ''x'' else Inl ''code''
      | _ \<Rightarrow> Inl ''frame'')"

definition example_server_de :: server_decoder where
  "example_server_de b = (case b of CHR ''o'' # d \<Rightarrow> Inr (StdoutChunk d) | _ \<Rightarrow> Inr (Exit 137))"

abbreviation quiet :: writer where
  "quiet \<equiv> \<lparr>wr_out = [], wr_events = []\<rparr>"

lemma example_server_codec: "example_server_ser v = Inr body \<Longrightarrow> example_server_de body = Inr v"
  by (auto simp: example_server_ser_def example_server_de_def split: server_frame.splits if_splits)

definition example_reply :: sock where
  "example_reply =
     [Chunk [CHR 0x00, CHR 0x00, CHR 0x00], Chunk [CHR 0x02, CHR ''o'', CHR ''k'', CHR 0x00],
      Chunk [CHR 0x00, CHR 0x00, CHR 0x01, CHR ''x'']]"

lemma example_reply_written:
  "write_frames example_server_ser quiet ([StdoutChunk ''k''] @ [Exit 137]) =
     (Inr (), \<lparr>wr_out = sock_content example_reply, wr_events = []\<rparr>)"
  by (simp add: write_frame_def write_all_def to_be_bytes_def unat_MAX_FRAME_LEN example_server_ser_def example_reply_def)

lemma example_reply_read:
  "read_responses example_server_de example_reply quiet quiet = (137, \<lparr>wr_out = ''k'', wr_events = []\<rparr>, quiet)"
  using read_responses_frames [where de = example_server_de and s = example_reply and rest = "[]" and out = quiet and
      err = quiet, OF example_reply_written _ example_server_codec]
  by (simp add: relayed_frame_def example_reply_def)

theorem client_relay_terminates_witness:
  "\<exists>n i'. select_loop (pump_poll_from endless example_ser) (responses_poll example_server_de)
       (\<lambda>m. if even m then StdinReady else ResponsesReady) n
       (Polling True (\<lparr>wh_writer = quiet, wh_shut = False\<rparr>, ()) (example_reply, quiet, quiet)) =
     Finished (137, \<lparr>wr_out = ''k'', wr_events = []\<rparr>, quiet) i'"
proof -
  let ?turns = "\<lambda>m. if even m then StdinReady else ResponsesReady"
  have "turns_ready ?turns (2 * k) = k" for k by (induction k) simp_all
  then have "sock_size example_reply < turns_ready ?turns (2 * Suc (sock_size example_reply))" by (simp only: lessI)
  then obtain N where "sock_size example_reply < turns_ready ?turns N" by blast
  with client_relay_terminates [OF refl, where stdin = "pump_poll_from endless example_ser" and de = example_server_de and
      turns = ?turns and n = N and i = "(\<lparr>wh_writer = quiet, wh_shut = False\<rparr>, ())" and
      s = example_reply and out = quiet and err = quiet]
  show ?thesis unfolding example_reply_read by (simp only: if_True) blast
qed

theorem client_exit_code_honest_witness:
  "\<exists>fs s'. read_frames example_server_de (Suc (length fs)) example_reply = (Inr (fs @ [Exit 137]), s') \<and>
     out_bytes fs = ''k''"
  using client_exit_code_honest [OF example_reply_read] by (auto simp: GATEWAY_ERROR_EXIT_def)

text \<open>
  What the caller sees is what the child did: when the broker ran a child to its end, a client that
  receives the broker's bytes, cut anywhere, writes the child's standard output to its own standard
  output, the child's standard error to its own standard error, byte for byte, and ends with the
  child's exit code, or 128 plus the signal that killed it.
\<close>

theorem output_end_to_end:
  assumes "stream_child ser dec getenv k d children spec frames c = (Inr u, Some q, s', c')"
    and "\<And>cmd p. pipe_ok (Some (ch_stdout (children cmd p))) \<and> pipe_ok (Some (ch_stderr (children cmd p)))"
    and "\<And>v body. ser v = Inr body \<Longrightarrow> de body = Inr v"
    and "sock_ok s" and "wr_out (cn_writer c) @ sock_content s = wr_out (cn_writer c')"
    and "wr_events out = []" "wr_events err = []"
  shows "\<exists>status. ch_wait (children (ran_command q) (ran_proc q)) = Inr status \<and>
    read_responses de s out err =
      (exit_code_from_status status,
       out\<lparr>wr_out := wr_out out @ pipe_bytes (Some (ch_stdout (children (ran_command q) (ran_proc q))))\<rparr>,
       err\<lparr>wr_out := wr_out err @ pipe_bytes (Some (ch_stderr (children (ran_command q) (ran_proc q))))\<rparr>)"
proof -
  from stream_child_sent [OF assms(1,2)] obtain chunks status where
    st: "ch_wait (children (ran_command q) (ran_proc q)) = Inr status" "list_all chunk_ok chunks"
      "cn_sent c' = cn_sent c @ chunks @ [Exit (exit_code_from_status status)]"
      "out_bytes chunks = pipe_bytes (Some (ch_stdout (children (ran_command q) (ran_proc q))))"
      "err_bytes chunks = pipe_bytes (Some (ch_stderr (children (ran_command q) (ran_proc q))))" by auto
  from stream_child_wrote [OF assms(1)] st(3)
  have w: "write_frames ser (cn_writer c) (chunks @ [Exit (exit_code_from_status status)]) = (Inr (), cn_writer c')"
    by (simp add: wrote_def)
  have "list_all relayed_frame chunks"
    using st(2) by (auto simp: list_all_iff chunk_ok_def relayed_frame_def split: server_frame.splits)
  from read_responses_frames [where rest = "[]" and de = de and s = s, OF w this assms(3,4) _ assms(6,7)] assms(5) st
  show ?thesis by simp
qed

theorem output_end_to_end_witness:
  "\<exists>q s' c'. stream_child example_server_ser example_de (\<lambda>_. None) example_kernel example_daemon example_child
       example_spec [] example_conn = (Inr (), Some q, s', c') \<and>
     read_responses example_server_de [Chunk (wr_out (cn_writer c'))] quiet quiet =
       (137, \<lparr>wr_out = ''ok'', wr_events = []\<rparr>, quiet)"
proof -
  let ?run = "stream_child example_server_ser example_de (\<lambda>_. None) example_kernel example_daemon
      example_child example_spec [] example_conn"
  obtain r rn s' c' where run: "?run = (r, rn, s', c')" by (metis prod_cases4)
  have "isl (fst ?run) = False \<and> fst (snd ?run) \<noteq> None"
    by (simp add: stream_child_def spawn_def example_kernel_def apply_privilege_drop_def example_spec_def
        example_daemon_def Let_def example_child_def stream_pipes_cases pump_def read_pipe_def READ_BUF_SIZE_def
        send_frame_def write_frame_def unat_MAX_FRAME_LEN example_conn_def write_all_def example_server_ser_def
        exit_code_from_status_def status_code_def status_signal_def SIGNAL_EXIT_OFFSET_def)
  with run obtain q u where rn: "rn = Some q" "r = Inr u" by (cases r) auto
  have ok: "pipe_ok (Some (ch_stdout (example_child cmd p))) \<and> pipe_ok (Some (ch_stderr (example_child cmd p)))" for cmd p
    by (simp add: example_child_def pipe_ok_def)
  have code: "exit_code_from_status (Signaled 9) = 137"
    by (simp add: exit_code_from_status_def status_code_def status_signal_def SIGNAL_EXIT_OFFSET_def)
  from output_end_to_end [where s = "[Chunk (wr_out (cn_writer c'))]" and out = quiet and err = quiet,
      OF run [unfolded rn] ok example_server_codec]
  have "read_responses example_server_de [Chunk (wr_out (cn_writer c'))] quiet quiet =
       (137, \<lparr>wr_out = ''ok'', wr_events = []\<rparr>, quiet)"
    by (simp add: example_conn_def example_child_def code)
  with run rn show ?thesis by auto
qed

text \<open>
  C24. What the caller types reaches the child: the bytes the client puts on the wire for its standard
  input, read by the broker in any fragmentation, are written to the child's standard input
  exactly, up to the end of the caller's input or the first failing read of it, and the client's
  write side is shut down afterwards.
\<close>

theorem stdin_end_to_end:
  assumes "encodes_input ser" and "\<And>v body. ser v = Inr body \<Longrightarrow> de body = Inr v"
    and "pipe_ok (Some src)" and "wr_events w = []" and "wr_events child = []"
    and "sock_ok s" and "wr_out w @ sock_content s = wr_out (wh_writer (pump_stdin ser w src)) @ rest"
  shows "\<exists>s'. relay_stdin de s (Some child) = (s', Some (child\<lparr>wr_out := wr_out child @ pipe_bytes (Some src)\<rparr>)) \<and>
    sock_content s' = rest \<and> wh_shut (pump_stdin ser w src)"
proof -
  from pump_stdin_frames [OF assms(1,3,4)] obtain chunks w' where
    w': "write_frames ser w (map StdinChunk chunks @ [StdinEof]) = (Inr (), w')"
      "concat chunks = pipe_bytes (Some src)" "pump_stdin ser w src = \<lparr>wh_writer = w', wh_shut = True\<rparr>" by blast
  from relay_loop_frames [where rest = rest and de = de and s = s and w = child, OF w'(1) assms(2,6) _ assms(5)]
    assms(7) w'(2,3) obtain s' where
    "relay_loop de s child = (s', child\<lparr>wr_out := wr_out child @ pipe_bytes (Some src)\<rparr>)" "sock_content s' = rest"
    by auto
  with w'(3) show ?thesis by (simp add: relay_stdin_def)
qed

lemma example_ser_encodes: "encodes_input example_ser"
  by (auto simp: encodes_input_def example_ser_def STDIN_CHUNK_SIZE_def READ_BUF_SIZE_def unat_MAX_FRAME_LEN
      split: client_frame.splits)

theorem stdin_end_to_end_witness:
  "\<exists>s'. relay_stdin example_de [Chunk (wr_out (wh_writer (pump_stdin example_ser quiet [Inr ''hello'', Inr '' world''])))]
     (Some quiet) = (s', Some \<lparr>wr_out = ''hello world'', wr_events = []\<rparr>)"
proof -
  have codec: "example_de body = Inr v" if "example_ser v = Inr body" for v body
    using that by (auto simp: example_ser_def example_de_def split: client_frame.splits)
  have "pipe_ok (Some [Inr ''hello'', Inr '' world''])" by (simp add: pipe_ok_def)
  from stdin_end_to_end [where de = example_de and w = quiet and child = quiet and rest = "[]" and
      s = "[Chunk (wr_out (wh_writer (pump_stdin example_ser quiet [Inr ''hello'', Inr '' world''])))]",
      OF example_ser_encodes codec this]
  show ?thesis by auto
qed

end
