(* ===== verification/Doctor.thy ===== *)
theory Doctor
  imports Gateway Policy Health_Check
begin

unbundle bit_operations_syntax

section \<open>The doctor command\<close>

text \<open>
  The model of \<open>src/src/cmd/doctor.rs\<close>: the client that asks the broker for its health check, audits
  owner and mode of the files of an installation and folds the verdicts into an exit code. Every
  operation returns its verdict and the text it printed to standard output; standard output is
  taken to accept it. The file system, the connection, the lookup of a user name, the YAML reader
  and the glob compiler are parameters.
\<close>

subsection \<open>Verdicts\<close>

datatype permission_verdict = VerdictOk | Warning string | Error string

datatype path_kind = File | Directory | Socket

definition is_error :: "permission_verdict \<Rightarrow> bool" where
  "is_error v = (case v of Error _ \<Rightarrow> True | _ \<Rightarrow> False)"

definition verdict_from_success :: "bool \<Rightarrow> string \<Rightarrow> permission_verdict" where
  "verdict_from_success success failure_detail = (if success then VerdictOk else Error failure_detail)"

definition EXIT_SUCCESS :: byte where
  "EXIT_SUCCESS = 0"

definition EXIT_FAILURE :: byte where
  "EXIT_FAILURE = 1"

definition aggregate_exit :: "permission_verdict list \<Rightarrow> byte" where
  "aggregate_exit verdicts = (if list_ex is_error verdicts then EXIT_FAILURE else EXIT_SUCCESS)"

subsection \<open>Constants\<close>

definition GROUP_OTHER_WRITE :: u32 where
  "GROUP_OTHER_WRITE = 0x12"

definition GROUP_OTHER_READ :: u32 where
  "GROUP_OTHER_READ = 0x24"

definition GROUP_OTHER_WRITE_EXEC :: u32 where
  "GROUP_OTHER_WRITE_EXEC = 0x1B"

definition OTHER_CONNECT :: u32 where
  "OTHER_CONNECT = 0x06"

definition PERMISSION_BITS :: u32 where
  "PERMISSION_BITS = 0x1FF"

definition POLICY_EXPECTED_MODE :: u32 where
  "POLICY_EXPECTED_MODE = 0x180"

definition CONFIG_DIR_EXPECTED_MODE :: u32 where
  "CONFIG_DIR_EXPECTED_MODE = 0x1ED"

definition SOCKET_EXPECTED_MODE :: u32 where
  "SOCKET_EXPECTED_MODE = 0x1B0"

definition CREDENTIAL_DIR_EXPECTED_MODE :: u32 where
  "CREDENTIAL_DIR_EXPECTED_MODE = 0x1C0"

definition CREDENTIAL_FILE_EXPECTED_MODE :: u32 where
  "CREDENTIAL_FILE_EXPECTED_MODE = 0x180"

definition ROOT_UID :: u32 where
  "ROOT_UID = 0"

definition POLICY_OWNER_USER :: string where
  "POLICY_OWNER_USER = ''ghbrk''"

definition SOCKET_OWNER_USER :: string where
  "SOCKET_OWNER_USER = ''ghbrk''"

definition CREDENTIAL_OWNER_USER :: string where
  "CREDENTIAL_OWNER_USER = ''ghbrk''"

definition DEFAULT_POLICY_PATH :: path where
  "DEFAULT_POLICY_PATH = ''/etc/ghbrk/policy.yaml''"

definition DEFAULT_CONFIG_DIR :: path where
  "DEFAULT_CONFIG_DIR = ''/etc/ghbrk''"

definition POLICY_ENV_VAR :: string where
  "POLICY_ENV_VAR = ''GHBRK_POLICY''"

definition STATUS_PASS :: string where
  "STATUS_PASS = ''OK''"

definition STATUS_NOT_RUN :: string where
  "STATUS_NOT_RUN = ''SKIPPED''"

subsection \<open>The environment of the command\<close>

text \<open>An opened file is what reading it to its end would give.\<close>

type_synonym opened = "io_error + string"

record doctor_world =
  dw_runtime :: "io_error option"
  dw_getenv :: "string \<Rightarrow> string option"
  dw_cwd :: "io_error + path"
  dw_fs :: fs
  dw_open :: "path \<Rightarrow> io_error + opened"
  dw_read_yaml :: "opened \<Rightarrow> string + policy"
  dw_glob :: glob
  dw_connect :: "path \<Rightarrow> io_error + link"
  dw_ser_request :: "request \<Rightarrow> string + string"
  dw_de :: server_decoder
  dw_user_from_name :: "string \<Rightarrow> string + u32 option"

definition policy_path_from_env :: "doctor_world \<Rightarrow> path" where
  "policy_path_from_env dw = unwrap_or DEFAULT_POLICY_PATH (dw_getenv dw POLICY_ENV_VAR)"

definition config_dir_from_policy_path :: "path \<Rightarrow> path" where
  "config_dir_from_policy_path policy_path =
     (case path_parent policy_path of
        Some parent \<Rightarrow> if parent \<noteq> [] then parent else DEFAULT_CONFIG_DIR
      | None \<Rightarrow> DEFAULT_CONFIG_DIR)"

definition caller_tmp_identity :: "doctor_world \<Rightarrow> io_error + tmp_identity" where
  "caller_tmp_identity dw =
     (case fs_metadata (dw_fs dw) ''/tmp'' of
        Inl e \<Rightarrow> Inl e
      | Inr meta \<Rightarrow> Inr \<lparr>tmp_dev = md_dev meta, tmp_ino = md_ino meta\<rparr>)"

definition println :: "string \<Rightarrow> string" where
  "println s = s @ newline"

subsection \<open>Permissions\<close>

definition classify_permissions :: "path_kind \<Rightarrow> u32 \<Rightarrow> u32 \<Rightarrow> u32 \<Rightarrow> u32 \<Rightarrow> permission_verdict" where
  "classify_permissions kind expected_owner_uid observed_owner_uid expected_mode observed_mode =
     (if observed_owner_uid \<noteq> expected_owner_uid
      then Error (''owner uid '' @ show_nat (unat observed_owner_uid) @ '' (expected '' @
             show_nat (unat expected_owner_uid) @ '')'')
      else
        let perms = observed_mode AND PERMISSION_BITS;
            expected = expected_mode AND PERMISSION_BITS;
            excess = perms AND NOT expected in
          case kind of
            File \<Rightarrow>
              if excess AND GROUP_OTHER_WRITE \<noteq> 0
              then Error (''mode '' @ show_oct perms @ '' is group/other-writable (expected '' @ show_oct expected @ '')'')
              else if excess AND GROUP_OTHER_READ \<noteq> 0
              then Warning (''mode '' @ show_oct perms @ '' is group/other-readable (expected '' @ show_oct expected @ '')'')
              else VerdictOk
          | Directory \<Rightarrow>
              if excess AND GROUP_OTHER_WRITE_EXEC \<noteq> 0
              then Error (''mode '' @ show_oct perms @ '' is group/other-writable or -traversable (expected '' @
                     show_oct expected @ '')'')
              else if excess AND GROUP_OTHER_READ \<noteq> 0
              then Warning (''mode '' @ show_oct perms @ '' is group/other-readable (expected '' @ show_oct expected @ '')'')
              else VerdictOk
          | Socket \<Rightarrow>
              if excess AND OTHER_CONNECT \<noteq> 0
              then Error (''mode '' @ show_oct perms @ '' permits non-group connection (expected '' @
                     show_oct expected @ '')'')
              else VerdictOk)"

definition classify_policy_permissions :: "u32 \<Rightarrow> u32 \<Rightarrow> u32 \<Rightarrow> permission_verdict" where
  "classify_policy_permissions observed_uid expected_uid mode =
     classify_permissions File expected_uid observed_uid POLICY_EXPECTED_MODE mode"

definition print_permission_verdict :: "string \<Rightarrow> permission_verdict \<Rightarrow> string" where
  "print_permission_verdict label v =
     println (case v of
        VerdictOk \<Rightarrow> label @ '': OK''
      | Warning detail \<Rightarrow> label @ '': WARNING '' @ detail
      | Error detail \<Rightarrow> label @ '': ERROR '' @ detail)"

definition resolve_owner_uid :: "doctor_world \<Rightarrow> string \<Rightarrow> permission_verdict + u32" where
  "resolve_owner_uid dw u =
     (case dw_user_from_name dw u of
        Inr (Some uid) \<Rightarrow> Inr uid
      | Inr None \<Rightarrow> Inl (Warning (''user '' @ u @ '' not found; cannot verify owner''))
      | Inl err \<Rightarrow> Inl (Warning (''looking up user '' @ u @ '' failed: '' @ err)))"

definition printed :: "string \<Rightarrow> permission_verdict \<Rightarrow> permission_verdict \<times> string" where
  "printed label v = (v, print_permission_verdict label v)"

definition cannot_stat :: "path \<Rightarrow> io_error \<Rightarrow> permission_verdict" where
  "cannot_stat p err = Error (''cannot stat '' @ p @ '': '' @ io_text err)"

definition check_policy_permissions :: "doctor_world \<Rightarrow> path \<Rightarrow> permission_verdict \<times> string" where
  "check_policy_permissions dw p =
     printed ''Policy permissions''
       (case dw_user_from_name dw POLICY_OWNER_USER of
          Inr (Some expected_uid) \<Rightarrow>
            (case fs_metadata (dw_fs dw) p of
               Inr meta \<Rightarrow> classify_policy_permissions (md_uid meta) expected_uid (md_mode meta)
             | Inl err \<Rightarrow> cannot_stat p err)
        | Inr None \<Rightarrow> Warning (''user '' @ POLICY_OWNER_USER @ '' not found; cannot verify owner'')
        | Inl err \<Rightarrow> Warning (''looking up user '' @ POLICY_OWNER_USER @ '' failed: '' @ err))"

definition classify_path_audit :: "path_audit \<Rightarrow> path_kind \<Rightarrow> u32 \<Rightarrow> u32 \<Rightarrow> permission_verdict" where
  "classify_path_audit entry kind expected_uid expected_mode =
     (if \<not> pa_present entry then Error ''not found''
      else classify_permissions kind expected_uid (pa_observed_owner_uid entry) expected_mode (pa_observed_mode entry))"

text \<open>One entry of the audit: its verdict and its status line.\<close>

definition audit_entry_verdict :: "path_kind \<Rightarrow> u32 \<Rightarrow> u32 \<Rightarrow> path_audit \<Rightarrow> permission_verdict \<times> string" where
  "audit_entry_verdict kind expected_uid expected_mode entry =
     printed (pa_label entry @ '' permissions'') (classify_path_audit entry kind expected_uid expected_mode)"

definition classify_credential_audit :: "doctor_world \<Rightarrow> credential_audit \<Rightarrow> permission_verdict list \<times> string" where
  "classify_credential_audit dw audit =
     (case resolve_owner_uid dw CREDENTIAL_OWNER_USER of
        Inl v \<Rightarrow> ([v], print_permission_verdict ''Credential dir permissions'' v)
      | Inr expected_uid \<Rightarrow>
          let results =
            (case audit_entries audit of
               [] \<Rightarrow> []
             | dir_entry # files \<Rightarrow>
                 audit_entry_verdict Directory expected_uid CREDENTIAL_DIR_EXPECTED_MODE dir_entry #
                 map (audit_entry_verdict File expected_uid CREDENTIAL_FILE_EXPECTED_MODE) files) in
            (map fst results, concat (map snd results)))"

definition check_config_dir_permissions :: "doctor_world \<Rightarrow> path \<Rightarrow> permission_verdict \<times> string" where
  "check_config_dir_permissions dw p =
     printed ''Config dir permissions''
       (case fs_metadata (dw_fs dw) p of
          Inr meta \<Rightarrow> classify_permissions Directory ROOT_UID (md_uid meta) CONFIG_DIR_EXPECTED_MODE (md_mode meta)
        | Inl err \<Rightarrow> cannot_stat p err)"

definition check_socket_permissions :: "doctor_world \<Rightarrow> path \<Rightarrow> permission_verdict \<times> string" where
  "check_socket_permissions dw p =
     (case resolve_owner_uid dw SOCKET_OWNER_USER of
        Inl v \<Rightarrow> printed ''Socket permissions'' v
      | Inr expected_uid \<Rightarrow>
          printed ''Socket permissions''
            (case fs_metadata (dw_fs dw) p of
               Inr meta \<Rightarrow> classify_permissions Socket expected_uid (md_uid meta) SOCKET_EXPECTED_MODE (md_mode meta)
             | Inl err \<Rightarrow> cannot_stat p err))"

subsection \<open>The policy file\<close>

definition from_reader :: "(opened \<Rightarrow> string + policy) \<Rightarrow> glob \<Rightarrow> opened \<Rightarrow> policy_error + policy" where
  "from_reader read_yaml glob reader =
     (case read_yaml reader of
        Inl e \<Rightarrow> Inl (PolicyYaml e)
      | Inr p \<Rightarrow> (case validate glob p of Inl e \<Rightarrow> Inl e | Inr _ \<Rightarrow> Inr p))"

definition policy_status :: "doctor_world \<Rightarrow> path \<Rightarrow> permission_verdict \<times> string" where
  "policy_status dw p =
     (case dw_open dw p of
        Inl err \<Rightarrow>
          if io_kind err = NotFound then (Error ''missing'', ''Policy: MISSING ('' @ p @ '')'')
          else if io_kind err = PermissionDenied then (VerdictOk, [])
          else (Error (io_text err), ''Policy: ERROR ('' @ p @ '': '' @ io_text err @ '')'')
      | Inr reader \<Rightarrow>
          (case from_reader (dw_read_yaml dw) (dw_glob dw) reader of
             Inr _ \<Rightarrow> (VerdictOk, ''Policy: OK'')
           | Inl err \<Rightarrow> (Error ''invalid'', ''Policy: INVALID ('' @ policy_error_text err @ '')'')))"

definition check_policy :: "doctor_world \<Rightarrow> path \<Rightarrow> permission_verdict \<times> string" where
  "check_policy dw p =
     (case policy_status dw p of (v, msg) \<Rightarrow> (v, if msg \<noteq> [] then println msg else []))"

subsection \<open>Reading the broker's report\<close>

definition status_line_passes :: "string \<Rightarrow> bool" where
  "status_line_passes line =
     (case split_once_str '': '' line of
        Some (_, verdict) \<Rightarrow> first_token verdict = STATUS_PASS \<or> first_token verdict = STATUS_NOT_RUN
      | None \<Rightarrow> False)"

definition credentials_passed :: "i32 \<Rightarrow> string \<Rightarrow> permission_verdict list \<Rightarrow> bool" where
  "credentials_passed exit_code credential_output path_verdicts =
     ((exit_code = 0 \<or> list_all status_line_passes (filter (\<lambda>line. trim line \<noteq> []) (lines credential_output))) \<and>
      \<not> list_ex is_error path_verdicts)"

definition shared_filesystem_verdict :: "string \<Rightarrow> permission_verdict" where
  "shared_filesystem_verdict line = (if status_line_passes line then VerdictOk else Error line)"

definition split_out_shared_filesystem_line :: "string \<Rightarrow> string option \<times> string" where
  "split_out_shared_filesystem_line out =
     fold (\<lambda>line (found, remaining).
         if starts_with line SHARED_FILESYSTEM_LABEL then (Some line, remaining)
         else (found, remaining @ line @ [CHR 0x0A]))
       (lines out) (None, [])"

record check_verdicts =
  cv_credentials_ok :: bool
  cv_shared_filesystem :: permission_verdict
  cv_credential_paths :: "permission_verdict list"

definition credentials_unresolved :: "permission_verdict list \<Rightarrow> check_verdicts" where
  "credentials_unresolved vs =
     \<lparr>cv_credentials_ok = False, cv_shared_filesystem = VerdictOk, cv_credential_paths = vs\<rparr>"

text \<open>
  The loop over the broker's frames: what was collected of its output, the verdicts on the audited
  paths and what was printed so far. It ends with the exit code, or early with what it printed.
\<close>

function check_loop ::
    "doctor_world \<Rightarrow> sock \<Rightarrow> string \<Rightarrow> permission_verdict list \<Rightarrow> string \<Rightarrow>
     (permission_verdict list \<times> string) + (i32 \<times> string \<times> permission_verdict list \<times> string)" where
  "check_loop dw s collected vs out =
     (case sock_read_frame (dw_de dw) s of
        (Inr (StdoutChunk d), s') \<Rightarrow> check_loop dw s' (collected @ d) vs out
      | (Inr (StderrChunk d), s') \<Rightarrow> check_loop dw s' (collected @ d) vs out
      | (Inr (CredentialAuditFrame audit), s') \<Rightarrow>
          check_loop dw s' collected (fst (classify_credential_audit dw audit))
            (out @ snd (classify_credential_audit dw audit))
      | (Inr (Exit code), s') \<Rightarrow> Inr (code, collected, vs, out)
      | (Inr (Denied reason), s') \<Rightarrow> Inl (vs, out @ println ''Credentials: FAILED'' @ println reason)
      | (Inl _, s') \<Rightarrow> Inl (vs, out @ println ''Credentials: FAILED''))"
  by pat_completeness auto
termination
  by (relation "measure (\<lambda>(dw, s, collected, vs, out). sock_size s)") (auto dest: sock_read_frame_size [OF sym])

declare check_loop.simps [simp del]

text \<open>What is made of a report that ran to completion.\<close>

definition report_verdicts ::
    "tmp_identity option \<Rightarrow> i32 \<Rightarrow> string \<Rightarrow> permission_verdict list \<Rightarrow> check_verdicts \<times> string" where
  "report_verdicts tmp code collected vs =
     (let (shared_fs_line, credential_output) = split_out_shared_filesystem_line (from_utf8_lossy collected);
          ok = credentials_passed code credential_output vs;
          text1 = (if ok then println ''Credentials: OK'' else println ''Credentials: FAILED'' @ credential_output);
          (shared, text2) =
            (case shared_fs_line of
               Some line \<Rightarrow> (shared_filesystem_verdict line, println line)
             | None \<Rightarrow>
                 if tmp \<noteq> None
                 then (Warning ''daemon reported no shared-filesystem check'',
                       println (SHARED_FILESYSTEM_LABEL @ '' UNSUPPORTED (daemon did not report this check)''))
                 else (VerdictOk, [])) in
        (\<lparr>cv_credentials_ok = ok, cv_shared_filesystem = shared, cv_credential_paths = vs\<rparr>, text1 @ text2))"

definition run_check_via_broker :: "doctor_world \<Rightarrow> link \<Rightarrow> tmp_identity option \<Rightarrow> check_verdicts \<times> string" where
  "run_check_via_broker dw lk tmp =
     (let req = \<lparr>tool = Check, args = [], cwd = unwrap_or [] (res_ok (dw_cwd dw)), remote_url = None,
                 head_branch_hint = None, client_frames = False, caller_tmp = tmp\<rparr> in
        case write_frame (dw_ser_request dw) \<lparr>wr_out = [], wr_events = lk_writes lk\<rparr> req of
          (Inl _, _) \<Rightarrow> (credentials_unresolved [], println ''Credentials: FAILED'')
        | (Inr _, _) \<Rightarrow>
            (case check_loop dw (lk_responses lk) [] [] [] of
               Inl (vs, text) \<Rightarrow> (credentials_unresolved vs, text)
             | Inr (code, collected, vs, text) \<Rightarrow>
                 (case report_verdicts tmp code collected vs of (cv, text') \<Rightarrow> (cv, text @ text'))))"

definition check_daemon_and_creds ::
    "doctor_world \<Rightarrow> path \<Rightarrow> tmp_identity option \<Rightarrow> bool \<times> check_verdicts \<times> string" where
  "check_daemon_and_creds dw socket_path tmp =
     (case dw_connect dw socket_path of
        Inl err \<Rightarrow>
          (False, credentials_unresolved [],
           println (''Daemon: UNREACHABLE ('' @ socket_path @ '': '' @ io_text err @ '')'') @
           println ''Credentials: SKIPPED (daemon unreachable)'')
      | Inr lk \<Rightarrow>
          (case run_check_via_broker dw lk tmp of
             (cv, text) \<Rightarrow> (True, cv, println ''Daemon: OK'' @ text)))"

subsection \<open>The command\<close>

text \<open>All verdicts in the order they are reached, and the text printed on the way.\<close>

definition doctor_verdicts :: "doctor_world \<Rightarrow> permission_verdict list \<times> string" where
  "doctor_verdicts dw =
     (let socket_path = socket_path_from_env (dw_getenv dw);
          policy_path = policy_path_from_env dw;
          config_dir = config_dir_from_policy_path policy_path;
          (tmp, text0) =
            (case caller_tmp_identity dw of
               Inr identity \<Rightarrow> (Some identity, [])
             | Inl err \<Rightarrow>
                 (None, println (SHARED_FILESYSTEM_LABEL @ '' SKIPPED (cannot stat own /tmp: '' @ io_text err @ '')'')));
          (daemon_ok, checks, text1) = check_daemon_and_creds dw socket_path tmp;
          (policy_verdict, text2) = check_policy dw policy_path;
          (v3, text3) = check_policy_permissions dw policy_path;
          (v4, text4) = check_config_dir_permissions dw config_dir;
          (v5, text5) = check_socket_permissions dw socket_path in
        ([verdict_from_success daemon_ok ''daemon unreachable'',
          verdict_from_success (cv_credentials_ok checks) ''credential check failed'',
          cv_shared_filesystem checks, policy_verdict, v3, v4, v5] @ cv_credential_paths checks,
         text0 @ text1 @ text2 @ text3 @ text4 @ text5))"

text \<open>The exit code, the text on standard output and the text on standard error.\<close>

definition doctor_run :: "doctor_world \<Rightarrow> byte \<times> string \<times> string" where
  "doctor_run dw =
     (case dw_runtime dw of
        Some err \<Rightarrow> (EXIT_FAILURE, [], println (''ghbrk: failed to start async runtime: '' @ io_text err))
      | None \<Rightarrow> (case doctor_verdicts dw of (vs, text) \<Rightarrow> (aggregate_exit vs, text, [])))"

subsection \<open>Tiers\<close>

text \<open>The scale of the verdicts, without their texts.\<close>

datatype tier = TierOk | TierWarning | TierError

fun tier_rank :: "tier \<Rightarrow> nat" where
  "tier_rank TierOk = 0"
| "tier_rank TierWarning = 1"
| "tier_rank TierError = 2"

instantiation tier :: linorder
begin

definition less_eq_tier :: "tier \<Rightarrow> tier \<Rightarrow> bool" where
  "less_eq_tier a b \<longleftrightarrow> tier_rank a \<le> tier_rank b"

definition less_tier :: "tier \<Rightarrow> tier \<Rightarrow> bool" where
  "less_tier a b \<longleftrightarrow> tier_rank a < tier_rank b"

instance
proof
  fix a b :: tier
  show "a \<le> b \<Longrightarrow> b \<le> a \<Longrightarrow> a = b"
    by (cases a; cases b) (simp_all add: less_eq_tier_def)
qed (auto simp: less_eq_tier_def less_tier_def)

end

fun tier_of :: "permission_verdict \<Rightarrow> tier" where
  "tier_of VerdictOk = TierOk"
| "tier_of (Warning d) = TierWarning"
| "tier_of (Error d) = TierError"

lemma is_error_tier: "is_error v \<longleftrightarrow> tier_of v = TierError"
  by (cases v) (simp_all add: is_error_def)

text \<open>The bits that expose a path of a kind to change, and to reading; bit 0 is others' execute bit.\<close>

definition change_bits :: "path_kind \<Rightarrow> nat set" where
  "change_bits k = (case k of File \<Rightarrow> {1, 4} | Directory \<Rightarrow> {0, 1, 3, 4} | Socket \<Rightarrow> {1, 2})"

definition read_bits :: "path_kind \<Rightarrow> nat set" where
  "read_bits k = (case k of File \<Rightarrow> {2, 5} | Directory \<Rightarrow> {2, 5} | Socket \<Rightarrow> {})"

definition grants_beyond :: "u32 \<Rightarrow> u32 \<Rightarrow> nat set \<Rightarrow> bool" where
  "grants_beyond expected observed B \<longleftrightarrow> (\<exists>i \<in> B. bit observed i \<and> \<not> bit expected i)"

lemma mask_bits:
  "bit GROUP_OTHER_WRITE i \<longleftrightarrow> i \<in> {1, 4}" "bit GROUP_OTHER_READ i \<longleftrightarrow> i \<in> {2, 5}"
  "bit GROUP_OTHER_WRITE_EXEC i \<longleftrightarrow> i \<in> {0, 1, 3, 4}" "bit OTHER_CONNECT i \<longleftrightarrow> i \<in> {1, 2}"
  "bit PERMISSION_BITS i \<longleftrightarrow> i < 9"
proof -
  have "GROUP_OTHER_WRITE = 2 ^ 1 OR 2 ^ 4" "GROUP_OTHER_READ = 2 ^ 2 OR 2 ^ 5"
    "GROUP_OTHER_WRITE_EXEC = 2 ^ 0 OR 2 ^ 1 OR 2 ^ 3 OR 2 ^ 4" "OTHER_CONNECT = 2 ^ 1 OR 2 ^ 2"
    "PERMISSION_BITS = mask 9"
    by (simp_all add: GROUP_OTHER_WRITE_def GROUP_OTHER_READ_def GROUP_OTHER_WRITE_EXEC_def OTHER_CONNECT_def
        PERMISSION_BITS_def mask_eq_exp_minus_1)
  note eqs = this
  show "bit GROUP_OTHER_WRITE i \<longleftrightarrow> i \<in> {1, 4}" "bit GROUP_OTHER_READ i \<longleftrightarrow> i \<in> {2, 5}"
    "bit GROUP_OTHER_WRITE_EXEC i \<longleftrightarrow> i \<in> {0, 1, 3, 4}" "bit OTHER_CONNECT i \<longleftrightarrow> i \<in> {1, 2}"
    "bit PERMISSION_BITS i \<longleftrightarrow> i < 9"
    unfolding eqs by (simp_all only: bit_or_iff bit_exp_iff bit_mask_iff) auto
qed

lemma excess_mask:
  fixes observed expected M :: u32
  assumes "\<And>i. bit M i \<longleftrightarrow> i \<in> B" and "B \<subseteq> {..<9}"
  shows "((observed AND PERMISSION_BITS) AND NOT (expected AND PERMISSION_BITS)) AND M \<noteq> 0 \<longleftrightarrow> grants_beyond expected observed B"
proof -
  have "i < 32" if "i \<in> B" for i using that assms(2) by auto
  then show ?thesis
    using assms by (auto simp: bit_eq_iff bit_and_iff bit_or_iff bit_not_iff mask_bits(5) grants_beyond_def possible_bit_def subset_iff)
qed

lemma tier_of_classify:
  "tier_of (classify_permissions k eu ou em om) =
     (if ou \<noteq> eu \<or> grants_beyond em om (change_bits k) then TierError
      else if grants_beyond em om (read_bits k) then TierWarning else TierOk)"
proof -
  have sub: "{1, 4} \<subseteq> {..<9 :: nat}" "{2, 5} \<subseteq> {..<9 :: nat}" "{0, 1, 3, 4} \<subseteq> {..<9 :: nat}" "{1, 2} \<subseteq> {..<9 :: nat}"
    by auto
  note masks = excess_mask [OF mask_bits(1) sub(1)] excess_mask [OF mask_bits(2) sub(2)]
    excess_mask [OF mask_bits(3) sub(3)] excess_mask [OF mask_bits(4) sub(4)]
  show ?thesis
    by (cases k) (simp_all only: classify_permissions_def Let_def change_bits_def read_bits_def masks path_kind.case,
      simp_all add: grants_beyond_def)
qed


subsection \<open>The verdicts of a run\<close>

lemma classify_no_error:
  "\<not> is_error (classify_permissions k eu ou em om) \<longleftrightarrow> ou = eu \<and> \<not> grants_beyond em om (change_bits k)"
  by (auto simp: is_error_tier tier_of_classify)

lemma verdict_from_success_error [simp]: "is_error (verdict_from_success ok d) \<longleftrightarrow> \<not> ok"
  by (simp add: verdict_from_success_def is_error_def)

lemma aggregate_exit_success: "aggregate_exit vs = EXIT_SUCCESS \<longleftrightarrow> \<not> list_ex is_error vs"
  by (simp add: aggregate_exit_def EXIT_SUCCESS_def EXIT_FAILURE_def)

lemma fst_printed [simp]: "fst (printed label v) = v"
  by (simp add: printed_def)

lemma cannot_stat_error [simp]: "is_error (cannot_stat p e)"
  by (simp add: cannot_stat_def is_error_def)

lemma doctor_verdicts_list:
  "fst (doctor_verdicts dw) =
     (let sock = socket_path_from_env (dw_getenv dw); pol = policy_path_from_env dw;
          checks = check_daemon_and_creds dw sock (res_ok (caller_tmp_identity dw)) in
        [verdict_from_success (fst checks) ''daemon unreachable'',
         verdict_from_success (cv_credentials_ok (fst (snd checks))) ''credential check failed'',
         cv_shared_filesystem (fst (snd checks)), fst (check_policy dw pol), fst (check_policy_permissions dw pol),
         fst (check_config_dir_permissions dw (config_dir_from_policy_path pol)), fst (check_socket_permissions dw sock)] @
        cv_credential_paths (fst (snd checks)))"
  by (cases "caller_tmp_identity dw") (simp_all add: doctor_verdicts_def Let_def case_prod_beta)

lemma check_policy_no_error:
  "\<not> is_error (fst (check_policy dw p)) \<longleftrightarrow>
     (\<exists>e. dw_open dw p = Inl e \<and> io_kind e = PermissionDenied) \<or>
     (\<exists>r q. dw_open dw p = Inr r \<and> dw_read_yaml dw r = Inr q \<and> wf_policy (dw_glob dw) q)"
  by (auto simp: check_policy_def policy_status_def from_reader_def is_error_def validate_ok [symmetric]
      split: sum.splits prod.splits if_splits)

lemma check_config_dir_no_error:
  "\<not> is_error (fst (check_config_dir_permissions dw p)) \<longleftrightarrow>
     (\<exists>m. fs_metadata (dw_fs dw) p = Inr m \<and> md_uid m = 0 \<and> \<not> bit (md_mode m) 1 \<and> \<not> bit (md_mode m) 4)"
  by (auto simp: check_config_dir_permissions_def classify_no_error ROOT_UID_def CONFIG_DIR_EXPECTED_MODE_def
      change_bits_def grants_beyond_def split: sum.splits)

lemma check_policy_permissions_no_error:
  "dw_user_from_name dw ''ghbrk'' = Inr (Some uid) \<Longrightarrow>
   \<not> is_error (fst (check_policy_permissions dw p)) \<longleftrightarrow>
     (\<exists>m. fs_metadata (dw_fs dw) p = Inr m \<and> md_uid m = uid \<and> \<not> bit (md_mode m) 1 \<and> \<not> bit (md_mode m) 4)"
  by (auto simp: check_policy_permissions_def POLICY_OWNER_USER_def classify_policy_permissions_def classify_no_error
      POLICY_EXPECTED_MODE_def change_bits_def grants_beyond_def split: sum.splits)

lemma check_socket_no_error:
  "dw_user_from_name dw ''ghbrk'' = Inr (Some uid) \<Longrightarrow>
   \<not> is_error (fst (check_socket_permissions dw p)) \<longleftrightarrow>
     (\<exists>m. fs_metadata (dw_fs dw) p = Inr m \<and> md_uid m = uid \<and> \<not> bit (md_mode m) 1 \<and> \<not> bit (md_mode m) 2)"
  by (auto simp: check_socket_permissions_def resolve_owner_uid_def SOCKET_OWNER_USER_def classify_no_error
      SOCKET_EXPECTED_MODE_def change_bits_def grants_beyond_def split: sum.splits)

text \<open>Credentials only pass on a report that the broker sent to its end.\<close>

lemma credentials_ok_report:
  assumes "cv_credentials_ok (fst (snd (check_daemon_and_creds dw sock tmp)))"
  shows "\<exists>lk code collected vs text. dw_connect dw sock = Inr lk \<and>
    check_loop dw (lk_responses lk) [] [] [] = Inr (code, collected, vs, text) \<and> \<not> list_ex is_error vs"
proof (cases "dw_connect dw sock")
  case (Inl e)
  with assms show ?thesis by (simp add: check_daemon_and_creds_def credentials_unresolved_def)
next
  case (Inr lk)
  with assms have run: "cv_credentials_ok (fst (run_check_via_broker dw lk tmp))"
    by (simp add: check_daemon_and_creds_def case_prod_beta)
  show ?thesis
  proof (cases "check_loop dw (lk_responses lk) [] [] []")
    case (Inl vt)
    with run show ?thesis
      by (cases vt) (auto simp: run_check_via_broker_def credentials_unresolved_def Let_def split: prod.splits sum.splits)
  next
    case (Inr rep)
    obtain code collected vs msg where rep: "rep = (code, collected, vs, msg)" by (metis prod_cases4)
    have "cv_credentials_ok (fst (report_verdicts tmp code collected vs))"
      using run Inr rep
      by (auto simp: run_check_via_broker_def credentials_unresolved_def Let_def split: prod.splits sum.splits)
    then have "\<not> list_ex is_error vs"
      by (simp add: report_verdicts_def credentials_passed_def case_prod_beta Let_def)
    with Inr rep \<open>dw_connect dw sock = Inr lk\<close> show ?thesis by blast
  qed
qed

subsection \<open>Properties\<close>

text \<open>
  C38. The audit grades exactly what is exposed: the verdict on a path is an error if and only if its
  owner is wrong or its mode grants, beyond the expected mode, a bit that lets others change it
  (write for a file; write or traverse for a directory; connect for a socket outside its group),
  a warning if only a read bit beyond the expected mode is granted, and fine otherwise. Granting
  more never improves the verdict. A wrong owner is an error for every kind of path: so says the
  comment on \<open>classify_permissions\<close>, and so does the background section of
  \<open>specs/cli/doctor-permissions/spec.md\<close>; the scenario "Socket owned by an unexpected user warns but
  does not fail" of the same file asks for a warning, which the code does not give.
\<close>

theorem permission_tiers_exact:
  "tier_of (classify_permissions k eu ou em om) =
     (if ou \<noteq> eu \<or> (\<exists>i \<in> change_bits k. bit om i \<and> \<not> bit em i) then TierError
      else if \<exists>i \<in> read_bits k. bit om i \<and> \<not> bit em i then TierWarning else TierOk) \<and>
   (ou \<noteq> eu \<longrightarrow> is_error (classify_permissions Socket eu ou em om)) \<and>
   ((\<forall>i. bit om i \<longrightarrow> bit om' i) \<longrightarrow>
      tier_of (classify_permissions k eu ou em om) \<le> tier_of (classify_permissions k eu ou em om'))"
proof -
  have "tier_of (classify_permissions k eu ou em om) \<le> tier_of (classify_permissions k eu ou em om')"
    if "\<forall>i. bit om i \<longrightarrow> bit om' i"
  proof -
    from that have "grants_beyond em om B \<Longrightarrow> grants_beyond em om' B" for B
      by (auto simp: grants_beyond_def)
    then show ?thesis by (auto simp: tier_of_classify less_eq_tier_def)
  qed
  moreover have "tier_of (classify_permissions k eu ou em om) =
     (if ou \<noteq> eu \<or> (\<exists>i \<in> change_bits k. bit om i \<and> \<not> bit em i) then TierError
      else if \<exists>i \<in> read_bits k. bit om i \<and> \<not> bit em i then TierWarning else TierOk)"
    unfolding tier_of_classify grants_beyond_def ..
  moreover have "ou \<noteq> eu \<longrightarrow> is_error (classify_permissions Socket eu ou em om)"
    by (simp add: is_error_tier tier_of_classify)
  ultimately show ?thesis by blast
qed

theorem permission_tiers_exact_witness:
  "tier_of (classify_permissions File 990 990 0x180 0x81A4) \<le> tier_of (classify_permissions File 990 990 0x180 0x81B6) \<and>
   tier_of (classify_permissions File 990 990 0x180 0x81A4) = TierWarning"
proof
  have "bit (0x81A4 :: u32) i \<longrightarrow> bit (0x81B6 :: u32) i" for i
  proof -
    have "(0x81B6 :: u32) = 0x81A4 OR 0x12" by simp
    then show ?thesis by (metis bit_or_iff)
  qed
  with permission_tiers_exact [of File 990 990 "0x180" "0x81A4" "0x81B6"]
  show "tier_of (classify_permissions File 990 990 0x180 0x81A4) \<le> tier_of (classify_permissions File 990 990 0x180 0x81B6)"
    by blast
  from permission_tiers_exact [of File 990 990 "0x180" "0x81A4" "0x81B6"]
  show "tier_of (classify_permissions File 990 990 0x180 0x81A4) = TierWarning"
    by (simp add: change_bits_def read_bits_def)
qed

text \<open>
  C39. What a clean bill of health means: if the doctor exits with success, the daemon accepted the
  connection and sent its report to the end, with no credential path in it graded as an error; the
  policy file is a valid policy or cannot be read by the caller; and the configuration directory is
  root's and nobody else can write to it. If the account \<open>ghbrk\<close> exists, moreover, the policy file is
  that account's and nobody else can write it, and the socket is that account's and closed to users
  outside its group. If the account is unknown, neither the owner nor the mode of these two is
  looked at, and the doctor can succeed whatever they are.
\<close>

theorem doctor_success_sound:
  assumes "doctor_run dw = (EXIT_SUCCESS, out, err)"
  shows "(\<exists>lk code collected vs text. dw_connect dw (socket_path_from_env (dw_getenv dw)) = Inr lk \<and>
      check_loop dw (lk_responses lk) [] [] [] = Inr (code, collected, vs, text) \<and> \<not> list_ex is_error vs) \<and>
    ((\<exists>e. dw_open dw (policy_path_from_env dw) = Inl e \<and> io_kind e = PermissionDenied) \<or>
     (\<exists>r q. dw_open dw (policy_path_from_env dw) = Inr r \<and> dw_read_yaml dw r = Inr q \<and> wf_policy (dw_glob dw) q)) \<and>
    (\<exists>m. fs_metadata (dw_fs dw) (config_dir_from_policy_path (policy_path_from_env dw)) = Inr m \<and> md_uid m = 0 \<and>
       \<not> bit (md_mode m) 1 \<and> \<not> bit (md_mode m) 4) \<and>
    (\<forall>uid. dw_user_from_name dw ''ghbrk'' = Inr (Some uid) \<longrightarrow>
      (\<exists>m. fs_metadata (dw_fs dw) (policy_path_from_env dw) = Inr m \<and> md_uid m = uid \<and>
         \<not> bit (md_mode m) 1 \<and> \<not> bit (md_mode m) 4) \<and>
      (\<exists>m. fs_metadata (dw_fs dw) (socket_path_from_env (dw_getenv dw)) = Inr m \<and> md_uid m = uid \<and>
         \<not> bit (md_mode m) 1 \<and> \<not> bit (md_mode m) 2))"
proof -
  from assms have "\<not> list_ex is_error (fst (doctor_verdicts dw))"
    by (auto simp: doctor_run_def aggregate_exit_success EXIT_SUCCESS_def EXIT_FAILURE_def
        aggregate_exit_success [unfolded EXIT_SUCCESS_def] split: option.splits prod.splits)
  then have v: "cv_credentials_ok (fst (snd (check_daemon_and_creds dw (socket_path_from_env (dw_getenv dw))
      (res_ok (caller_tmp_identity dw)))))"
    "\<not> is_error (fst (check_policy dw (policy_path_from_env dw)))"
    "\<not> is_error (fst (check_policy_permissions dw (policy_path_from_env dw)))"
    "\<not> is_error (fst (check_config_dir_permissions dw (config_dir_from_policy_path (policy_path_from_env dw))))"
    "\<not> is_error (fst (check_socket_permissions dw (socket_path_from_env (dw_getenv dw))))"
    unfolding doctor_verdicts_list Let_def by simp_all
  from credentials_ok_report [OF v(1)] v(2,4) check_policy_permissions_no_error [THEN iffD1, OF _ v(3)] check_socket_no_error [THEN iffD1, OF _ v(5)]
  show ?thesis unfolding check_policy_no_error check_config_dir_no_error by blast
qed


definition healthy_world :: doctor_world where
  "healthy_world =
     \<lparr>dw_runtime = None, dw_getenv = (\<lambda>_. None), dw_cwd = Inr ''/'',
      dw_fs = \<lparr>fs_symlink_metadata = (\<lambda>_. True),
        fs_metadata = (\<lambda>_. Inr \<lparr>md_kind = KFile, md_mode = 0x8180, md_uid = 0, md_dev = 1, md_ino = 2\<rparr>),
        fs_read_to_string = (\<lambda>_. Inr [])\<rparr>,
      dw_open = (\<lambda>_. Inl \<lparr>io_kind = PermissionDenied, io_text = ''denied''\<rparr>), dw_read_yaml = (\<lambda>_. Inl ''empty''),
      dw_glob = (\<lambda>_. Inl ''none''),
      dw_connect = (\<lambda>_. Inr \<lparr>lk_responses = [Chunk [CHR 0x00, CHR 0x00, CHR 0x00, CHR 0x00]], lk_writes = [], lk_turns = 0\<rparr>),
      dw_ser_request = (\<lambda>_. Inr ''{}''), dw_de = (\<lambda>_. Inr (Exit 0)),
      dw_user_from_name = (\<lambda>_. Inr (Some 0))\<rparr>"

lemma healthy_world_succeeds: "fst (doctor_run healthy_world) = EXIT_SUCCESS"
proof -
  have "sock_read_exact 4 [Chunk [CHR 0x00, CHR 0x00, CHR 0x00, CHR 0x00]] = (Inr [CHR 0x00, CHR 0x00, CHR 0x00, CHR 0x00], [])"
    by (simp add: numeral_eq_Suc)
  then have "sock_read_frame (dw_de healthy_world) [Chunk [CHR 0x00, CHR 0x00, CHR 0x00, CHR 0x00]] = (Inr (Exit 0), [])"
    by (simp add: read_frame_def fill_body.simps healthy_world_def Let_def MAX_FRAME_LEN_def)
  then have "check_loop healthy_world [Chunk [CHR 0x00, CHR 0x00, CHR 0x00, CHR 0x00]] [] [] [] = Inr (0, [], [], [])"
    by (subst check_loop.simps) simp
  then have "fst (check_daemon_and_creds healthy_world p t)"
    "cv_credentials_ok (fst (snd (check_daemon_and_creds healthy_world p t)))"
    "\<not> is_error (cv_shared_filesystem (fst (snd (check_daemon_and_creds healthy_world p t))))"
    "cv_credential_paths (fst (snd (check_daemon_and_creds healthy_world p t))) = []" for p t
    by (simp_all add: check_daemon_and_creds_def run_check_via_broker_def healthy_world_def write_frame_def write_all_def
        unat_MAX_FRAME_LEN report_verdicts_def from_utf8_lossy.simps [of "[]"] split_out_shared_filesystem_line_def
        credentials_passed_def is_error_def case_prod_beta)
  moreover have "\<not> is_error (fst (check_policy healthy_world p))" "\<not> is_error (fst (check_config_dir_permissions healthy_world p))"
    for p unfolding check_policy_no_error check_config_dir_no_error by (simp_all add: healthy_world_def)
  moreover have "dw_user_from_name healthy_world ''ghbrk'' = Inr (Some 0)" by (simp add: healthy_world_def)
  then have "\<not> is_error (fst (check_policy_permissions healthy_world p))" "\<not> is_error (fst (check_socket_permissions healthy_world p))"
    for p by (simp_all add: check_policy_permissions_no_error check_socket_no_error healthy_world_def)
  ultimately have "\<not> list_ex is_error (fst (doctor_verdicts healthy_world))"
    unfolding doctor_verdicts_list Let_def by simp
  moreover have "dw_runtime healthy_world = None" by (simp add: healthy_world_def)
  ultimately show ?thesis by (simp add: doctor_run_def aggregate_exit_success case_prod_beta)
qed

theorem doctor_success_sound_witness:
  "\<exists>m. fs_metadata (dw_fs healthy_world) DEFAULT_POLICY_PATH = Inr m \<and> md_uid m = 0 \<and> \<not> bit (md_mode m) 1"
proof -
  have "doctor_run healthy_world = (EXIT_SUCCESS, fst (snd (doctor_run healthy_world)), snd (snd (doctor_run healthy_world)))"
    using healthy_world_succeeds by (metis prod.collapse)
  from doctor_success_sound [OF this]
  have "\<forall>uid. dw_user_from_name healthy_world ''ghbrk'' = Inr (Some uid) \<longrightarrow>
      (\<exists>m. fs_metadata (dw_fs healthy_world) (policy_path_from_env healthy_world) = Inr m \<and> md_uid m = uid \<and>
         \<not> bit (md_mode m) 1 \<and> \<not> bit (md_mode m) 4)" by blast
  moreover have "policy_path_from_env healthy_world = DEFAULT_POLICY_PATH" "dw_user_from_name healthy_world ''ghbrk'' = Inr (Some 0)"
    by (simp_all add: policy_path_from_env_def healthy_world_def)
  ultimately show ?thesis by auto
qed

end
