(* ===== verification/Daemon.thy ===== *)
theory Daemon
  imports Broker Gateway Doctor
begin

unbundle bit_operations_syntax

section \<open>Starting and stopping the daemon\<close>

text \<open>
  The model of \<open>src/src/cmd/daemon.rs\<close> and of the parts of \<open>src/src/broker.rs\<close> around the accept loop:
  the configuration from the environment, loading the policy and opening the audit log, binding
  the socket under a closed umask, widening it to its mode and group, and removing it at the end.
  The kernel's answers are parameters. Binding creates a socket node with all permissions except
  those of the umask, as the kernel does.
\<close>

subsection \<open>The listening socket\<close>

definition SOCKET_MODE :: u32 where
  "SOCKET_MODE = 0x1B0"

definition BIND_UMASK :: u32 where
  "BIND_UMASK = 0x3F"

datatype broker_error = Bind path io_error | Permissions io_error | Signal io_error

definition broker_error_text :: "broker_error \<Rightarrow> string" where
  "broker_error_text e =
     (case e of
        Bind p source \<Rightarrow> ''failed to bind unix socket '' @ p @ '': '' @ io_text source
      | Permissions source \<Rightarrow> ''failed to set socket permissions: '' @ io_text source
      | Signal source \<Rightarrow> ''failed to install signal handler: '' @ io_text source)"

record socket_node =
  sn_mode :: u32
  sn_uid :: u32
  sn_gid :: u32

text \<open>
  The process umask, the socket file if there is one, and every node the file ever was, in order. The
  kernel gives a new socket to the process's effective user and group, \<open>lh_uid\<close> and \<open>lh_gid\<close>.
\<close>

record listen_state =
  ls_umask :: u32
  ls_socket :: "socket_node option"
  ls_history :: "socket_node list"

record listen_host =
  lh_bind :: "io_error option"
  lh_uid :: u32
  lh_gid :: u32
  lh_chmod :: "io_error option"
  lh_group :: "string + u32 option"
  lh_chown :: "string option"
  lh_sigterm :: "io_error option"
  lh_sigint :: "io_error option"
  lh_unlink :: "io_error option"

definition set_node :: "socket_node \<Rightarrow> listen_state \<Rightarrow> listen_state" where
  "set_node n st = st\<lparr>ls_socket := Some n, ls_history := ls_history st @ [n]\<rparr>"

definition set_umask :: "u32 \<Rightarrow> listen_state \<Rightarrow> listen_state" where
  "set_umask m st = st\<lparr>ls_umask := m\<rparr>"

definition bind_listener :: "listen_host \<Rightarrow> path \<Rightarrow> listen_state \<Rightarrow> (broker_error + unit) \<times> listen_state" where
  "bind_listener h p st =
     (let old_mask = ls_umask st;
          st1 = set_umask BIND_UMASK st;
          (r, st2) =
            (case lh_bind h of
               Some e \<Rightarrow> (Inl (Bind p e), st1)
             | None \<Rightarrow>
                 (Inr (), set_node \<lparr>sn_mode = PERMISSION_BITS AND NOT (ls_umask st1), sn_uid = lh_uid h, sn_gid = lh_gid h\<rparr> st1)) in
        (r, set_umask old_mask st2))"

definition change_node :: "(socket_node \<Rightarrow> socket_node) \<Rightarrow> listen_state \<Rightarrow> listen_state" where
  "change_node f st = (case ls_socket st of None \<Rightarrow> st | Some n \<Rightarrow> set_node (f n) st)"

definition apply_socket_permissions :: "listen_host \<Rightarrow> listen_state \<Rightarrow> (broker_error + unit) \<times> listen_state" where
  "apply_socket_permissions h st =
     (case lh_chmod h of
        Some e \<Rightarrow> (Inl (Permissions e), st)
      | None \<Rightarrow> (Inr (), change_node (\<lambda>n. n\<lparr>sn_mode := SOCKET_MODE\<rparr>) st))"

definition chown_socket_to_client_group :: "listen_host \<Rightarrow> u32 \<Rightarrow> listen_state \<Rightarrow> listen_state" where
  "chown_socket_to_client_group h gid st =
     (case lh_chown h of Some _ \<Rightarrow> st | None \<Rightarrow> change_node (\<lambda>n. n\<lparr>sn_gid := gid\<rparr>) st)"

definition apply_socket_group :: "listen_host \<Rightarrow> listen_state \<Rightarrow> listen_state" where
  "apply_socket_group h st =
     (case lh_group h of
        Inr (Some gid) \<Rightarrow> chown_socket_to_client_group h gid st
      | Inr None \<Rightarrow> st
      | Inl _ \<Rightarrow> st)"

text \<open>What \<open>run_broker\<close> does before its accept loop.\<close>

definition start_listening :: "listen_host \<Rightarrow> path \<Rightarrow> listen_state \<Rightarrow> (broker_error + unit) \<times> listen_state" where
  "start_listening h p st =
     (case bind_listener h p st of
        (Inl e, st1) \<Rightarrow> (Inl e, st1)
      | (Inr _, st1) \<Rightarrow>
          (case apply_socket_permissions h st1 of
             (Inl e, st2) \<Rightarrow> (Inl e, st2)
           | (Inr _, st2) \<Rightarrow>
               let st3 = apply_socket_group h st2 in
                 case lh_sigterm h of
                   Some e \<Rightarrow> (Inl (Signal e), st3)
                 | None \<Rightarrow> (case lh_sigint h of Some e \<Rightarrow> (Inl (Signal e), st3) | None \<Rightarrow> (Inr (), st3))))"

text \<open>What it does after the loop, besides the flush of the audit log.\<close>

definition remove_socket :: "listen_host \<Rightarrow> listen_state \<Rightarrow> listen_state" where
  "remove_socket h st = (case lh_unlink h of Some _ \<Rightarrow> st | None \<Rightarrow> st\<lparr>ls_socket := None\<rparr>)"

subsection \<open>The process\<close>

definition env_path :: "(string \<Rightarrow> string option) \<Rightarrow> string \<Rightarrow> path \<Rightarrow> path" where
  "env_path getenv var fallback = (case getenv var of Some v \<Rightarrow> v | None \<Rightarrow> fallback)"

definition load_policy :: "outside \<Rightarrow> path \<Rightarrow> string + policy" where
  "load_policy x p =
     (case fs_read_to_string (x_fs x) p of
        Inl e \<Rightarrow> Inl (io_text e)
      | Inr text \<Rightarrow> map_err policy_error_text (from_yaml (x_yaml_parse x) (x_glob x) text))"

text \<open>
  The daemon up to \<open>run_broker\<close>: either an exit code with the text on standard error, or the
  configuration and the state the broker runs with.
\<close>

definition daemon_start ::
    "outside \<Rightarrow> (path \<Rightarrow> io_error + disk) \<Rightarrow> io_error option \<Rightarrow> (i32 \<times> string) + (broker_config \<times> broker)" where
  "daemon_start x open_append runtime =
     (let socket_path = env_path (x_getenv x) ''GHBRK_SOCKET'' DEFAULT_SOCKET_PATH;
          policy_path = env_path (x_getenv x) ''GHBRK_POLICY'' DEFAULT_POLICY_PATH;
          log_path = env_path (x_getenv x) ''GHBRK_AUDIT_LOG'' DEFAULT_AUDIT_PATH;
          root = x_getenv x ''GHBRK_CREDENTIALS_ROOT'' in
        case load_policy x policy_path of
          Inl err \<Rightarrow> Inl (2, println (''ghbrk: failed to load policy '' @ policy_path @ '': '' @ err))
        | Inr p \<Rightarrow>
            (case new_logger open_append log_path of
               Inl err \<Rightarrow> Inl (2, println (''ghbrk: failed to open audit log '' @ log_path @ '': '' @ io_text err))
             | Inr logger \<Rightarrow>
                 (case runtime of
                    Some err \<Rightarrow> Inl (2, println (''ghbrk: failed to start tokio runtime: '' @ io_text err))
                  | None \<Rightarrow>
                      Inr (\<lparr>cfg_socket_path = socket_path, cfg_policy_path = policy_path, cfg_credentials_root = root\<rparr>,
                           \<lparr>b_handle = p, b_policy_file = fs_read_to_string (x_fs x) policy_path, b_audit = logger,
                            b_events = []\<rparr>))))"

text \<open>The exit code, given how the broker ended.\<close>

definition run_inner ::
    "outside \<Rightarrow> (path \<Rightarrow> io_error + disk) \<Rightarrow> io_error option \<Rightarrow> listen_host \<Rightarrow> listen_state \<Rightarrow>
     i32 \<times> string \<times> listen_state" where
  "run_inner x open_append runtime h st =
     (case daemon_start x open_append runtime of
        Inl (code, text) \<Rightarrow> (code, text, st)
      | Inr (cfg, b) \<Rightarrow>
          (case start_listening h (cfg_socket_path cfg) st of
             (Inl err, st') \<Rightarrow> (1, println (''ghbrk daemon: '' @ broker_error_text err), st')
           | (Inr _, st') \<Rightarrow> (0, [], remove_socket h st')))"

subsection \<open>Lemmas\<close>

definition group_only :: "socket_node \<Rightarrow> bool" where
  "group_only n \<longleftrightarrow> sn_mode n AND 7 = 0"

text \<open>What every step of setting the socket up keeps.\<close>

definition closed_to_others :: "listen_state \<Rightarrow> listen_state \<Rightarrow> bool" where
  "closed_to_others st st' \<longleftrightarrow> ls_umask st' = ls_umask st \<and> (\<exists>new. ls_history st' = ls_history st @ new \<and> list_all group_only new)"

lemma closed_refl: "closed_to_others st st"
  by (simp add: closed_to_others_def)

lemma closed_trans: "closed_to_others a b \<Longrightarrow> closed_to_others b c \<Longrightarrow> closed_to_others a c"
  by (auto simp: closed_to_others_def)

lemma bind_listener_closed: "bind_listener h p st = (r, st') \<Longrightarrow>
   closed_to_others st st' \<and>
   (r = Inr u \<longrightarrow> ls_socket st' = Some \<lparr>sn_mode = 0x1C0, sn_uid = lh_uid h, sn_gid = lh_gid h\<rparr>)"
  by (cases "lh_bind h") (auto simp: bind_listener_def closed_to_others_def set_umask_def set_node_def group_only_def
      BIND_UMASK_def PERMISSION_BITS_def Let_def)

lemma change_node_closed: "(\<And>n. ls_socket st = Some n \<Longrightarrow> group_only (f n)) \<Longrightarrow> closed_to_others st (change_node f st)"
  by (auto simp: change_node_def set_node_def closed_to_others_def split: option.splits)

lemma ls_socket_change_node [simp]: "ls_socket (change_node f st) = map_option f (ls_socket st)"
  by (simp add: change_node_def set_node_def split: option.split)

lemma apply_socket_permissions_closed: "apply_socket_permissions h st = (r, st') \<Longrightarrow>
   closed_to_others st st' \<and> (r = Inr u \<longrightarrow> ls_socket st' = map_option (\<lambda>n. n\<lparr>sn_mode := SOCKET_MODE\<rparr>) (ls_socket st))"
  by (auto simp: apply_socket_permissions_def closed_refl group_only_def SOCKET_MODE_def
      intro!: change_node_closed split: option.splits)

definition client_gid :: "listen_host \<Rightarrow> u32 option" where
  "client_gid h = (if lh_chown h \<noteq> None then None else Option.bind (res_ok (lh_group h)) id)"

lemma apply_socket_group_closed:
  "ls_socket st = Some n \<Longrightarrow> group_only n \<Longrightarrow>
   closed_to_others st (apply_socket_group h st) \<and>
   ls_socket (apply_socket_group h st) = Some (case client_gid h of Some g \<Rightarrow> n\<lparr>sn_gid := g\<rparr> | None \<Rightarrow> n)"
  by (auto simp: apply_socket_group_def chown_socket_to_client_group_def client_gid_def closed_refl group_only_def
      intro!: change_node_closed split: option.splits sum.splits)

text \<open>
  What \<open>stat\<close> tells of the socket file: its permission bits below the type bits, and its owner.
\<close>

definition shows_socket :: "fs \<Rightarrow> path \<Rightarrow> socket_node option \<Rightarrow> bool" where
  "shows_socket f p node =
     (case (fs_metadata f p, node) of
        (Inr m, Some n) \<Rightarrow> md_uid m = sn_uid n \<and> md_mode m AND PERMISSION_BITS = sn_mode n AND PERMISSION_BITS
      | (Inl _, None) \<Rightarrow> True
      | _ \<Rightarrow> False)"

lemma shows_socket_audit:
  assumes "dw_user_from_name dw ''ghbrk'' = Inr (Some uid)"
    and "shows_socket (dw_fs dw) p (Some \<lparr>sn_mode = 0x1B0, sn_uid = owner, sn_gid = g\<rparr>)"
  shows "tier_of (fst (check_socket_permissions dw p)) = (if owner = uid then TierOk else TierError)"
proof -
  from assms(2) obtain m where m: "fs_metadata (dw_fs dw) p = Inr m" "md_uid m = owner"
    "md_mode m AND PERMISSION_BITS = 0x1B0 AND PERMISSION_BITS" by (auto simp: shows_socket_def split: sum.splits)
  have "classify_permissions Socket uid owner SOCKET_EXPECTED_MODE (md_mode m) =
      classify_permissions Socket uid owner SOCKET_EXPECTED_MODE 0x1B0"
    by (simp add: classify_permissions_def m(3) Let_def)
  also have "tier_of \<dots> = (if owner = uid then TierOk else TierError)"
    by (simp add: classify_permissions_def SOCKET_EXPECTED_MODE_def PERMISSION_BITS_def OTHER_CONNECT_def Let_def)
  finally show ?thesis
    using assms(1) m(1,2) by (simp add: check_socket_permissions_def resolve_owner_uid_def SOCKET_OWNER_USER_def)
qed

subsection \<open>Properties\<close>

text \<open>
  C33. The socket is never open to strangers: while the daemon sets its socket up, whatever fails on
  the way, no mode the file ever has gives anything to users outside its owner and group, and the
  umask is what it was. When the set-up succeeds the file has mode 0660, the daemon's user and the
  client group, where that group could be found and given. A doctor that finds the file so passes
  it if the account \<open>ghbrk\<close> is the daemon's user, and calls it an error if it is another one: a daemon
  started by hand under another user fails the doctor's audit.
\<close>

theorem socket_closed_to_others:
  assumes "start_listening h p st = (r, st')"
  shows "ls_umask st' = ls_umask st \<and>
    (\<exists>new. ls_history st' = ls_history st @ new \<and> list_all (\<lambda>n. sn_mode n AND 7 = 0) new) \<and>
    (r = Inr () \<longrightarrow>
      ls_socket st' = Some \<lparr>sn_mode = 0x1B0, sn_uid = lh_uid h, sn_gid = unwrap_or (lh_gid h) (client_gid h)\<rparr> \<and>
      (dw_user_from_name dw ''ghbrk'' = Inr (Some uid) \<longrightarrow> shows_socket (dw_fs dw) p (ls_socket st') \<longrightarrow>
         tier_of (fst (check_socket_permissions dw p)) = (if lh_uid h = uid then TierOk else TierError)))"
proof -
  obtain r1 st1 where b: "bind_listener h p st = (r1, st1)" by fastforce
  note b' = bind_listener_closed [OF b, of "()"]
  have "closed_to_others st st' \<and>
    (r = Inr () \<longrightarrow> ls_socket st' = Some \<lparr>sn_mode = 0x1B0, sn_uid = lh_uid h, sn_gid = unwrap_or (lh_gid h) (client_gid h)\<rparr>)"
  proof (cases r1)
    case (Inl e)
    with assms b b' show ?thesis by (auto simp: start_listening_def)
  next
    case (Inr u)
    obtain r2 st2 where a: "apply_socket_permissions h st1 = (r2, st2)" by fastforce
    note a' = apply_socket_permissions_closed [OF a, of "()"]
    show ?thesis
    proof (cases r2)
      case (Inl e)
      with assms b b' a a' Inr show ?thesis by (auto simp: start_listening_def intro: closed_trans)
    next
      case r2: (Inr v)
      with a' b' Inr have n: "ls_socket st2 = Some \<lparr>sn_mode = SOCKET_MODE, sn_uid = lh_uid h, sn_gid = lh_gid h\<rparr>" by simp
      have "group_only \<lparr>sn_mode = SOCKET_MODE, sn_uid = lh_uid h, sn_gid = lh_gid h\<rparr>" by (simp add: group_only_def SOCKET_MODE_def)
      note g = apply_socket_group_closed [OF n this, of h]
      have "st' = apply_socket_group h st2"
        using assms b a Inr r2 by (auto simp: start_listening_def Let_def split: option.splits)
      moreover have "closed_to_others st (apply_socket_group h st2)"
        using g a' b' by (blast intro: closed_trans)
      ultimately show ?thesis using g by (auto simp: SOCKET_MODE_def split: option.splits)
    qed
  qed
  moreover have "tier_of (fst (check_socket_permissions dw p)) = (if lh_uid h = uid then TierOk else TierError)"
    if "dw_user_from_name dw ''ghbrk'' = Inr (Some uid)"
      "shows_socket (dw_fs dw) p (Some \<lparr>sn_mode = 0x1B0, sn_uid = lh_uid h, sn_gid = g\<rparr>)" for g
    using shows_socket_audit [OF that] by simp
  ultimately show ?thesis by (simp add: closed_to_others_def group_only_def [abs_def])
qed

definition example_listen_host :: listen_host where
  "example_listen_host =
     \<lparr>lh_bind = None, lh_uid = 990, lh_gid = 990, lh_chmod = None, lh_group = Inr (Some 991), lh_chown = None, lh_sigterm = None,
      lh_sigint = None, lh_unlink = None\<rparr>"

definition example_doctor :: doctor_world where
  "example_doctor = healthy_world
     \<lparr>dw_fs := (dw_fs healthy_world)
        \<lparr>fs_metadata := \<lambda>_. Inr \<lparr>md_kind = KOtherFile, md_mode = 0xC1B0, md_uid = 990, md_dev = 1, md_ino = 2\<rparr>\<rparr>,
      dw_user_from_name := \<lambda>_. Inr (Some 990)\<rparr>"

theorem socket_closed_to_others_witness:
  "ls_socket (snd (start_listening example_listen_host ''/s'' \<lparr>ls_umask = 0x12, ls_socket = None, ls_history = []\<rparr>)) =
     Some \<lparr>sn_mode = 0x1B0, sn_uid = 990, sn_gid = 991\<rparr> \<and>
   tier_of (fst (check_socket_permissions example_doctor ''/s'')) = TierOk"
proof -
  let ?st = "\<lparr>ls_umask = 0x12, ls_socket = None, ls_history = []\<rparr>"
  have ok: "fst (start_listening example_listen_host ''/s'' ?st) = Inr ()"
    by (simp add: start_listening_def bind_listener_def apply_socket_permissions_def example_listen_host_def Let_def)
  have "start_listening example_listen_host ''/s'' ?st =
      (Inr (), snd (start_listening example_listen_host ''/s'' ?st))" by (simp add: ok [symmetric])
  note th = socket_closed_to_others [OF this, where dw = example_doctor and uid = 990]
  then have node: "ls_socket (snd (start_listening example_listen_host ''/s'' ?st)) =
      Some \<lparr>sn_mode = 0x1B0, sn_uid = 990, sn_gid = 991\<rparr>"
    by (simp add: client_gid_def example_listen_host_def)
  moreover have "dw_user_from_name example_doctor ''ghbrk'' = Inr (Some 990)"
    by (simp add: example_doctor_def)
  moreover have "shows_socket (dw_fs example_doctor) ''/s'' (Some \<lparr>sn_mode = 0x1B0, sn_uid = 990, sn_gid = 991\<rparr>)"
    by (simp add: shows_socket_def example_doctor_def PERMISSION_BITS_def)
  ultimately show ?thesis using th by (simp add: example_listen_host_def)
qed

lemma daemon_start_ok:
  assumes "daemon_start x open_append runtime = Inr (cfg, b)"
  shows "\<exists>text. fs_read_to_string (x_fs x) (cfg_policy_path cfg) = Inr text \<and> b_policy_file b = Inr text \<and>
    from_yaml (x_yaml_parse x) (x_glob x) text = Inr (b_handle b) \<and> b_events b = [] \<and> al_buf (b_audit b) = [] \<and>
    open_append (al_path (b_audit b)) = Inr (al_disk (b_audit b))"
  using assms
  by (auto simp: daemon_start_def load_policy_def new_logger_def Let_def split: sum.splits option.splits)

text \<open>What the daemon needs before it may touch its socket.\<close>

definition policy_usable :: "outside \<Rightarrow> path \<Rightarrow> bool" where
  "policy_usable x p \<longleftrightarrow>
     (case fs_read_to_string (x_fs x) p of
        Inl _ \<Rightarrow> False
      | Inr content \<Rightarrow> (case x_yaml_parse x content of Inl _ \<Rightarrow> False | Inr q \<Rightarrow> wf_policy (x_glob x) q))"

definition ready_to_listen :: "outside \<Rightarrow> (path \<Rightarrow> io_error + disk) \<Rightarrow> io_error option \<Rightarrow> bool" where
  "ready_to_listen x open_append runtime \<longleftrightarrow>
     policy_usable x (unwrap_or DEFAULT_POLICY_PATH (x_getenv x ''GHBRK_POLICY'')) \<and>
     (\<exists>d. open_append (unwrap_or DEFAULT_AUDIT_PATH (x_getenv x ''GHBRK_AUDIT_LOG'')) = Inr d) \<and> runtime = None"

lemma env_path_unwrap: "env_path getenv var fallback = unwrap_or fallback (getenv var)"
  by (simp add: env_path_def split: option.split)

lemma load_policy_usable: "(\<exists>p. load_policy x path = Inr p) \<longleftrightarrow> policy_usable x path"
proof (cases "fs_read_to_string (x_fs x) path")
  case (Inr content)
  have "(\<exists>p. map_err policy_error_text r = Inr p) \<longleftrightarrow> (\<exists>p. r = Inr p)" for r :: "policy_error + policy"
    by (cases r) simp_all
  with Inr show ?thesis
    by (simp add: load_policy_def policy_usable_def from_yaml_ok split: sum.split)
qed (simp add: load_policy_def policy_usable_def)

lemma daemon_start_ready:
  "if ready_to_listen x open_append runtime
   then \<exists>cfg b. daemon_start x open_append runtime = Inr (cfg, b) \<and>
     cfg_socket_path cfg = unwrap_or DEFAULT_SOCKET_PATH (x_getenv x ''GHBRK_SOCKET'')
   else \<exists>msg. daemon_start x open_append runtime = Inl (2, msg) \<and> msg \<noteq> []"
  using load_policy_usable [of x "unwrap_or DEFAULT_POLICY_PATH (x_getenv x ''GHBRK_POLICY'')"]
  by (auto simp: ready_to_listen_def daemon_start_def new_logger_def env_path_unwrap println_def Let_def
      split: sum.splits option.splits)

text \<open>
  C34. A daemon that cannot trust its set-up does not serve: it exits with code 2, leaving the socket
  alone, exactly when the policy file cannot be read, parsed or validated, or the audit log cannot be
  opened, or the runtime does not start; otherwise with code 1 exactly when the socket cannot be set
  up; otherwise with code 0. Every failure is explained on standard error.
\<close>

theorem daemon_fails_closed:
  assumes "run_inner x open_append runtime h st = (code, msg, st')"
  shows "code =
     (if \<not> policy_usable x (unwrap_or DEFAULT_POLICY_PATH (x_getenv x ''GHBRK_POLICY'')) then 2
      else if isl (open_append (unwrap_or DEFAULT_AUDIT_PATH (x_getenv x ''GHBRK_AUDIT_LOG''))) then 2
      else if runtime \<noteq> None then 2
      else if isl (fst (start_listening h (unwrap_or DEFAULT_SOCKET_PATH (x_getenv x ''GHBRK_SOCKET'')) st)) then 1
      else 0) \<and>
    (code = 2 \<longrightarrow> st' = st) \<and> (msg = [] \<longleftrightarrow> code = 0)"
proof -
  have ready: "ready_to_listen x open_append runtime \<longleftrightarrow>
      policy_usable x (unwrap_or DEFAULT_POLICY_PATH (x_getenv x ''GHBRK_POLICY'')) \<and>
      \<not> isl (open_append (unwrap_or DEFAULT_AUDIT_PATH (x_getenv x ''GHBRK_AUDIT_LOG''))) \<and> runtime = None"
    by (cases "open_append (unwrap_or DEFAULT_AUDIT_PATH (x_getenv x ''GHBRK_AUDIT_LOG''))")
      (simp_all add: ready_to_listen_def)
  show ?thesis
  proof (cases "ready_to_listen x open_append runtime")
    case False
    with daemon_start_ready [of x open_append runtime] obtain t where
      "daemon_start x open_append runtime = Inl (2, t)" "t \<noteq> []" by auto
    with assms False show ?thesis unfolding ready by (auto simp: run_inner_def)
  next
    case True
    let ?sock = "unwrap_or DEFAULT_SOCKET_PATH (x_getenv x ''GHBRK_SOCKET'')"
    from True daemon_start_ready [of x open_append runtime] obtain cfg b where
      start: "daemon_start x open_append runtime = Inr (cfg, b)" "cfg_socket_path cfg = ?sock" by auto
    obtain r st1 where l: "start_listening h ?sock st = (r, st1)" by fastforce
    from True start l assms show ?thesis unfolding ready
      by (cases r) (auto simp: run_inner_def println_def)
  qed
qed

definition example_start :: outside where
  "example_start = example_outside\<lparr>x_fs := (x_fs example_outside)\<lparr>fs_read_to_string := \<lambda>_. Inr ''old''\<rparr>\<rparr>"

definition example_open :: "path \<Rightarrow> io_error + disk" where
  "example_open p = Inr (al_disk example_logger)"

lemma example_start_ok:
  "\<exists>cfg b. daemon_start example_start example_open None = Inr (cfg, b) \<and> b_handle b = example_policy \<and>
     cfg_policy_path cfg = DEFAULT_POLICY_PATH"
  using example_policy_loads(1)
  by (simp add: daemon_start_def load_policy_def new_logger_def Let_def env_path_def example_start_def example_open_def)

theorem daemon_fails_closed_witness:
  "\<exists>code text st'. run_inner example_start example_open None example_listen_host
       \<lparr>ls_umask = 0x12, ls_socket = None, ls_history = []\<rparr> = (code, text, st') \<and> code \<noteq> 2 \<and>
     (code = 0 \<or> code = 1) \<and> (text = [] \<longleftrightarrow> code = 0)"
proof -
  let ?st = "\<lparr>ls_umask = 0x12, ls_socket = None, ls_history = []\<rparr>"
  obtain code msg st' where run: "run_inner example_start example_open None example_listen_host ?st = (code, msg, st')"
    by (metis prod_cases3)
  have "policy_usable example_start (unwrap_or DEFAULT_POLICY_PATH (x_getenv example_start ''GHBRK_POLICY''))"
    using example_policy_loads by (simp add: policy_usable_def from_yaml_ok example_start_def)
  moreover have "\<not> isl (example_open p)" for p by (simp add: example_open_def)
  ultimately show ?thesis using daemon_fails_closed [OF run] run by (auto split: if_splits)
qed

end
