(* ===== verification/Doctor_Report.thy ===== *)
theory Doctor_Report
  imports Doctor
begin

unbundle bit_operations_syntax

section \<open>The doctor and the broker's report\<close>

text \<open>
  The two ends of the health check together: \<open>run_checks\<close> of \<open>src/src/health_check.rs\<close> writes status
  lines, and \<open>src/src/cmd/doctor.rs\<close> takes them apart again to find out which subsystem failed. The
  lemmas describe the lines of the broker's checks and what splitting, filtering and judging them
  gives; the property says that the verdicts of the doctor are those of the checks.
\<close>

subsection \<open>Reading status lines\<close>

text \<open>Text that prints on one line: ASCII without control characters.\<close>

definition printable :: "string \<Rightarrow> bool" where
  "printable s \<longleftrightarrow> list_all (\<lambda>c. 0x20 \<le> (of_char c :: nat) \<and> (of_char c :: nat) < 0x7F) s"

lemma printable_append [simp]:
  "printable []" "printable (s @ t) \<longleftrightarrow> printable s \<and> printable t"
  by (simp_all add: printable_def)

lemma printable_Cons [simp]:
  "printable (c # s) \<longleftrightarrow> 0x20 \<le> (of_char c :: nat) \<and> (of_char c :: nat) < 0x7F \<and> printable s"
  by (auto simp: printable_def)

lemma printable_no_newline: "printable s \<Longrightarrow> CHR 0x0A \<notin> set s \<and> CHR 0x0D \<notin> set s"
  by (auto simp: printable_def list_all_iff)

lemma printable_show_base: "2 \<le> b \<Longrightarrow> b \<le> 10 \<Longrightarrow> printable (show_base b n)"
proof (induction b n rule: show_base.induct)
  case (1 b n)
  have digit: "printable [digit_char d]" if "d < 10" for d
    using that by (simp add: digit_char_def)
  show ?case
  proof (cases "n < b")
    case True
    with 1 digit [of n] show ?thesis by (subst show_base.simps) simp
  next
    case False
    with 1 digit [of "n mod b"] show ?thesis
      by (subst show_base.simps) (simp add: less_le_trans [OF mod_less_divisor])
  qed
qed

lemma printable_show [simp]: "printable (show_nat n)" "printable (show_oct w)" "printable (show_oct5 w)"
  by (simp_all add: show_nat_def show_oct_def show_oct5_def printable_show_base Let_def)
    (simp add: printable_def list_all_iff)

lemma split_once_colon: "CHR '':'' \<notin> set a \<Longrightarrow> split_once_str '': '' (a @ CHR '':'' # CHR '' '' # b) = Some (a, b)"
  by (induction a) auto

lemma take_token_word: "list_all visible w \<Longrightarrow> take_token (w @ CHR '' '' # b) = w" "list_all visible w \<Longrightarrow> take_token w = w"
  by (induction w) simp_all

lemma first_token_word:
  assumes "list_all visible w" "w \<noteq> []"
  shows "first_token (w @ CHR '' '' # b) = w" "first_token w = w"
  using assms by (cases w; simp add: first_token_def trim_start_visible take_token_word)+

lemma status_line:
  assumes "CHR '':'' \<notin> set label" "list_all visible w" "w \<noteq> []"
  shows "status_line_passes (label @ CHR '':'' # CHR '' '' # w @ CHR '' '' # b) \<longleftrightarrow> w = ''OK'' \<or> w = ''SKIPPED''"
    "status_line_passes (label @ CHR '':'' # CHR '' '' # w) \<longleftrightarrow> w = ''OK'' \<or> w = ''SKIPPED''"
  using assms by (simp_all add: status_line_passes_def split_once_colon first_token_word STATUS_PASS_def STATUS_NOT_RUN_def)

lemma trim_codes_keeps:
  assumes "\<And>w. w \<in> set ps \<Longrightarrow> w \<noteq> [] \<and> last w \<noteq> c"
  shows "trim_codes ps (s @ [c]) \<noteq> []"
proof (induction "length s" arbitrary: s rule: less_induct)
  case less
  show ?case
  proof (cases "strip_any ps (s @ [c])")
    case None
    then show ?thesis by (subst trim_codes.simps) simp
  next
    case (Some r)
    then obtain w where w: "w \<in> set ps" "w \<noteq> []" "s @ [c] = w @ r"
      by (induction ps) (auto simp: strip_prefix_Some_iff split: if_splits option.splits)
    have "r \<noteq> []" using w assms [of w] by (metis append.right_neutral last_snoc)
    then obtain s' where "r = s' @ [c]" using w(3) by (metis append_butlast_last_id last_appendR last_snoc)
    with w Some less [of s'] show ?thesis by (subst trim_codes.simps) (auto simp: neq_Nil_conv)
  qed
qed

lemma trim_not_Nil: "visible c \<Longrightarrow> trim (c # s) \<noteq> []"
proof -
  assume c: "visible c"
  have "trim_codes (map rev ws_codes) (rev s @ [c]) \<noteq> []"
    by (rule trim_codes_keeps) (use ws_codes_ends c in \<open>auto simp: last_rev\<close>)
  with c show ?thesis by (simp add: trim_def trim_end_def trim_start_visible)
qed

text \<open>What splitting and judging make of a report given as its lines.\<close>

definition report_of :: "string list \<Rightarrow> string" where
  "report_of ls = concat (map (\<lambda>l. l @ [CHR 0x0A]) ls)"

lemma split_out_fold:
  "fold (\<lambda>line (found, remaining).
       if starts_with line SHARED_FILESYSTEM_LABEL then (Some line, remaining)
       else (found, remaining @ line @ [CHR 0x0A])) ls (None, acc) = (None, acc @ report_of ls)"
  if "list_all (\<lambda>l. \<not> starts_with l SHARED_FILESYSTEM_LABEL) ls"
  using that by (induction ls arbitrary: acc) (simp_all add: report_of_def)

lemma split_out_fold_found:
  "fold (\<lambda>line (found, remaining).
       if starts_with line SHARED_FILESYSTEM_LABEL then (Some line, remaining)
       else (found, remaining @ line @ [CHR 0x0A])) ls (Some l, acc) = (Some l, acc @ report_of ls)"
  if "list_all (\<lambda>l. \<not> starts_with l SHARED_FILESYSTEM_LABEL) ls"
  using that by (induction ls arbitrary: acc) (simp_all add: report_of_def)

lemma lines_report: "list_all printable ls \<Longrightarrow> lines (report_of ls) = ls"
  unfolding report_of_def by (rule lines_concat) (use printable_no_newline in \<open>auto simp: list_all_iff\<close>)

lemma ascii_report: "list_all printable ls \<Longrightarrow> from_utf8_lossy (report_of ls) = report_of ls"
  by (rule from_utf8_lossy_ascii) (induction ls, auto simp: report_of_def printable_def list_all_iff)

lemma split_out_report:
  assumes "list_all printable ls" "list_all (\<lambda>l. \<not> starts_with l SHARED_FILESYSTEM_LABEL) ls"
  shows "split_out_shared_filesystem_line (report_of ls) = (None, report_of ls)"
    and "printable (SHARED_FILESYSTEM_LABEL @ s) \<Longrightarrow>
      split_out_shared_filesystem_line (report_of ((SHARED_FILESYSTEM_LABEL @ s) # ls)) =
        (Some (SHARED_FILESYSTEM_LABEL @ s), report_of ls)"
proof -
  show "split_out_shared_filesystem_line (report_of ls) = (None, report_of ls)"
    using assms by (simp add: split_out_shared_filesystem_line_def lines_report split_out_fold)
  assume "printable (SHARED_FILESYSTEM_LABEL @ s)"
  with assms have "lines (report_of ((SHARED_FILESYSTEM_LABEL @ s) # ls)) = (SHARED_FILESYSTEM_LABEL @ s) # ls"
    by (intro lines_report) simp
  moreover have "starts_with (SHARED_FILESYSTEM_LABEL @ s) SHARED_FILESYSTEM_LABEL" by (auto simp: starts_with_iff)
  ultimately show "split_out_shared_filesystem_line (report_of ((SHARED_FILESYSTEM_LABEL @ s) # ls)) =
        (Some (SHARED_FILESYSTEM_LABEL @ s), report_of ls)"
    using assms(2) by (simp add: split_out_shared_filesystem_line_def split_out_fold_found)
qed

text \<open>The status lines of the broker's checks.\<close>

definition status_of :: "bool \<Rightarrow> string \<Rightarrow> string \<Rightarrow> bool" where
  "status_of ok l out \<longleftrightarrow> out = l @ [CHR 0x0A] \<and> printable l \<and> (status_line_passes l \<longleftrightarrow> ok) \<and> trim l \<noteq> []"

lemma check_shared_status:
  assumes "\<And>e. fs_metadata f p = Inl e \<Longrightarrow> printable (io_text e)" "\<And>r. own_tmp_mount_root f = Some r \<Longrightarrow> printable r"
  shows "\<exists>s. status_of (fst (check_shared_filesystem f p caller)) (SHARED_FILESYSTEM_LABEL @ s)
    (snd (check_shared_filesystem f p caller))"
proof -
  have pass: "status_line_passes (SHARED_FILESYSTEM_LABEL @ '' OK'')"
    using status_line(2) [of "''Shared filesystem''" "''OK''"] by (simp add: SHARED_FILESYSTEM_LABEL_def visible_def)
  have fail: "\<not> status_line_passes (SHARED_FILESYSTEM_LABEL @ '' ERROR '' @ t)" for t
    using status_line(1) [of "''Shared filesystem''" "''ERROR''" t] by (simp add: SHARED_FILESYSTEM_LABEL_def visible_def)
  have nonempty: "trim (SHARED_FILESYSTEM_LABEL @ s) \<noteq> []" for s
    by (simp add: SHARED_FILESYSTEM_LABEL_def trim_not_Nil visible_def)
  have label: "printable SHARED_FILESYSTEM_LABEL" by (simp add: SHARED_FILESYSTEM_LABEL_def)
  show ?thesis
  proof (cases "fst (check_shared_filesystem f p caller)")
    case True
    then have "snd (check_shared_filesystem f p caller) = (SHARED_FILESYSTEM_LABEL @ '' OK'') @ [CHR 0x0A]"
      by (auto simp: check_shared_filesystem_def newline_def Let_def split: sum.splits if_splits)
    with True pass nonempty label show ?thesis
      by (intro exI [of _ "'' OK''"]) (simp add: status_of_def)
  next
    case False
    then obtain t where "snd (check_shared_filesystem f p caller) = SHARED_FILESYSTEM_LABEL @ '' ERROR '' @ t @ [CHR 0x0A]"
      "printable t"
      using assms
      by (cases "fs_metadata f p"; cases "own_tmp_mount_root f")
        (auto simp: check_shared_filesystem_def newline_def Let_def SYSTEMD_UNIT_PATH_def split: if_splits)
    with False fail nonempty label show ?thesis
      by (intro exI [of _ "'' ERROR '' @ t"]) (simp add: status_of_def)
  qed
qed


lemma check_file_status:
  assumes "CHR '':'' \<notin> set label" "printable label" "label \<noteq> []" "visible (hd label)"
    and "\<And>e. fs_metadata f p = Inl e \<Longrightarrow> printable (io_text e)"
  shows "\<exists>t. status_of (fst (check_file f label p)) (label @ t) (snd (check_file f label p))"
proof -
  have nonempty: "trim (label @ t) \<noteq> []" for t
    using assms(3,4) by (cases label) (simp_all add: trim_not_Nil)
  have w: "list_all visible ''OK''" "list_all visible ''MISSING''" "list_all visible ''ERROR''" "list_all visible ''BAD''"
    by (simp_all add: visible_def)
  note pass = status_line(2) [OF assms(1) w(1)]
  note fail = status_line(2) [OF assms(1) w(2)] status_line(1) [OF assms(1) w(3)] status_line(1) [OF assms(1) w(4)]
  show ?thesis
  proof (cases "fs_metadata f p")
    case (Inl e)
    show ?thesis
    proof (cases "io_kind e = NotFound")
      case True
      with Inl fail(1) nonempty assms(2) show ?thesis
        by (intro exI [of _ "'': MISSING''"]) (simp add: status_of_def check_file_def newline_def)
    next
      case False
      with Inl fail(2) [of "''('' @ io_text e @ '')''"] nonempty assms(2,5) show ?thesis
        by (intro exI [of _ "'': ERROR ('' @ io_text e @ '')''"]) (simp add: status_of_def check_file_def newline_def)
    qed
  next
    case (Inr m)
    show ?thesis
    proof (cases "md_mode m AND PERMISSION_MASK = REQUIRED_MODE")
      case True
      with Inr pass nonempty assms(2) show ?thesis
        by (intro exI [of _ "'': OK''"]) (simp add: status_of_def check_file_def newline_def)
    next
      case False
      with Inr fail(3) [of "''PERMISSIONS ('' @ show_oct5 (md_mode m AND PERMISSION_MASK) @ '')''"] nonempty assms(2)
      show ?thesis
        by (intro exI [of _ "'': BAD PERMISSIONS ('' @ show_oct5 (md_mode m AND PERMISSION_MASK) @ '')''"])
          (simp add: status_of_def check_file_def newline_def Let_def)
    qed
  qed
qed

lemma check_api_status:
  assumes "\<And>t l. ping_github getenv probe t = GithubOk l \<Longrightarrow> printable l"
  shows "\<exists>t. status_of (fst (check_github_api f getenv probe p True)) (''GitHub API'' @ t)
      (snd (check_github_api f getenv probe p ok))"
    and "fst (check_github_api f getenv probe p ok) \<longleftrightarrow> ok \<and> fst (check_github_api f getenv probe p True)"
proof -
  show "fst (check_github_api f getenv probe p ok) \<longleftrightarrow> ok \<and> fst (check_github_api f getenv probe p True)"
    by (simp add: check_github_api_def split: option.split github_result.split)
  have nonempty: "trim (''GitHub API'' @ t) \<noteq> []" for t
    by (simp add: trim_not_Nil visible_def)
  have w: "list_all visible ''OK''" "list_all visible ''SKIPPED''" "list_all visible ''INVALID''" "list_all visible ''UNREACHABLE''"
    and c: "CHR '':'' \<notin> set ''GitHub API''"
    by (simp_all add: visible_def)
  note lines = status_line(1) [OF c w(1)] status_line(1) [OF c w(2)] status_line(1) [OF c w(3)] status_line(2) [OF c w(4)]
  show "\<exists>t. status_of (fst (check_github_api f getenv probe p True)) (''GitHub API'' @ t)
      (snd (check_github_api f getenv probe p ok))"
  proof (cases "read_token_if_available f p")
    case None
    with lines(2) [of "''(no token available)''"] nonempty show ?thesis
      by (intro exI [of _ "'': SKIPPED (no token available)''"]) (simp add: status_of_def check_github_api_def newline_def)
  next
    case (Some tok)
    show ?thesis
    proof (cases "ping_github getenv probe tok")
      case (GithubOk login)
      with Some lines(1) [of "''(user: '' @ login @ '')''"] nonempty assms [OF GithubOk] show ?thesis
        by (intro exI [of _ "'': OK (user: '' @ login @ '')''"]) (simp add: status_of_def check_github_api_def newline_def)
    next
      case InvalidToken
      with Some lines(3) [of "''TOKEN''"] nonempty show ?thesis
        by (intro exI [of _ "'': INVALID TOKEN''"]) (simp add: status_of_def check_github_api_def newline_def)
    next
      case Unreachable
      with Some lines(4) nonempty show ?thesis
        by (intro exI [of _ "'': UNREACHABLE''"]) (simp add: status_of_def check_github_api_def newline_def)
    qed
  qed
qed

text \<open>Judging the lines of three checks that are not the shared-filesystem check.\<close>

lemma credentials_passed_report:
  assumes "status_of k1 l1 o1" "status_of k2 l2 o2" "status_of k3 l3 o3"
  shows "credentials_passed code (o1 @ o2 @ o3) vs \<longleftrightarrow> (code = 0 \<or> k1 \<and> k2 \<and> k3) \<and> \<not> list_ex is_error vs"
proof -
  from assms have "o1 @ o2 @ o3 = report_of [l1, l2, l3]" "list_all printable [l1, l2, l3]"
    by (simp_all add: status_of_def report_of_def)
  with assms show ?thesis by (simp add: credentials_passed_def lines_report status_of_def)
qed

text \<open>The verdicts on a report, with or without a leading shared-filesystem line.\<close>

lemma report_verdicts_lines:
  assumes st: "status_of k1 (''SSH key'' @ a) o1" "status_of k2 (''Token'' @ b) o2" "status_of k3 (''GitHub API'' @ c) o3"
    and pre: "case tmp of None \<Rightarrow> pre = [] \<and> k0 | Some _ \<Rightarrow> \<exists>s. status_of k0 (SHARED_FILESYSTEM_LABEL @ s) pre"
    and ok: "ok \<longleftrightarrow> k0 \<and> k1 \<and> k2 \<and> k3"
  shows "cv_credentials_ok (fst (report_verdicts tmp (if ok then 0 else 1) (pre @ o1 @ o2 @ o3) vs)) \<longleftrightarrow>
      k1 \<and> k2 \<and> k3 \<and> \<not> list_ex is_error vs"
    "is_error (cv_shared_filesystem (fst (report_verdicts tmp (if ok then 0 else 1) (pre @ o1 @ o2 @ o3) vs))) \<longleftrightarrow> \<not> k0"
proof -
  let ?ls = "[''SSH key'' @ a, ''Token'' @ b, ''GitHub API'' @ c]" and ?rest = "o1 @ o2 @ o3"
  have rest: "?rest = report_of ?ls" "list_all printable ?ls"
    using st by (simp_all add: status_of_def report_of_def)
  have other: "list_all (\<lambda>l. \<not> starts_with l SHARED_FILESYSTEM_LABEL) ?ls"
    by (simp add: starts_with_def SHARED_FILESYSTEM_LABEL_def)
  note passed = credentials_passed_report [OF st]
  have "(cv_credentials_ok (fst (report_verdicts tmp (if ok then 0 else 1) (pre @ ?rest) vs)) \<longleftrightarrow>
      k1 \<and> k2 \<and> k3 \<and> \<not> list_ex is_error vs) \<and>
    (is_error (cv_shared_filesystem (fst (report_verdicts tmp (if ok then 0 else 1) (pre @ ?rest) vs))) \<longleftrightarrow> \<not> k0)"
  proof (cases tmp)
    case None
    have "from_utf8_lossy ?rest = ?rest" "split_out_shared_filesystem_line ?rest = (None, ?rest)"
      unfolding rest(1) by (rule ascii_report [OF rest(2)], rule split_out_report(1) [OF rest(2) other])
    with None pre passed ok show ?thesis by (auto simp: report_verdicts_def is_error_def Let_def)
  next
    case (Some caller)
    with pre obtain s where s: "status_of k0 (SHARED_FILESYSTEM_LABEL @ s) pre" by auto
    let ?l = "SHARED_FILESYSTEM_LABEL @ s"
    from s have sp: "printable ?l" by (simp only: status_of_def)
    have full: "pre @ ?rest = report_of (?l # ?ls)" using s rest(1) by (simp add: status_of_def report_of_def)
    have "list_all printable (?l # ?ls)" using rest(2) sp by simp
    from ascii_report [OF this] full have "from_utf8_lossy (pre @ ?rest) = pre @ ?rest" by simp
    moreover have "split_out_shared_filesystem_line (pre @ ?rest) = (Some ?l, ?rest)"
      using split_out_report(2) [OF rest(2) other sp] unfolding full [symmetric] rest(1) [symmetric] .
    moreover have "is_error (shared_filesystem_verdict ?l) \<longleftrightarrow> \<not> k0"
      using s by (simp add: shared_filesystem_verdict_def is_error_def status_of_def)
    ultimately show ?thesis using Some passed ok by (auto simp: report_verdicts_def Let_def)
  qed
  then show "cv_credentials_ok (fst (report_verdicts tmp (if ok then 0 else 1) (pre @ ?rest) vs)) \<longleftrightarrow>
      k1 \<and> k2 \<and> k3 \<and> \<not> list_ex is_error vs"
    "is_error (cv_shared_filesystem (fst (report_verdicts tmp (if ok then 0 else 1) (pre @ ?rest) vs))) \<longleftrightarrow> \<not> k0"
    by (rule conjunct1, rule conjunct2)
qed

text \<open>
  C37. The doctor blames the right subsystem: on the report of the broker's own checks, the verdict on
  the credentials is exactly whether the key, the token and the API check passed and no audited path
  is exposed, and the verdict on the shared file system is exactly whether that check passed. A
  temporary directory that differs is never reported as a credential failure, nor the other way
  round.
\<close>

theorem doctor_reads_report:
  assumes "\<And>p e. fs_metadata f p = Inl e \<Longrightarrow> printable (io_text e)" "\<And>r. own_tmp_mount_root f = Some r \<Longrightarrow> printable r"
    "\<And>t l. ping_github getenv probe t = GithubOk l \<Longrightarrow> printable l"
    and "credential_paths_in root u = Inr cp"
    and "run_checks f getenv probe dbg \<lparr>creds_root = root, user = u, ci_caller_tmp = tmp\<rparr> = (ok, out)"
  shows "(cv_credentials_ok (fst (report_verdicts tmp (if ok then 0 else 1) out vs)) \<longleftrightarrow>
      fst (check_file f ''SSH key'' (cp_ssh_key cp)) \<and> fst (check_file f ''Token'' (cp_token cp)) \<and>
      fst (check_github_api f getenv probe (cp_token cp) True) \<and> \<not> list_ex is_error vs) \<and>
    (is_error (cv_shared_filesystem (fst (report_verdicts tmp (if ok then 0 else 1) out vs))) \<longleftrightarrow>
      (\<exists>caller. tmp = Some caller \<and> \<not> fst (check_shared_filesystem f BROKER_TMP_PATH caller)))"
proof -
  let ?k = "check_file f ''SSH key'' (cp_ssh_key cp)" and ?t = "check_file f ''Token'' (cp_token cp)"
    and ?g = "check_github_api f getenv probe (cp_token cp) True"
  define shared where "shared = (case tmp of Some caller \<Rightarrow> check_shared_filesystem f BROKER_TMP_PATH caller | None \<Rightarrow> (True, []))"
  define ag where "ag = check_github_api f getenv probe (cp_token cp) (fst shared \<and> fst ?k \<and> fst ?t)"
  obtain a where a: "status_of (fst ?k) (''SSH key'' @ a) (snd ?k)"
    using check_file_status [of "''SSH key''" f "cp_ssh_key cp"] assms(1) by (auto simp: visible_def)
  obtain b where b: "status_of (fst ?t) (''Token'' @ b) (snd ?t)"
    using check_file_status [of "''Token''" f "cp_token cp"] assms(1) by (auto simp: visible_def)
  obtain c where c: "status_of (fst ?g) (''GitHub API'' @ c) (snd ag)"
    using check_api_status(1) [of getenv probe f "cp_token cp"] assms(3) unfolding ag_def by blast
  have ok: "ok \<longleftrightarrow> fst shared \<and> fst ?k \<and> fst ?t \<and> fst ?g" and out: "out = snd shared @ snd ?k @ snd ?t @ snd ag"
    using assms(4,5) check_api_status(2) [of getenv probe f "cp_token cp" "fst shared \<and> fst ?k \<and> fst ?t"] assms(3)
    by (auto simp: run_checks_def shared_def ag_def Let_def case_prod_beta split: option.splits)
  have pre: "case tmp of None \<Rightarrow> snd shared = [] \<and> fst shared
      | Some _ \<Rightarrow> \<exists>s. status_of (fst shared) (SHARED_FILESYSTEM_LABEL @ s) (snd shared)"
    using check_shared_status [of f BROKER_TMP_PATH] assms(1,2) by (auto simp: shared_def split: option.split)
  note v = report_verdicts_lines [OF a b c pre ok, of vs]
  have "\<not> fst shared \<longleftrightarrow> (\<exists>caller. tmp = Some caller \<and> \<not> fst (check_shared_filesystem f BROKER_TMP_PATH caller))"
    by (simp add: shared_def split: option.split)
  with v show ?thesis unfolding out by simp
qed

theorem doctor_reads_report_witness:
  "\<exists>ok out. run_checks example_store (\<lambda>_. None) (\<lambda>_ _. None) id
       \<lparr>creds_root = credentials_dir, user = ''alice'', ci_caller_tmp = None\<rparr> = (ok, out) \<and>
     \<not> is_error (cv_shared_filesystem (fst (report_verdicts None (if ok then 0 else 1) out [])))"
proof -
  let ?in = "\<lparr>creds_root = credentials_dir, user = ''alice'', ci_caller_tmp = None\<rparr>"
  obtain ok out where run: "run_checks example_store (\<lambda>_. None) (\<lambda>_ _. None) id ?in = (ok, out)" by fastforce
  have "isl (credential_paths_in credentials_dir ''alice'') = False" by code_simp
  from not_isl_Inr [OF this] obtain cp where cp: "credential_paths_in credentials_dir ''alice'' = Inr cp" ..
  have "own_tmp_mount_root example_store = None" by code_simp
  moreover have "fs_metadata example_store p \<noteq> Inl e" "ping_github (\<lambda>_. None) (\<lambda>_ _. None) t \<noteq> GithubOk l" for p e t l
    by (simp_all add: example_store_def ping_github_def)
  ultimately have "\<not> is_error (cv_shared_filesystem (fst (report_verdicts None (if ok then 0 else 1) out [])))"
    using doctor_reads_report [OF _ _ _ cp run, of "[]"] by simp
  with run show ?thesis by blast
qed

end
