(* ===== verification/Commands.thy ===== *)
theory Commands
  imports Daemon Doctor_Report
begin

section \<open>The client commands\<close>

text \<open>
  The entry points of \<open>src/src/cmd/\<close> that relay a request: \<open>git\<close>, \<open>gh\<close>, \<open>allow\<close>, \<open>explain\<close> and
  \<open>policy\<close>, each with its check of the arguments before anything is sent, and the dispatch of
  \<open>src/src/main.rs\<close> on a parsed command line. The argument parser is not modelled; \<open>command_line\<close> is
  what it yields.
\<close>

subsection \<open>git and gh\<close>

definition is_remote_op :: "string list \<Rightarrow> bool" where
  "is_remote_op as =
     (case first_non_flag as of
        Some sub \<Rightarrow> sub \<in> set [''push'', ''fetch'', ''clone'', ''pull'']
      | None \<Rightarrow> False)"

definition current_dir :: "client_world \<Rightarrow> path" where
  "current_dir cw = unwrap_or [] (res_ok (cw_cwd cw))"

definition git_run :: "client_world \<Rightarrow> string list \<Rightarrow> writer \<Rightarrow> writer \<Rightarrow> relay_result" where
  "git_run cw as out err =
     (if \<not> is_remote_op as
      then eprintln_exit 2
             (''error: use '' @ quoted ''git <subcommand>'' @ '' directly; ghbrk git only brokers '' @
              ''remote operations (push, fetch, clone, pull)'') out err
      else (case repo_hints (cw_fs cw) (current_dir cw) of
              (url, branch) \<Rightarrow>
                run_gateway cw Git as (current_dir cw) (socket_path_from_env (cw_getenv cw)) url branch out err))"

definition gh_run :: "client_world \<Rightarrow> string list \<Rightarrow> writer \<Rightarrow> writer \<Rightarrow> relay_result" where
  "gh_run cw as out err =
     (case repo_hints (cw_fs cw) (current_dir cw) of
        (url, branch) \<Rightarrow>
          run_gateway cw Gh as (current_dir cw) (socket_path_from_env (cw_getenv cw)) url branch out err)"

subsection \<open>allow\<close>

definition is_valid_segment :: "string \<Rightarrow> bool" where
  "is_valid_segment s =
     (s \<noteq> [] \<and> list_all (\<lambda>c. is_ascii_alphanumeric c \<or> c = CHR ''_'' \<or> c = CHR ''.'' \<or> c = CHR ''-'') s)"

definition validate_repo_spec :: "(string \<Rightarrow> string) \<Rightarrow> string \<Rightarrow> string + unit" where
  "validate_repo_spec dbg repo =
     (let bad = Inl (''invalid repository specifier '' @ dbg repo @ '': expected org/repo format (e.g. acme/web)'') in
        case split_once CHR ''/'' repo of
          Some (org, name) \<Rightarrow>
            if CHR ''/'' \<notin> set name \<and> is_valid_segment org \<and> is_valid_segment name then Inr () else bad
        | None \<Rightarrow> bad)"

definition assemble_args :: "string \<Rightarrow> string list \<Rightarrow> string option \<Rightarrow> string list" where
  "assemble_args repo operands u =
     repo # operands @ (case u of Some name \<Rightarrow> [''--user'', name] | None \<Rightarrow> [])"

definition allow_run ::
    "client_world \<Rightarrow> string \<Rightarrow> string list \<Rightarrow> string option \<Rightarrow> writer \<Rightarrow> writer \<Rightarrow> relay_result" where
  "allow_run cw repo operands u out err =
     (case validate_repo_spec (cw_dbg cw) repo of
        Inl e \<Rightarrow> eprintln_exit 2 (''ghbrk: '' @ e) out err
      | Inr _ \<Rightarrow>
          run_gateway cw AllowTool (assemble_args repo operands u) (current_dir cw)
            (socket_path_from_env (cw_getenv cw)) None None out err)"

subsection \<open>explain and policy\<close>

text \<open>\<open>ExitCode::from(code as u8)\<close> keeps the low eight bits of the code.\<close>

definition exit_byte :: "i32 \<Rightarrow> i32" where
  "exit_byte code = ucast (ucast code :: byte)"

definition explain_run :: "client_world \<Rightarrow> string list \<Rightarrow> writer \<Rightarrow> writer \<Rightarrow> relay_result" where
  "explain_run cw as out err =
     (if as = [] then eprintln_exit 1 ''ghbrk explain: no command provided'' out err
      else (case repo_hints (cw_fs cw) (current_dir cw) of
              (url, branch) \<Rightarrow>
                (case cw_runtime cw of
                   Some e \<Rightarrow>
                     eprintln_exit 1 (''ghbrk explain: failed to start async runtime: '' @ io_text e) out err
                 | None \<Rightarrow>
                     let r = relay cw Explain as (current_dir cw) (socket_path_from_env (cw_getenv cw)) url branch out err in
                       r\<lparr>rl_code := exit_byte (rl_code r)\<rparr>)))"

definition is_valid_repo_spec :: "string \<Rightarrow> bool" where
  "is_valid_repo_spec repo =
     (let (org, name) = (case split_once CHR ''/'' repo of Some (a, b) \<Rightarrow> (a, b) | None \<Rightarrow> (repo, [])) in
        org \<noteq> [] \<and> name \<noteq> [] \<and> CHR ''/'' \<notin> set name)"

definition policy_run :: "client_world \<Rightarrow> string \<Rightarrow> writer \<Rightarrow> writer \<Rightarrow> relay_result" where
  "policy_run cw repo out err =
     (if \<not> is_valid_repo_spec repo
      then eprintln_exit 1
             (''ghbrk policy: invalid repo specifier '' @ quoted repo @ ''; expected org/repo format'') out err
      else run_gateway cw PolicyTool [repo] (current_dir cw) (socket_path_from_env (cw_getenv cw)) None None out err)"

subsection \<open>The command line\<close>

datatype command_line =
    DaemonCommand
  | DoctorCommand
  | ExplainCommand "string list"
  | PolicyCommand string
  | GitCommand "string list"
  | GhCommand "string list"
  | AllowCommand string "string list" "string option"

text \<open>The commands that relay a request; \<open>daemon\<close> and \<open>doctor\<close> run on their own worlds.\<close>

definition run_client :: "client_world \<Rightarrow> command_line \<Rightarrow> writer \<Rightarrow> writer \<Rightarrow> relay_result option" where
  "run_client cw cmd out err =
     (case cmd of
        DaemonCommand \<Rightarrow> None
      | DoctorCommand \<Rightarrow> None
      | ExplainCommand as \<Rightarrow> Some (explain_run cw as out err)
      | PolicyCommand repo \<Rightarrow> Some (policy_run cw repo out err)
      | GitCommand as \<Rightarrow> Some (git_run cw as out err)
      | GhCommand as \<Rightarrow> Some (gh_run cw as out err)
      | AllowCommand repo operands u \<Rightarrow> Some (allow_run cw repo operands u out err))"

subsection \<open>Lemmas\<close>

lemma is_valid_repo_spec_eq: "is_valid_repo_spec r \<longleftrightarrow> parse_repo_spec r \<noteq> None"
  by (auto simp: is_valid_repo_spec_def parse_repo_spec_def split: option.splits)

lemma validate_repo_spec_ok:
  "validate_repo_spec dbg r = Inr u \<Longrightarrow> \<exists>org name. parse_repo_spec r = Some (org, name) \<and> r = org @ CHR ''/'' # name"
  by (cases "split_once CHR ''/'' r")
    (auto simp: validate_repo_spec_def parse_repo_spec_def is_valid_segment_def Let_def
      dest: split_once_Some_iff [THEN iffD1] split: if_splits)

lemma is_remote_op_eq: "is_remote_op as \<longleftrightarrow> git_is_remote_op as"
  by (simp add: is_remote_op_def git_is_remote_op_def git_first_subcommand_eq split: option.split)

lemma scan_allow_operands:
  "''--user'' \<notin> set operands \<Longrightarrow> scan_allow_args (operands @ rest) target acc = scan_allow_args rest target (acc @ operands)"
  by (induction operands arbitrary: acc) auto

subsection \<open>Properties\<close>

text \<open>
  C20. A grant means on the broker what was typed, when no operand is the word \<open>--user\<close>: for a
  repository the client accepts, the request it assembles is parsed to the same owner and
  repository, the user named with \<open>--user\<close> or else the caller, and the operations the operands
  spell. The client does not look at the operands or the user, so what the broker refuses of them
  is part of the statement: an empty user, no operands, and operands that spell no operations. (An
  operand \<open>--user\<close>, which the client forwards from behind \<open>--\<close>, is taken by the broker for the
  option: see \<open>user_operand_reparsed\<close>.)
\<close>

theorem allow_request_roundtrip:
  assumes "validate_repo_spec dbg repo = Inr u" and "''--user'' \<notin> set operands"
  shows "\<exists>org rep. repo = org @ CHR ''/'' # rep \<and>
    parse_allow_args (assemble_args repo operands name) caller =
      (if name = Some [] then Inl ''allow: --user requires a non-empty username''
       else if operands = [] then Inl ''allow: no operations or role specified''
       else (case parse_operations_spec operands of
         Inl e \<Rightarrow> Inl e
       | Inr ops \<Rightarrow>
           Inr \<lparr>alr_org = org, alr_repo = rep, alr_target_user = unwrap_or caller name, alr_operations = ops\<rparr>))"
proof -
  from validate_repo_spec_ok [OF assms(1)] obtain org rep where
    r: "parse_repo_spec repo = Some (org, rep)" "repo = org @ CHR ''/'' # rep" by blast
  have "scan_allow_args (operands @ (case name of Some n \<Rightarrow> [''--user'', n] | None \<Rightarrow> [])) caller [] =
      (if name = Some [] then Inl ''allow: --user requires a non-empty username''
       else Inr (unwrap_or caller name, operands))"
    using scan_allow_operands [OF assms(2), of "[]"] scan_allow_operands [OF assms(2), of "[''--user'', the name]"]
    by (cases name) simp_all
  with r have "parse_allow_args (assemble_args repo operands name) caller =
      (if name = Some [] then Inl ''allow: --user requires a non-empty username''
       else if operands = [] then Inl ''allow: no operations or role specified''
       else (case parse_operations_spec operands of
         Inl e \<Rightarrow> Inl e
       | Inr ops \<Rightarrow>
           Inr \<lparr>alr_org = org, alr_repo = rep, alr_target_user = unwrap_or caller name, alr_operations = ops\<rparr>))"
    by (simp add: parse_allow_args_def assemble_args_def)
  with r(2) show ?thesis by blast
qed

lemma user_operand_reparsed:
  "(case parse_allow_args (assemble_args ''acme/web'' [''push'', ''--user'', ''eve''] None) ''root'' of
      Inl _ \<Rightarrow> False
    | Inr a \<Rightarrow> alr_target_user a = ''eve'' \<and> alr_operations a = OpList [Push])"
  by code_simp

theorem allow_request_roundtrip_witness:
  "\<exists>org rep. ''acme/web'' = org @ CHR ''/'' # rep \<and>
     parse_allow_args (assemble_args ''acme/web'' [''push''] (Some ''bob'')) ''root'' =
       (case parse_operations_spec [''push''] of
          Inl e \<Rightarrow> Inl e
        | Inr ops \<Rightarrow> Inr \<lparr>alr_org = org, alr_repo = rep, alr_target_user = ''bob'', alr_operations = ops\<rparr>)"
proof -
  have "validate_repo_spec id ''acme/web'' = Inr ()" by code_simp
  from allow_request_roundtrip [OF this, of "[''push'']" "Some ''bob''" "''root''"]
  show ?thesis unfolding unwrap_or_simps(2) by fastforce
qed

text \<open>
  C19. The client and the broker draw the same lines: the client's \<open>git\<close> command refuses an argument list
  exactly when the broker would reject it as local, the repositories \<open>ghbrk policy\<close> accepts are exactly
  those the broker parses, and a refused command sends nothing.
\<close>

theorem client_filters_agree:
  "(is_remote_op as \<longleftrightarrow> git_is_remote_op as) \<and> (is_valid_repo_spec repo \<longleftrightarrow> parse_repo_spec repo \<noteq> None) \<and>
   (git_is_remote_op as \<or> rl_sent (git_run cw as out err) = None) \<and>
   (case parse_repo_spec repo of
      Some _ \<Rightarrow> True
    | None \<Rightarrow> rl_sent (policy_run cw repo out err) = None \<and> rl_sent (allow_run cw repo ops u out err) = None)"
proof (intro conjI)
  show "is_remote_op as \<longleftrightarrow> git_is_remote_op as" by (rule is_remote_op_eq)
  show "is_valid_repo_spec repo \<longleftrightarrow> parse_repo_spec repo \<noteq> None" by (rule is_valid_repo_spec_eq)
  have quiet: "rl_sent (eprintln_exit code msg out err) = None" for code msg
    by (simp add: eprintln_exit_def split: prod.split sum.split)
  show "git_is_remote_op as \<or> rl_sent (git_run cw as out err) = None"
    by (cases "git_is_remote_op as") (simp_all add: git_run_def is_remote_op_eq quiet)
  show "case parse_repo_spec repo of
      Some _ \<Rightarrow> True
    | None \<Rightarrow> rl_sent (policy_run cw repo out err) = None \<and> rl_sent (allow_run cw repo ops u out err) = None"
  proof (cases "parse_repo_spec repo")
    case None
    then obtain e where "validate_repo_spec (cw_dbg cw) repo = Inl e"
      using validate_repo_spec_ok [of "cw_dbg cw" repo] by (cases "validate_repo_spec (cw_dbg cw) repo") auto
    with None show ?thesis by (simp add: policy_run_def is_valid_repo_spec_eq allow_run_def quiet)
  qed simp
qed

end
