(* ===== verification/Agent_Proxy.thy ===== *)
theory Agent_Proxy
  imports Gateway "HOL-Library.Sublist"
begin

section \<open>The proxy in front of the ssh-agent\<close>

text \<open>
  The model of \<open>run_agent_proxy\<close> in \<open>src/src/credentials.rs\<close>: an accept loop that bridges every
  connection on the proxy socket to a connection of its own to the agent, and per bridge two copies
  of which the first to end ends both. What the two ends send is given as pipes; the order in which
  the runtime polls the bridges and their copies is left open.
\<close>

subsection \<open>One bridge\<close>

text \<open>
  \<open>tokio::io::copy\<close> as a future: it writes what it reads until the reader ends, flushes then, and
  is ready at the first error of either end. Its buffer has the size of the other relays' buffers.
\<close>

definition copy_poll :: "pipe \<times> writer \<Rightarrow> (pipe \<times> writer, pipe \<times> writer) poll" where
  "copy_poll = (\<lambda>(p, w).
     case read_pipe p of
       (Inl _, p') \<Rightarrow> Ready (p', w)
     | (Inr bs, p') \<Rightarrow>
         if bs = [] then Ready (p', snd (flush w))
         else (case write_all w bs of (Inl _, w') \<Rightarrow> Ready (p', w') | (Inr _, w') \<Rightarrow> Step (p', w')))"

text \<open>The direction to the agent and the direction to the client.\<close>

datatype bridge =
    Bridging (up_dir: "pipe \<times> writer") (down_dir: "pipe \<times> writer")
  | is_closed: Closed (up_dir: "pipe \<times> writer") (down_dir: "pipe \<times> writer")

inductive bridge_step :: "bridge \<Rightarrow> bridge \<Rightarrow> bool" where
  to_agent: "copy_poll up = Step up' \<Longrightarrow> bridge_step (Bridging up down) (Bridging up' down)"
| to_agent_ends: "copy_poll up = Ready up' \<Longrightarrow> bridge_step (Bridging up down) (Closed up' down)"
| to_client: "copy_poll down = Step down' \<Longrightarrow> bridge_step (Bridging up down) (Bridging up down')"
| to_client_ends: "copy_poll down = Ready down' \<Longrightarrow> bridge_step (Bridging up down) (Closed up down')"

inductive_simps bridge_step_Bridging: "bridge_step (Bridging up down) b"
inductive_cases bridge_step_ClosedE: "bridge_step (Closed up down) b"

subsection \<open>The accept loop\<close>

text \<open>The two ends of an accepted connection: what each will send, and what a write to it does.\<close>

record link_ends =
  le_client_says :: pipe
  le_client_hears :: writer
  le_agent_says :: pipe
  le_agent_hears :: writer

definition open_bridge :: "link_ends \<Rightarrow> bridge" where
  "open_bridge l = Bridging (le_client_says l, le_agent_hears l) (le_agent_says l, le_client_hears l)"

record proxy =
  px_accepting :: bool
  px_bridges :: "(link_ends \<times> bridge) list"

definition proxy_started :: proxy where
  "proxy_started = \<lparr>px_accepting = True, px_bridges = []\<rparr>"

text \<open>
  A failing \<open>accept\<close> ends the loop, as does \<open>abort\<close> on the task; a failing \<open>connect\<close> drops the
  client. Bridges are tasks of their own and outlive the loop.
\<close>

inductive proxy_step :: "proxy \<Rightarrow> proxy \<Rightarrow> bool" where
  accept: "px_accepting px \<Longrightarrow>
    proxy_step px (px\<lparr>px_bridges := px_bridges px @ [(l, open_bridge l)]\<rparr>)"
| connect_fails: "px_accepting px \<Longrightarrow> proxy_step px px"
| accept_fails: "px_accepting px \<Longrightarrow> proxy_step px (px\<lparr>px_accepting := False\<rparr>)"
| aborted: "proxy_step px (px\<lparr>px_accepting := False\<rparr>)"
| bridge_moves: "k < length (px_bridges px) \<Longrightarrow> px_bridges px ! k = (l, b) \<Longrightarrow> bridge_step b b' \<Longrightarrow>
    proxy_step px (px\<lparr>px_bridges := (px_bridges px)[k := (l, b')]\<rparr>)"

subsection \<open>Lemmas\<close>

lemma read_pipe_bytes: "read_pipe p = (Inr bs, p') \<Longrightarrow> pipe_bytes (Some p) = bs @ pipe_bytes (Some p')"
  by (cases "Some p" rule: pipe_bytes.cases)
    (auto simp: read_pipe_def append_assoc [symmetric] simp del: append_assoc split: if_splits sum.splits list.splits)

lemma write_all_prefix: "write_all w bs = (Inl e, w') \<Longrightarrow> \<exists>part. prefix part bs \<and> wr_out w' = wr_out w @ part"
  by (auto simp: write_all_def take_is_prefix split: list.splits write_event.splits)

lemma copy_poll_step:
  assumes "copy_poll (p, w) = Step (p', w')"
  shows "wr_out w' @ pipe_bytes (Some p') = wr_out w @ pipe_bytes (Some p)"
    "pipe_size (Some p') < pipe_size (Some p)" "wr_events w = [] \<Longrightarrow> wr_events w' = []"
    "pipe_ok (Some p) \<Longrightarrow> pipe_ok (Some p')"
proof -
  from assms obtain bs where rd: "read_pipe p = (Inr bs, p')" "bs \<noteq> []" and wr: "write_all w bs = (Inr (), w')"
    by (auto simp: copy_poll_def split: prod.splits sum.splits if_splits)
  show "wr_out w' @ pipe_bytes (Some p') = wr_out w @ pipe_bytes (Some p)"
    by (simp add: write_all_ok [OF wr] read_pipe_bytes [OF rd(1)])
  show "pipe_size (Some p') < pipe_size (Some p)" using rd by (rule read_pipe_size)
  show "wr_events w = [] \<Longrightarrow> wr_events w' = []" using wr by (auto simp: write_all_def)
  show "pipe_ok (Some p) \<Longrightarrow> pipe_ok (Some p')" using read_pipe_spec [OF rd(1)] by blast
qed

lemma copy_poll_ready:
  assumes "copy_poll (p, w) = Ready (p', w')"
  shows "prefix (wr_out w') (wr_out w @ pipe_bytes (Some p))"
    "wr_events w = [] \<Longrightarrow> pipe_ok (Some p) \<Longrightarrow> wr_out w' = wr_out w @ pipe_bytes (Some p)"
proof -
  obtain r q where rd: "read_pipe p = (r, q)" by fastforce
  show "prefix (wr_out w') (wr_out w @ pipe_bytes (Some p))"
  proof (cases r)
    case (Inl e)
    with assms rd show ?thesis by (simp add: copy_poll_def)
  next
    case (Inr bs)
    with assms rd show ?thesis
      by (auto simp: copy_poll_def read_pipe_bytes [OF rd [unfolded Inr]] dest!: write_all_prefix
          intro: prefix_prefix split: if_splits prod.splits sum.splits)
  qed
  show "wr_out w' = wr_out w @ pipe_bytes (Some p)" if "wr_events w = []" "pipe_ok (Some p)"
  proof (cases r)
    case (Inl e)
    then have "pipe_bytes (Some p) = []" using rd
      by (cases "Some p" rule: pipe_bytes.cases) (auto simp: read_pipe_def)
    with Inl assms rd show ?thesis by (simp add: copy_poll_def)
  next
    case (Inr bs)
    with assms rd that read_pipe_spec [OF rd [unfolded Inr] that(2)] show ?thesis
      by (auto simp: copy_poll_def write_all_def split: if_splits)
  qed
qed

subsection \<open>What a bridge keeps\<close>

text \<open>What a direction has delivered and will still deliver; a direction in which nothing fails.\<close>

definition carried :: "pipe \<times> writer \<Rightarrow> string" where
  "carried d = wr_out (snd d) @ pipe_bytes (Some (fst d))"

definition reliable :: "pipe \<times> writer \<Rightarrow> bool" where
  "reliable d \<longleftrightarrow> wr_events (snd d) = [] \<and> pipe_ok (Some (fst d))"

abbreviation heard :: "pipe \<times> writer \<Rightarrow> string" where
  "heard d \<equiv> wr_out (snd d)"

definition bridge_inv :: "bridge \<Rightarrow> bridge \<Rightarrow> bool" where
  "bridge_inv b0 b =
     (case b of
        Bridging up down \<Rightarrow>
          carried up = carried (up_dir b0) \<and> carried down = carried (down_dir b0) \<and>
          (reliable (up_dir b0) \<longrightarrow> reliable up) \<and> (reliable (down_dir b0) \<longrightarrow> reliable down)
      | Closed up down \<Rightarrow>
          prefix (heard up) (carried (up_dir b0)) \<and> prefix (heard down) (carried (down_dir b0)) \<and>
          (reliable (up_dir b0) \<and> reliable (down_dir b0) \<longrightarrow>
             heard up = carried (up_dir b0) \<or> heard down = carried (down_dir b0)))"

lemma copy_step_carried: "copy_poll d = Step d' \<Longrightarrow> carried d' = carried d \<and> (reliable d \<longrightarrow> reliable d')"
  by (cases d; cases d') (auto simp: carried_def reliable_def dest: copy_poll_step)

lemma copy_ready_carried:
  "copy_poll d = Ready d' \<Longrightarrow> prefix (heard d') (carried d) \<and> (reliable d \<longrightarrow> heard d' = carried d)"
  by (cases d; cases d') (auto simp: carried_def reliable_def dest: copy_poll_ready)

lemma heard_prefix_carried [simp]: "prefix (heard d) (carried d)"
  by (simp add: carried_def)

lemma bridge_inv_refl: "bridge_inv (open_bridge l) (open_bridge l)"
  by (simp add: bridge_inv_def open_bridge_def)

lemma bridge_inv_step:
  assumes "bridge_inv b0 b" "bridge_step b b'"
  shows "bridge_inv b0 b'"
  using assms(2,1)
proof cases
  case (to_agent up up' down)
  with copy_step_carried [OF to_agent(3)] assms(1) show ?thesis by (simp add: bridge_inv_def)
next
  case (to_agent_ends up up' down)
  with copy_ready_carried [OF to_agent_ends(3)] assms(1) heard_prefix_carried [of down]
  show ?thesis by (auto simp: bridge_inv_def simp del: heard_prefix_carried)
next
  case (to_client down down' up)
  with copy_step_carried [OF to_client(3)] assms(1) show ?thesis by (simp add: bridge_inv_def)
next
  case (to_client_ends down down' up)
  with copy_ready_carried [OF to_client_ends(3)] assms(1) heard_prefix_carried [of up]
  show ?thesis by (auto simp: bridge_inv_def simp del: heard_prefix_carried)
qed

lemma bridge_inv_heard:
  assumes "bridge_inv b0 b"
  shows "prefix (heard (up_dir b)) (carried (up_dir b0))" "prefix (heard (down_dir b)) (carried (down_dir b0))"
  using assms heard_prefix_carried [of "up_dir b"] heard_prefix_carried [of "down_dir b"]
  by (auto simp: bridge_inv_def simp del: heard_prefix_carried split: bridge.splits)

lemma bridge_inv_transparent:
  assumes "bridge_inv (open_bridge l) b"
  shows "prefix (heard (up_dir b)) (carried (le_client_says l, le_agent_hears l))"
    "prefix (heard (down_dir b)) (carried (le_agent_says l, le_client_hears l))"
    "is_closed b \<Longrightarrow> reliable (le_client_says l, le_agent_hears l) \<Longrightarrow>
      reliable (le_agent_says l, le_client_hears l) \<Longrightarrow>
      heard (up_dir b) = carried (le_client_says l, le_agent_hears l) \<or>
      heard (down_dir b) = carried (le_agent_says l, le_client_hears l)"
  using bridge_inv_heard [OF assms] assms
  by (cases b; simp add: open_bridge_def bridge_inv_def)+

lemma proxy_inv:
  assumes "proxy_step\<^sup>*\<^sup>* proxy_started px"
  shows "list_all (\<lambda>(l, b). bridge_inv (open_bridge l) b) (px_bridges px)"
  using assms
proof (induction rule: rtranclp_induct)
  case base
  then show ?case by (simp add: proxy_started_def)
next
  case (step px px')
  from step(2,3) show ?case
  proof cases
    case (accept l)
    with step(3) show ?thesis by (simp add: bridge_inv_refl)
  next
    case (bridge_moves k l b b')
    with step(3) have "bridge_inv (open_bridge l) b" by (auto simp: list_all_length)
    with bridge_moves step(3) show ?thesis
      by (auto simp: list_all_length nth_list_update intro: bridge_inv_step)
  qed simp_all
qed

definition bridge_measure :: "bridge \<Rightarrow> nat" where
  "bridge_measure b =
     (case b of
        Bridging up down \<Rightarrow> 1 + pipe_size (Some (fst up)) + pipe_size (Some (fst down))
      | Closed _ _ \<Rightarrow> 0)"

lemma bridge_step_decreases: "bridge_step b b' \<Longrightarrow> bridge_measure b' < bridge_measure b"
  by (cases rule: bridge_step.cases, assumption) (auto simp: bridge_measure_def dest: copy_poll_step(2))

subsection \<open>Properties\<close>

text \<open>
  The proxy is transparent: however many children connect, and however their bridges are
  interleaved, what the agent has heard on a connection is a beginning of what that client said and
  what the client has heard is a beginning of what the agent said on that connection; nothing is
  changed, reordered or delivered to another connection. A bridge always ends, and if nothing
  failed it ends only when one of the two directions was delivered to its end.
\<close>

theorem agent_proxy_transparent:
  assumes "proxy_step\<^sup>*\<^sup>* proxy_started px"
  shows "list_all (\<lambda>(l, b).
      prefix (heard (up_dir b)) (carried (le_client_says l, le_agent_hears l)) \<and>
      prefix (heard (down_dir b)) (carried (le_agent_says l, le_client_hears l)) \<and>
      (is_closed b \<and> reliable (le_client_says l, le_agent_hears l) \<and> reliable (le_agent_says l, le_client_hears l) \<longrightarrow>
         heard (up_dir b) = carried (le_client_says l, le_agent_hears l) \<or>
         heard (down_dir b) = carried (le_agent_says l, le_client_hears l))) (px_bridges px) \<and>
    wfp (\<lambda>b' b. bridge_step b b')"
proof
  show "wfp (\<lambda>b' b. bridge_step b b')"
    by (rule wfp_if_convertible_to_nat [where f = bridge_measure]) (rule bridge_step_decreases)
qed (use proxy_inv [OF assms] in \<open>auto simp: list_all_iff dest: bridge_inv_transparent\<close>)

definition example_link :: link_ends where
  "example_link = \<lparr>le_client_says = [Inr ''sign''], le_client_hears = \<lparr>wr_out = [], wr_events = []\<rparr>,
     le_agent_says = [Inr ''signature''], le_agent_hears = \<lparr>wr_out = [], wr_events = []\<rparr>\<rparr>"

text \<open>
  The first direction to end ends the bridge: a client that stops sending right after its request
  may not hear the answer.
\<close>

lemma half_close_may_drop_answer:
  "\<exists>b. bridge_step\<^sup>*\<^sup>* (open_bridge example_link) b \<and> is_closed b \<and> heard (up_dir b) = ''sign'' \<and> heard (down_dir b) = []"
proof -
  let ?w = "\<lparr>wr_out = [], wr_events = []\<rparr> :: writer"
  let ?down = "([Inr ''signature''], ?w) :: pipe \<times> writer"
  have "bridge_step (open_bridge example_link) (Bridging ([], ?w\<lparr>wr_out := ''sign''\<rparr>) ?down)"
    unfolding open_bridge_def example_link_def
    by (simp add: bridge_step_Bridging copy_poll_def read_pipe_def READ_BUF_SIZE_def write_all_def)
  moreover have "bridge_step (Bridging ([], ?w\<lparr>wr_out := ''sign''\<rparr>) ?down) (Closed ([], ?w\<lparr>wr_out := ''sign''\<rparr>) ?down)"
    by (simp add: bridge_step_Bridging copy_poll_def read_pipe_def flush_def)
  ultimately show ?thesis
    by (intro exI [of _ "Closed ([], ?w\<lparr>wr_out := ''sign''\<rparr>) ?down"]) (simp add: rtranclp.rtrancl_into_rtrancl)
qed

theorem agent_proxy_transparent_witness:
  "\<exists>px. proxy_step\<^sup>*\<^sup>* proxy_started px \<and> px_bridges px = [(example_link, open_bridge example_link)] \<and>
     prefix (heard (down_dir (open_bridge example_link))) ''signature''"
proof -
  let ?px = "proxy_started\<lparr>px_bridges := [(example_link, open_bridge example_link)]\<rparr>"
  have "proxy_step\<^sup>*\<^sup>* proxy_started ?px"
    using proxy_step.accept [of proxy_started example_link] by (simp add: proxy_started_def r_into_rtranclp)
  moreover from agent_proxy_transparent [OF this] have "prefix (heard (down_dir (open_bridge example_link))) ''signature''"
    by (simp add: carried_def example_link_def)
  ultimately show ?thesis by (intro exI [of _ ?px]) (simp add: proxy_started_def)
qed

end
