(* ===== verification/Session.thy ===== *)
theory Session
  imports Commands "HOL-Library.Sublist"
begin

section \<open>A session between a client and the broker\<close>

text \<open>
  The client's relay and the broker's connection handler joined by a socket: what the client has put
  on the wire is what the broker reads, in pieces of any size, and what the broker has written is
  what the client reads, in pieces of any size.
\<close>

subsection \<open>The child behind a connection\<close>

definition child_ran :: "outside \<Rightarrow> request \<Rightarrow> conn \<Rightarrow> ran \<Rightarrow> conn \<Rightarrow> bool" where
  "child_ran x req c q c' \<longleftrightarrow>
     (\<exists>spec r s c1. stream_child (x_ser x) (x_de x) (x_getenv x) (x_kernel x) (x_daemon x) (x_children x) spec
          (if client_frames req then cn_in c else []) c = (r, Some q, s, c1) \<and>
        cs_args spec = args req \<and> cn_writer c' = cn_writer c1 \<and> cn_sent c' = cn_sent c1)"

lemma stream_child_over_connection_ran:
  assumes "stream_child_over_connection x spec req c b = (c', b')" "cs_args spec = args req"
  shows "b' = b \<or> (\<exists>q. b' = record_event (Spawned q) b \<and> child_ran x req c q c')"
proof -
  obtain r rn s c1 where run: "stream_child (x_ser x) (x_de x) (x_getenv x) (x_kernel x) (x_daemon x)
      (x_children x) spec (if client_frames req then cn_in c else []) c = (r, rn, s, c1)"
    by (metis prod_cases4)
  with assms(1) have c': "cn_writer c' = cn_writer c1" "cn_sent c' = cn_sent c1"
    and b': "b' = (case rn of None \<Rightarrow> b | Some q \<Rightarrow> record_event (Spawned q) b)"
    by (auto simp: stream_child_over_connection_def Let_def shutdown_def)
  show ?thesis
  proof (cases rn)
    case (Some q)
    with run c' assms(2) have "child_ran x req c q c'" unfolding child_ran_def by blast
    with Some b' show ?thesis by auto
  qed (simp add: b')
qed

lemma child_spec_args [simp]: "cs_args (child_spec_for prog req vars ident) = args req"
  by (simp add: child_spec_for_def)

lemma run_allowed_ran:
  assumes "run_allowed x req ident root res c b = (r, c', b')" "b_events b' = b_events b @ new" "Spawned q \<in> set new"
  shows "child_ran x req c q c'"
proof -
  obtain creds vars keep agent acts where pre:
    "load_user_credentials x (pid_username ident) root = Inr creds"
    "build_env x (tool req) res creds = (Inr (vars, keep, agent), acts)"
    using assms by (auto simp: run_allowed_def split: sum.splits prod.splits)
  let ?spec = "child_spec_for (tool_name (tool req)) req vars ident"
  obtain c1 b2 where run: "stream_child_over_connection x ?spec req c (record_event (AgentActions acts) b) = (c1, b2)"
    by fastforce
  have c': "c' = c1" and "\<exists>rest. b_events b' = b_events b2 @ rest \<and> no_streamed rest"
    using assms(1) pre run by (auto simp: run_allowed_def Let_def split: option.splits)
  then obtain rest where rest: "b_events b' = b_events b2 @ rest" "no_streamed rest" by blast
  from stream_child_over_connection_ran [OF run] assms(2,3) rest no_streamed_not_in [OF rest(2)] c'
  show ?thesis by auto
qed

lemma handle_gh_passthrough_ran:
  assumes "handle_gh_passthrough x req ident root c b = (r, c', b')" "b_events b' = b_events b @ new" "Spawned q \<in> set new"
  shows "child_ran x req c q c'"
proof -
  obtain creds where creds: "load_user_credentials x (pid_username ident) root = Inr creds"
    using assms by (auto simp: handle_gh_passthrough_def split: sum.splits prod.splits)
  let ?spec = "child_spec_for ''gh'' req (gh_env (x_getenv x) (token creds)) ident"
  obtain e where "stream_child_over_connection x ?spec req c (write_audit x e b) = (c', b')"
    using assms(1) creds by (auto simp: handle_gh_passthrough_def Let_def split: prod.splits)
  from stream_child_over_connection_ran [OF this] assms(2,3) show ?thesis by auto
qed

lemma process_request_ran:
  assumes "process_request x req ident ctx c b = (r, c', b')" "b_events b' = b_events b @ new" "Spawned q \<in> set new"
  shows "child_ran x req c q c'"
proof -
  consider (other) "tool req \<notin> {Git, Gh}" | (pass) "tool req = Gh" "\<not> gh_is_broker_op (args req)"
    | (med) "tool req \<in> {Git, Gh}" "process_mediated x req ident ctx c b = (r, c', b')"
    using assms(1) by (fastforce simp: process_request_def split: if_splits)
  then show ?thesis
  proof cases
    case other
    from other_tools_no_streamed [OF assms(1) other] assms(2,3) show ?thesis by (auto dest: no_streamed_not_in)
  next
    case pass
    with assms(1) have "handle_gh_passthrough x req ident (ctx_credentials_root ctx) c b = (r, c', b')"
      by (simp add: process_request_def)
    from handle_gh_passthrough_ran [OF this assms(2,3)] show ?thesis .
  next
    case med
    from med(2) show ?thesis
    proof (cases rule: process_mediated_cases)
      case (denied e reason)
      with deny_request_result(1) [OF denied] assms(2,3) show ?thesis by auto
    next
      case (allowed res)
      from run_allowed_ran [OF allowed(3), of "tl new" q] assms(2,3) run_allowed_events [OF allowed(3)]
      show ?thesis by auto
    qed
  qed
qed

subsection \<open>A relay in which nothing fails\<close>

text \<open>A pipe none of whose reads fails, and an encoder that encodes what a relayed child can cause.\<close>

definition healthy :: "pipe option \<Rightarrow> bool" where
  "healthy p = (case p of None \<Rightarrow> True | Some q \<Rightarrow> list_all (\<lambda>v. \<exists>bs. v = Inr bs \<and> bs \<noteq> []) q)"

definition encodes_output :: "frame_encoder \<Rightarrow> bool" where
  "encodes_output ser \<longleftrightarrow>
     (\<forall>f. chunk_ok f \<or> (\<exists>code. f = Exit code) \<longrightarrow> (\<exists>body. ser f = Inr body \<and> length body \<le> unat MAX_FRAME_LEN))"

lemma healthy_ok: "healthy p \<Longrightarrow> pipe_ok p"
  by (auto simp: healthy_def pipe_ok_def list_all_iff split: option.splits)

lemma send_frame_quiet:
  assumes "encodes_output ser" "wr_events (cn_writer c) = []" "chunk_ok f \<or> (\<exists>code. f = Exit code)"
  shows "\<exists>c'. send_frame ser f c = (Inr (), c') \<and> wr_events (cn_writer c') = []"
proof -
  from assms(1,3) obtain body where "ser f = Inr body" "length body \<le> unat MAX_FRAME_LEN"
    unfolding encodes_output_def by blast
  with assms(2) show ?thesis by (simp add: send_frame_def write_frame_def write_all_def)
qed

lemma pump_healthy:
  assumes "healthy (Some p)" "encodes_output ser" "wr_events (cn_writer c) = []" "mk \<in> {StdoutChunk, StderrChunk}"
  shows "\<exists>p' c'. pump ser mk p c = (Inr p', c') \<and> healthy p' \<and> wr_events (cn_writer c') = []"
proof (cases p)
  case Nil
  with assms show ?thesis by (simp add: pump_def read_pipe_def healthy_def)
next
  case (Cons v rest)
  with assms(1) obtain bs where bs: "v = Inr bs" "bs \<noteq> []" and rest: "healthy (Some rest)"
    by (auto simp: healthy_def)
  define p' where "p' = (if length bs \<le> READ_BUF_SIZE then rest else Inr (drop READ_BUF_SIZE bs) # rest)"
  have rd: "read_pipe p = (Inr (take READ_BUF_SIZE bs), p')" using Cons bs by (simp add: read_pipe_def p'_def)
  have p': "healthy (Some p')" using rest by (simp add: p'_def healthy_def)
  have ne: "take READ_BUF_SIZE bs \<noteq> []" using bs(2) by (simp add: READ_BUF_SIZE_def)
  then have "chunk_ok (mk (take READ_BUF_SIZE bs))" using assms(4) by (auto simp: chunk_ok_def)
  with send_frame_quiet [OF assms(2,3)] obtain c' where
    "send_frame ser (mk (take READ_BUF_SIZE bs)) c = (Inr (), c')" "wr_events (cn_writer c') = []" by blast
  with rd ne p' show ?thesis by (simp add: pump_def)
qed

lemma stream_pipes_healthy:
  assumes "healthy stdout" "healthy stderr" "encodes_output ser" "wr_events (cn_writer c) = []"
  shows "\<exists>c'. stream_pipes ser sched stdout stderr c = (Inr (), c') \<and> wr_events (cn_writer c') = []"
  using assms
proof (induction "pipe_size stdout + pipe_size stderr" arbitrary: sched stdout stderr c rule: less_induct)
  case (less stdout stderr sched c)
  have turn: "\<exists>p' c1. pump ser mk p c = (Inr p', c1) \<and> healthy p' \<and> wr_events (cn_writer c1) = [] \<and>
      pipe_size p' < pipe_size (Some p)"
    if "healthy (Some p)" "mk \<in> {StdoutChunk, StderrChunk}" for mk p
    using pump_healthy [OF that(1) less.prems(3,4) that(2)] pump_size by blast
  have out: "\<exists>c'. (case pump ser StdoutChunk p c of (Inl e, c1) \<Rightarrow> (Inl e, c1)
       | (Inr p', c1) \<Rightarrow> stream_pipes ser sd p' stderr c1) = (Inr (), c') \<and> wr_events (cn_writer c') = []"
    if "stdout = Some p" for p sd
    using turn [of p StdoutChunk] less.hyps [where stderr = stderr] less.prems that by fastforce
  have err: "\<exists>c'. (case pump ser StderrChunk p c of (Inl e, c1) \<Rightarrow> (Inl e, c1)
       | (Inr p', c1) \<Rightarrow> stream_pipes ser sd stdout p' c1) = (Inr (), c') \<and> wr_events (cn_writer c') = []"
    if "stderr = Some p" for p sd
    using turn [of p StderrChunk] less.hyps [where stdout = stdout] less.prems that by fastforce
  show ?case
  proof (cases stdout)
    case None
    with less.prems(4) err show ?thesis by (cases stderr) (auto simp: stream_pipes_cases)
  next
    case (Some p)
    note so = this
    show ?thesis
    proof (cases stderr)
      case None
      with out [OF so, of sched] so show ?thesis unfolding None so stream_pipes_cases by simp
    next
      case (Some q)
      from out [OF so, of "tl sched"] err [OF Some, of "tl sched"] show ?thesis
        unfolding Some so stream_pipes_cases by simp
    qed
  qed
qed

lemma stream_child_healthy:
  assumes "stream_child ser de getenv k d children spec s c = (r, Some q, s', c')"
    and "healthy (Some (ch_stdout (children (ran_command q) (ran_proc q))))"
    and "healthy (Some (ch_stderr (children (ran_command q) (ran_proc q))))"
    and "ch_wait (children (ran_command q) (ran_proc q)) = Inr status"
    and "encodes_output ser" "wr_events (cn_writer c) = []"
  shows "r = Inr ()"
proof -
  let ?cmd = "apply_privilege_drop (p_euid d) spec (build_command getenv spec)"
  from assms(1) obtain p where sp: "spawn k ?cmd d = Inr p"
    by (auto simp: stream_child_def Let_def split: sum.splits prod.splits)
  with assms(1) have q: "ran_command q = ?cmd" "ran_proc q = p"
    by (auto simp: stream_child_def Let_def split: sum.splits prod.splits)
  let ?ch = "children ?cmd p"
  from stream_pipes_healthy [OF assms(2,3,5,6), of "ch_sched ?ch"] q obtain c1 where
    c1: "stream_pipes ser (ch_sched ?ch) (Some (ch_stdout ?ch)) (Some (ch_stderr ?ch)) c = (Inr (), c1)"
      "wr_events (cn_writer c1) = []" by auto
  from send_frame_quiet [OF assms(5) c1(2), of "Exit (exit_code_from_status status)"] obtain c2 where
    "send_frame ser (Exit (exit_code_from_status status)) c1 = (Inr (), c2)" by auto
  with assms(1,4) sp q c1(1) show ?thesis by (auto simp: stream_child_def Let_def split: prod.splits)
qed

subsection \<open>Standard input, as far as it got\<close>

lemma read_frame_at_eof: "sock_ok s \<Longrightarrow> sock_content s = [] \<Longrightarrow> \<exists>e s'. sock_read_frame de s = (Inl e, s')"
  using sock_read_exact_eof [of s 4] by (auto simp: read_frame_def split: prod.splits sum.splits)

text \<open>However many turns the broker's input side gets, the child has read a beginning of the chunks sent.\<close>

lemma stdin_polls_prefix:
  assumes "write_frames ser w0 (map StdinChunk cs @ fin) = (Inr u, w1)" "fin = [] \<or> fin = [StdinEof]"
    and "\<And>v body. ser v = Inr body \<Longrightarrow> de body = Inr v"
    and "sock_ok s" "wr_out w0 @ sock_content s = wr_out w1"
  shows "prefix (wr_out (snd (run_polls (stdin_poll de) n (s, w)))) (wr_out w @ concat cs)"
  using assms
proof (induction n arbitrary: cs w0 s w)
  case 0
  then show ?case by simp
next
  case (Suc n)
  show ?case
  proof (cases cs)
    case Nil
    show ?thesis
    proof (cases "fin = []")
      case True
      with Nil Suc.prems(1,5) have "sock_content s = []" by simp
      from read_frame_at_eof [OF Suc.prems(4) this, of de] show ?thesis by (auto simp: stdin_poll_def)
    next
      case False
      with Suc.prems(1,2) Nil have w: "write_frames ser w0 [StdinEof] = (Inr u, w1)" by simp
      from read_frames_written [OF w _ Suc.prems(4), of de "[]"] Suc.prems(3,5) obtain s1 where
        "read_frames de (length [StdinEof]) s = (Inr [StdinEof], s1)" by auto
      then have "\<exists>s1. sock_read_frame de s = (Inr StdinEof, s1)" by (auto split: prod.splits sum.splits)
      then show ?thesis by (auto simp: stdin_poll_def)
    qed
  next
    case (Cons bs cs')
    from Suc.prems(1) Cons obtain w2 u2 where w2: "write_frame ser w0 (StdinChunk bs) = (Inr u2, w2)"
      "write_frames ser w2 (map StdinChunk cs' @ fin) = (Inr u, w1)"
      by (auto split: prod.splits sum.splits)
    from write_frame_ok [OF w2(1)] obtain body where b: "ser (StdinChunk bs) = Inr body"
      "length body \<le> unat MAX_FRAME_LEN" "wr_out w2 = wr_out w0 @ frame_bytes body" by blast
    obtain tail where t: "wr_out w1 = wr_out w2 @ tail" using write_frames_extends [OF w2(2)] by blast
    have "sock_content s = frame_bytes body @ tail" using Suc.prems(5) b(3) t by simp
    from read_frame_written [OF Suc.prems(4) this b(2), of de] Suc.prems(3) [OF b(1)] obtain s1 where
      s1: "sock_read_frame de s = (Inr (StdinChunk bs), s1)" "sock_ok s1" "sock_content s1 = tail" by auto
    obtain r w' where wa: "write_all w bs = (r, w')" by fastforce
    show ?thesis
    proof (cases r)
      case (Inl e)
      with wa have "\<exists>part. prefix part bs \<and> wr_out w' = wr_out w @ part"
        by (auto simp: write_all_def take_is_prefix split: list.splits write_event.splits)
      with wa Inl s1(1) Cons show ?thesis by (auto simp: stdin_poll_def intro: prefix_prefix)
    next
      case (Inr v)
      have "wr_out w2 @ sock_content s1 = wr_out w1" using s1(3) t by simp
      from Suc.IH [OF w2(2) Suc.prems(2,3) s1(2) this, of w'] write_all_ok [OF wa [unfolded Inr]]
      show ?thesis using s1(1) wa Inr Cons by (simp add: stdin_poll_def)
    qed
  qed
qed

text \<open>However many turns the client's pump gets, it has sent whole frames with a beginning of the input.\<close>

lemma pump_polls_frames:
  assumes "encodes_input ser" "pipe_ok (Some src)" "wr_events (wh_writer h) = []"
  shows "\<exists>cs fin w'. write_frames ser (wh_writer h) (map StdinChunk cs @ fin) = (Inr (), w') \<and>
    (fin = [] \<or> fin = [StdinEof]) \<and> prefix (concat cs) (pipe_bytes (Some src)) \<and>
    wh_writer (fst (run_polls (pump_poll ser) n (h, src))) = w'"
  using assms
proof (induction n arbitrary: h src)
  case 0
  show ?case by (intro exI [where x = "[]"]) simp
next
  case (Suc n)
  obtain r src' where rd: "read_pipe src = (r, src')" by fastforce
  have ended: ?case if "pump_poll ser (h, src) = Ready (finish_pump ser (wh_writer h), src')"
  proof -
    from write_frame_quiet [OF Suc.prems(1,3), of StdinEof] obtain w1 where "write_frame ser (wh_writer h) StdinEof = (Inr (), w1)"
      by auto
    with that show ?thesis
      by (intro exI [where x = "[] :: string list"] exI [where x = "[StdinEof]"] exI [where x = w1])
        (simp add: finish_pump_def)
  qed
  show ?case
  proof (cases r)
    case (Inl e)
    with rd show ?thesis by (intro ended) (simp add: pump_poll_unfold)
  next
    case (Inr bs)
    note sp = read_pipe_spec [OF rd [unfolded Inr] Suc.prems(2)]
    show ?thesis
    proof (cases "bs = []")
      case True
      with rd Inr show ?thesis by (intro ended) (simp add: pump_poll_unfold)
    next
      case False
      from sp write_frame_quiet [OF Suc.prems(1,3), of "StdinChunk bs"] obtain w2 where
        w2: "write_frame ser (wh_writer h) (StdinChunk bs) = (Inr (), w2)" "wr_events w2 = []"
        by (auto simp: STDIN_CHUNK_SIZE_def)
      let ?h = "h\<lparr>wh_writer := w2\<rparr>"
      from Suc.IH [OF Suc.prems(1), of src' ?h] sp w2(2) obtain cs fin w' where
        ih: "write_frames ser w2 (map StdinChunk cs @ fin) = (Inr (), w')" "fin = [] \<or> fin = [StdinEof]"
          "prefix (concat cs) (pipe_bytes (Some src'))"
          "wh_writer (fst (run_polls (pump_poll ser) n (?h, src'))) = w'" by auto
      have "pump_poll ser (h, src) = Step (?h, src')" using rd Inr False w2(1) by (simp add: pump_poll_unfold)
      with ih w2(1) sp show ?thesis
        by (intro exI [where x = "bs # cs"] exI [where x = fin] exI [where x = w']) simp
    qed
  qed
qed

subsection \<open>The two ends together\<close>

text \<open>
  What the client's user typed; and the wires: everything the client wrote is what the broker reads,
  everything the broker wrote is what the client reads, and no write to the socket fails.
\<close>

definition typed :: "client_world \<Rightarrow> tool \<Rightarrow> string" where
  "typed cw t = pipe_bytes (map_option (source_pipe (cw_stdin cw)) (caller_stdin t (cw_terminal cw)))"

definition wired :: "link \<Rightarrow> relay_result \<Rightarrow> conn \<Rightarrow> conn \<Rightarrow> bool" where
  "wired lk res c c' \<longleftrightarrow>
     lk_writes lk = [] \<and> cn_writer c = \<lparr>wr_out = [], wr_events = []\<rparr> \<and>
     sock_ok (cn_in c) \<and> map_option (\<lambda>h. wr_out (wh_writer h)) (rl_sent res) = Some (sock_content (cn_in c)) \<and>
     sock_ok (lk_responses lk) \<and> sock_content (lk_responses lk) = wr_out (cn_writer c')"

lemma relay_cases:
  assumes "relay cw t as dir path url branch out err = res" "cw_connect cw path = Inr lk" "lk_writes lk = []"
    and "encodes_input (cw_ser cw)" "pipe_ok (Some (cw_stdin cw))"
  obtains (unsent) "map_option (\<lambda>h. wr_out (wh_writer h)) (rl_sent res) = Some []"
      "\<not> (\<exists>body. cw_ser_request cw (gateway_request t as dir url branch (caller_stdin t (cw_terminal cw) \<noteq> None)) =
        Inr body \<and> length body \<le> unat MAX_FRAME_LEN)"
  | (sent) body cs fin w w' where
      "cw_ser_request cw (gateway_request t as dir url branch (caller_stdin t (cw_terminal cw) \<noteq> None)) = Inr body"
      "length body \<le> unat MAX_FRAME_LEN" "wr_out w = frame_bytes body"
      "write_frames (cw_ser cw) w (map StdinChunk cs @ fin) = (Inr (), w')" "fin = [] \<or> fin = [StdinEof]"
      "prefix (concat cs) (typed cw t)" "map_option (\<lambda>h. wr_out (wh_writer h)) (rl_sent res) = Some (wr_out w')"
      "(rl_code res, rl_out res, rl_err res) = read_responses (cw_de cw) (lk_responses lk) out err"
proof -
  let ?req = "gateway_request t as dir url branch (caller_stdin t (cw_terminal cw) \<noteq> None)"
  let ?src = "map_option (source_pipe (cw_stdin cw)) (caller_stdin t (cw_terminal cw))"
  obtain wr w where wf: "write_frame (cw_ser_request cw) \<lparr>wr_out = [], wr_events = []\<rparr> ?req = (wr, w)" by fastforce
  then have quiet: "wr_events w = []" by (auto simp: write_frame_def write_all_def split: sum.splits if_splits)
  show thesis
  proof (cases wr)
    case (Inl e)
    with wf have "wr_out w = []" "\<not> (\<exists>body. cw_ser_request cw ?req = Inr body \<and> length body \<le> unat MAX_FRAME_LEN)"
      by (auto simp: write_frame_def write_all_def split: sum.splits if_splits)
    with assms(1-3) wf Inl show thesis by (intro unsent) (auto simp: relay_def relay_request_def Let_def)
  next
    case (Inr u)
    from write_frame_ok [OF wf [unfolded Inr]] obtain body where body: "cw_ser_request cw ?req = Inr body"
      "length body \<le> unat MAX_FRAME_LEN" "wr_out w = frame_bytes body" by auto
    let ?h = "\<lparr>wh_writer = w, wh_shut = False\<rparr>"
    define h where "h = (case ?src of None \<Rightarrow> ?h
      | Some source \<Rightarrow> fst (run_polls (pump_poll (cw_ser cw)) (lk_turns lk) (?h, source)))"
    have res: "rl_sent res = Some h" "(rl_code res, rl_out res, rl_err res) = read_responses (cw_de cw) (lk_responses lk) out err"
      using assms(1-3) wf Inr
      by (auto simp: relay_def relay_request_def Let_def h_def split: prod.splits option.splits)
    have "\<exists>cs fin w'. write_frames (cw_ser cw) w (map StdinChunk cs @ fin) = (Inr (), w') \<and>
      (fin = [] \<or> fin = [StdinEof]) \<and> prefix (concat cs) (typed cw t) \<and> wh_writer h = w'"
    proof (cases ?src)
      case None
      then show ?thesis by (intro exI [where x = "[]"]) (simp add: h_def typed_def)
    next
      case (Some source)
      have "pipe_ok (Some source)"
      proof -
        obtain z where "source = source_pipe (cw_stdin cw) z" using Some by auto
        with assms(5) show ?thesis by (cases z) (simp_all add: source_pipe_def pipe_ok_def)
      qed
      from pump_polls_frames [OF assms(4) this, of ?h "lk_turns lk"] quiet
      show ?thesis unfolding h_def typed_def Some option.case by simp
    qed
    then obtain cs fin w' where f: "write_frames (cw_ser cw) w (map StdinChunk cs @ fin) = (Inr (), w')"
      "fin = [] \<or> fin = [StdinEof]" "prefix (concat cs) (typed cw t)" "wh_writer h = w'" by blast
    show thesis
      by (rule sent [OF body f(1-3) _ res(2)]) (simp add: res(1) f(4))
  qed
qed

text \<open>What the broker has understood and where it is in the stream, if it acted on a request.\<close>

lemma handle_connection_request:
  assumes "handle_connection x cred ctx c b = (r, c', b')" "b' \<noteq> b" "sock_ok (cn_in c)"
    and "sock_content (cn_in c) = frame_bytes body @ rest" "length body \<le> unat MAX_FRAME_LEN" "x_de_request x body = Inr req"
  obtains ident s where "peer_identity x cred = Some ident" "sock_ok s" "sock_content s = rest"
    "process_request x req ident ctx (c\<lparr>cn_in := s\<rparr>) b = (r, c', b')"
  using assms(1)
proof (cases rule: handle_connection_cases)
  case dropped
  with assms(2) show thesis by simp
next
  case (processed ident req' s)
  from read_frame_written [OF assms(3-5), of "x_de_request x"] assms(6) processed(2) have
    "req' = req" "sock_ok s" "sock_content s = rest" by auto
  with processed that show thesis by blast
qed

lemma handle_connection_unsent:
  assumes "handle_connection x cred ctx c b = (r, c', b')" "sock_ok (cn_in c)" "sock_content (cn_in c) = []"
  shows "b' = b"
  using assms(1) read_frame_at_eof [OF assms(2,3), of "x_de_request x"]
  by (cases rule: handle_connection_cases) auto

text \<open>A child that ran for a request whose input frames are those the client sent.\<close>

lemma child_ran_session:
  assumes "child_ran x req c q c'" "cn_writer c = \<lparr>wr_out = [], wr_events = []\<rparr>"
    and "\<And>v body. x_ser x v = Inr body \<Longrightarrow> de body = Inr v" "encodes_output (x_ser x)"
    and "\<And>cmd p. healthy (Some (ch_stdout (x_children x cmd p))) \<and> healthy (Some (ch_stderr (x_children x cmd p)))"
    and "ch_wait (x_children x (ran_command q) (ran_proc q)) = Inr status"
    and "sock_ok s" "sock_content s = wr_out (cn_writer c')" "wr_events out = []" "wr_events err = []"
  shows "cmd_args (ran_command q) = args req \<and>
    read_responses de s out err = (exit_code_from_status status,
      out\<lparr>wr_out := wr_out out @ pipe_bytes (Some (ch_stdout (x_children x (ran_command q) (ran_proc q))))\<rparr>,
      err\<lparr>wr_out := wr_out err @ pipe_bytes (Some (ch_stderr (x_children x (ran_command q) (ran_proc q))))\<rparr>)"
proof -
  from assms(1) obtain spec r s1 c1 where ch:
    "stream_child (x_ser x) (x_de x) (x_getenv x) (x_kernel x) (x_daemon x) (x_children x) spec
       (if client_frames req then cn_in c else []) c = (r, Some q, s1, c1)"
    "cs_args spec = args req" "cn_writer c' = cn_writer c1" unfolding child_ran_def by blast
  have r: "r = Inr ()"
    using stream_child_healthy [OF ch(1) _ _ assms(6,4)] assms(2,5) by simp
  have ok: "pipe_ok (Some (ch_stdout (x_children x cmd p))) \<and> pipe_ok (Some (ch_stderr (x_children x cmd p)))" for cmd p
    using assms(5) by (simp add: healthy_ok)
  from output_end_to_end [where s = s and out = out and err = err, OF ch(1) [unfolded r] ok assms(3,7) _ assms(9,10)]
    assms(2,6,8) ch(3) stream_child_spawned [OF ch(1)] ch(2)
  show ?thesis by simp
qed

lemma child_ran_stdin:
  assumes "child_ran x req c q c'"
    and "write_frames ser w0 (map StdinChunk cs @ fin) = (Inr u, w1)" "fin = [] \<or> fin = [StdinEof]"
    and "\<And>v body. ser v = Inr body \<Longrightarrow> x_de x body = Inr v"
    and "sock_ok (cn_in c)" "wr_out w0 @ sock_content (cn_in c) = wr_out w1"
  shows "prefix (ran_stdin q) (concat cs)"
proof -
  from assms(1) obtain spec r s1 c1 where ch:
    "stream_child (x_ser x) (x_de x) (x_getenv x) (x_kernel x) (x_daemon x) (x_children x) spec
       (if client_frames req then cn_in c else []) c = (r, Some q, s1, c1)" unfolding child_ran_def by blast
  define n where "n = ch_input_turns (x_children x (ran_command q) (ran_proc q))"
  define es where "es = ch_stdin (x_children x (ran_command q) (ran_proc q))"
  from ch have n: "ran_stdin q =
      wr_out (snd (run_polls (stdin_poll (x_de x)) n (if client_frames req then cn_in c else [], \<lparr>wr_out = [], wr_events = es\<rparr>)))"
    by (auto simp: stream_child_def Let_def n_def es_def split: sum.splits prod.splits)
  show ?thesis
  proof (cases "client_frames req")
    case True
    with stdin_polls_prefix [where n = n and w = "\<lparr>wr_out = [], wr_events = es\<rparr>", OF assms(2-6)] n show ?thesis by simp
  next
    case False
    have "write_frames ser w0 (map StdinChunk [] @ []) = (Inr (), w0)" by simp
    from stdin_polls_prefix [where n = n and w = "\<lparr>wr_out = [], wr_events = es\<rparr>" and s = "[]", OF this _ assms(4)] n False
    show ?thesis by simp
  qed
qed

subsection \<open>Properties\<close>

text \<open>
  C23. A whole session: a client relays a command, the broker reads what the client wrote and the client
  reads what the broker wrote, both in pieces of any size. If the broker runs a child for the
  connection, the child is run with the client's arguments, it reads a beginning of what the user
  typed, and the client's standard output and standard error receive exactly the child's, and its
  exit code is the child's, or 128 plus the signal that killed it.
\<close>

theorem session_end_to_end:
  assumes "relay cw t as dir path url branch out err = res" and "cw_connect cw path = Inr lk"
    and "handle_connection x cred ctx c b = (r, c', b')"
    and "b_events b' = b_events b @ new" "Spawned q \<in> set new"
    and "wired lk res c c'"
    and "\<And>v body. cw_ser_request cw v = Inr body \<Longrightarrow> x_de_request x body = Inr v"
    and "\<And>v body. cw_ser cw v = Inr body \<Longrightarrow> x_de x body = Inr v"
    and "\<And>v body. x_ser x v = Inr body \<Longrightarrow> cw_de cw body = Inr v"
    and "encodes_input (cw_ser cw)" "encodes_output (x_ser x)" "pipe_ok (Some (cw_stdin cw))"
    and "\<And>cmd p. healthy (Some (ch_stdout (x_children x cmd p))) \<and> healthy (Some (ch_stderr (x_children x cmd p)))"
    and "ch_wait (x_children x (ran_command q) (ran_proc q)) = Inr status"
    and "wr_events out = []" "wr_events err = []"
  shows "cmd_args (ran_command q) = as \<and> prefix (ran_stdin q) (typed cw t) \<and>
    rl_code res = exit_code_from_status status \<and>
    wr_out (rl_out res) = wr_out out @ pipe_bytes (Some (ch_stdout (x_children x (ran_command q) (ran_proc q)))) \<and>
    wr_out (rl_err res) = wr_out err @ pipe_bytes (Some (ch_stderr (x_children x (ran_command q) (ran_proc q))))"
proof -
  note w = assms(6) [unfolded wired_def]
  have acted: "b' \<noteq> b" using assms(4,5) by auto
  from assms(1,2) conjunct1 [OF w] assms(10,12) show ?thesis
  proof (cases rule: relay_cases)
    case unsent
    with w handle_connection_unsent [OF assms(3)] acted show ?thesis by simp
  next
    case (sent body cs fin w0 w1)
    obtain tail where t: "wr_out w1 = wr_out w0 @ tail" using write_frames_extends [OF sent(4)] by blast
    have "sock_content (cn_in c) = frame_bytes body @ tail" using w sent(3,7) t by simp
    from handle_connection_request [OF assms(3) acted _ this sent(2) assms(7) [OF sent(1)]] w
    obtain ident s where pr: "sock_ok s" "sock_content s = tail"
      "process_request x (gateway_request t as dir url branch (caller_stdin t (cw_terminal cw) \<noteq> None)) ident ctx
         (c\<lparr>cn_in := s\<rparr>) b = (r, c', b')" by blast
    note ran = process_request_ran [OF pr(3) assms(4,5)]
    from child_ran_session [OF ran _ assms(9,11,13,14), where s = "lk_responses lk" and out = out and err = err]
      w assms(15,16) sent(8)
    have out: "cmd_args (ran_command q) = as \<and> rl_code res = exit_code_from_status status \<and>
      wr_out (rl_out res) = wr_out out @ pipe_bytes (Some (ch_stdout (x_children x (ran_command q) (ran_proc q)))) \<and>
      wr_out (rl_err res) = wr_out err @ pipe_bytes (Some (ch_stderr (x_children x (ran_command q) (ran_proc q))))"
      by (simp add: gateway_request_def)
    have "prefix (ran_stdin q) (concat cs)"
      using child_ran_stdin [OF ran sent(4,5) assms(8)] pr(1,2) t by simp
    with sent(6) have "prefix (ran_stdin q) (typed cw t)" by (rule prefix_order.trans [rotated])
    with out show ?thesis by simp
  qed
qed

subsection \<open>An example session\<close>

definition wire_ser :: frame_encoder where
  "wire_ser f =
     (case f of
        StdoutChunk d \<Rightarrow> Inr (CHR ''o'' # d)
      | StderrChunk d \<Rightarrow> Inr (CHR ''e'' # d)
      | Exit code \<Rightarrow> Inr (CHR ''x'' # to_be_bytes code)
      | _ \<Rightarrow> Inl ''frame'')"

definition wire_de :: server_decoder where
  "wire_de b =
     (case b of
        CHR ''o'' # d \<Rightarrow> Inr (StdoutChunk d)
      | CHR ''e'' # d \<Rightarrow> Inr (StderrChunk d)
      | CHR ''x'' # d \<Rightarrow> Inr (Exit (from_be_bytes d))
      | _ \<Rightarrow> Inl ''frame'')"

lemma wire_codec: "wire_ser v = Inr body \<Longrightarrow> wire_de body = Inr v"
  by (auto simp: wire_ser_def wire_de_def split: server_frame.splits)

lemma wire_encodes: "encodes_output wire_ser"
  by (auto simp: encodes_output_def wire_ser_def chunk_ok_def READ_BUF_SIZE_def unat_MAX_FRAME_LEN to_be_bytes_def
      split: server_frame.splits)

definition session_request :: request where
  "session_request = example_push\<lparr>client_frames := True\<rparr>"

definition session_outside :: outside where
  "session_outside = example_outside\<lparr>x_ser := wire_ser, x_de_request := \<lambda>_. Inr session_request\<rparr>"

definition session_world :: "sock \<Rightarrow> client_world" where
  "session_world responses =
     \<lparr>cw_getenv = (\<lambda>_. None), cw_cwd = Inr ''/home/alice/w'', cw_fs = example_store, cw_terminal = False,
      cw_stdin = [Inr ''hello''], cw_runtime = None,
      cw_connect = (\<lambda>_. Inr \<lparr>lk_responses = responses, lk_writes = [], lk_turns = 5\<rparr>),
      cw_ser_request = (\<lambda>v. if v = session_request then Inr ''r'' else Inl ''request''),
      cw_ser = example_ser, cw_de = wire_de, cw_dbg = id\<rparr>"

lemma stdin_codec: "example_ser v = Inr body \<Longrightarrow> example_de body = Inr v"
  by (auto simp: example_ser_def example_de_def split: client_frame.splits)

lemma session_peer: "peer_identity session_outside (Inr 1000) = Some alice_identity"
  by (simp add: peer_identity_def session_outside_def example_outside_def alice_identity_def supplementary_gids_for_def)

lemma session_runs:
  "\<exists>c' b' pre q post. process_request session_outside session_request alice_identity example_ctx c example_broker =
     (Inr (), c', b') \<and> b_events b' = b_events example_broker @ pre @ Spawned q # post"
  unfolding session_outside_def session_request_def by (rule example_push_runs)

abbreviation session_relay :: "sock \<Rightarrow> relay_result" where
  "session_relay responses \<equiv> relay (session_world responses) Git [''push'', ''origin'', ''main''] ''/home/alice/w'' ''/s''
     (Some ''https://github.com/acme/web.git'') None quiet quiet"

lemma session_sent:
  "rl_sent (session_relay responses) = rl_sent (session_relay [])"
  "\<exists>tail. map_option (\<lambda>h. wr_out (wh_writer h)) (rl_sent (session_relay [])) = Some (frame_bytes ''r'' @ tail)"
proof -
  show "rl_sent (session_relay responses) = rl_sent (session_relay [])"
    by (simp add: relay_def relay_request_def session_world_def caller_stdin_def Let_def split: prod.split sum.split)
  have req: "gateway_request Git [''push'', ''origin'', ''main''] ''/home/alice/w'' (Some ''https://github.com/acme/web.git'') None
      True = session_request"
    by (simp add: gateway_request_def session_request_def example_push_def)
  let ?lk = "\<lparr>lk_responses = [], lk_writes = [], lk_turns = 5\<rparr>"
  have prems: "cw_connect (session_world []) ''/s'' = Inr ?lk" "lk_writes ?lk = []"
    "encodes_input (cw_ser (session_world []))" "pipe_ok (Some (cw_stdin (session_world [])))"
    by (simp_all add: session_world_def example_ser_encodes pipe_ok_def)
  show "\<exists>tail. map_option (\<lambda>h. wr_out (wh_writer h)) (rl_sent (session_relay [])) = Some (frame_bytes ''r'' @ tail)"
    using refl [of "session_relay []"] prems
  proof (cases rule: relay_cases)
    case unsent
    then show ?thesis by (simp add: session_world_def caller_stdin_def req unat_MAX_FRAME_LEN)
  next
    case (sent body cs fin w w')
    with write_frames_extends [OF sent(4)] show ?thesis by (auto simp: session_world_def caller_stdin_def req split: if_splits)
  qed
qed

theorem session_end_to_end_witness:
  "\<exists>responses res. session_relay responses = res \<and> rl_code res = 137 \<and> wr_out (rl_out res) = ''ok''"
proof -
  from session_sent(2) obtain tail where
    bytes: "map_option (\<lambda>h. wr_out (wh_writer h)) (rl_sent (session_relay [])) = Some (frame_bytes ''r'' @ tail)" by blast
  let ?c = "\<lparr>cn_in = [Chunk (frame_bytes ''r'' @ tail)], cn_writer = quiet, cn_sent = [], cn_shut = False\<rparr>"
  have "sock_ok (cn_in ?c)" by simp
  from read_frame_written [OF this, of "''r''" tail "x_de_request session_outside"] obtain s where
    s: "sock_read_frame (x_de_request session_outside) (cn_in ?c) = (Inr session_request, s)"
    by (auto simp: session_outside_def unat_MAX_FRAME_LEN)
  from session_runs obtain c' b' pre q post where run:
    "process_request session_outside session_request alice_identity example_ctx (?c\<lparr>cn_in := s\<rparr>) example_broker = (Inr (), c', b')"
    "b_events b' = b_events example_broker @ pre @ Spawned q # post" by blast
  have h: "handle_connection session_outside (Inr 1000) example_ctx ?c example_broker = (Inr (), c', b')"
    using run(1) s by (simp add: handle_connection_def session_peer)
  let ?lk = "\<lparr>lk_responses = [Chunk (wr_out (cn_writer c'))], lk_writes = [], lk_turns = 5\<rparr>"
  have "wired ?lk (session_relay (lk_responses ?lk)) ?c c'"
    unfolding wired_def session_sent(1) [of "lk_responses ?lk"] bytes by simp
  moreover have "cw_connect (session_world (lk_responses ?lk)) ''/s'' = Inr ?lk" by (simp add: session_world_def)
  moreover have "Spawned q \<in> set (pre @ Spawned q # post)" by simp
  ultimately have "cmd_args (ran_command q) = [''push'', ''origin'', ''main''] \<and> prefix (ran_stdin q) (typed (session_world (lk_responses ?lk)) Git) \<and>
      rl_code (session_relay (lk_responses ?lk)) = exit_code_from_status (Signaled 9) \<and>
      wr_out (rl_out (session_relay (lk_responses ?lk))) = wr_out quiet @
        pipe_bytes (Some (ch_stdout (x_children session_outside (ran_command q) (ran_proc q)))) \<and>
      wr_out (rl_err (session_relay (lk_responses ?lk))) = wr_out quiet @
        pipe_bytes (Some (ch_stderr (x_children session_outside (ran_command q) (ran_proc q))))"
    by (intro session_end_to_end [OF refl _ h run(2)])
      (auto simp: session_world_def session_outside_def example_outside_def wire_codec stdin_codec wire_encodes
        example_ser_encodes example_child_def healthy_def pipe_ok_def split: if_splits)
  moreover have "exit_code_from_status (Signaled 9) = 137"
    by (simp add: exit_code_from_status_def status_code_def status_signal_def SIGNAL_EXIT_OFFSET_def)
  moreover have "pipe_bytes (Some (ch_stdout (x_children session_outside cmd p))) = ''ok''" for cmd p
    by (simp add: session_outside_def example_outside_def example_child_def)
  ultimately show ?thesis by (intro exI conjI) auto
qed

end
