(* ===== verification/Monitor.thy ===== *)
theory Monitor
  imports Daemon Session
begin

section \<open>The daemon as a reference monitor\<close>

text \<open>
  What holds of the daemon's whole history, and of the replies, however requests interleave: why
  each child in the history was run, that one caller's reply tells nothing of the others, and that
  replies are complete.
\<close>

subsection \<open>The justification of a child\<close>

text \<open>The policies that were in force at some moment of a history that began with \<open>p0\<close>.\<close>

definition policies_of :: "policy \<Rightarrow> event list \<Rightarrow> policy set" where
  "policies_of p0 es = insert p0 {p. HandleStored p \<in> set es}"

text \<open>
  A child that was run after the events \<open>pre\<close> is justified if a record of an identified peer was
  handed to the log before it, nothing was run in between, and the record permits it.
\<close>

definition permits :: "outside \<Rightarrow> policy set \<Rightarrow> peer \<Rightarrow> audit_record \<Rightarrow> bool" where
  "permits x ps ident rec =
     (case ar_decision rec of
        AuditAllow \<Rightarrow>
          (\<exists>req res. \<exists>p\<in>ps. tool_name (tool req) = ar_tool rec \<and> args req = ar_args rec \<and> resolve_request x req = Inr res \<and>
             evaluate (x_glob x) p (policy_request_for (pid_username ident) res) = Allow \<and>
             ar_org rec = rr_org res \<and> ar_repo rec = rr_repo res \<and> ar_branch rec = rr_branch res \<and>
             ar_operation rec = tag (rr_operation res))
      | AuditPassthrough \<Rightarrow> ar_tool rec = ''gh'' \<and> \<not> gh_is_broker_op (ar_args rec)
      | AuditDeny _ \<Rightarrow> False)"

definition justified :: "outside set \<Rightarrow> policy \<Rightarrow> event list \<Rightarrow> ran \<Rightarrow> bool" where
  "justified W p0 pre q \<longleftrightarrow>
     (\<exists>before rec between x cred ident.
        pre = before @ Audited rec # between \<and> no_streamed between \<and>
        cmd_program (ran_command q) = ar_tool rec \<and> cmd_args (ran_command q) = ar_args rec \<and>
        x \<in> W \<and> peer_identity x cred = Some ident \<and> ar_user rec = pid_username ident \<and>
        permits x (policies_of p0 before) ident rec \<and>
        ran_proc q = child_ids (x_daemon x) ident (p_cwd (ran_proc q)))"

definition justified_history :: "outside set \<Rightarrow> policy \<Rightarrow> event list \<Rightarrow> bool" where
  "justified_history W p0 es \<longleftrightarrow> (\<forall>pre q post. es = pre @ Spawned q # post \<longrightarrow> justified W p0 pre q)"

lemma policies_of_append: "policies_of p0 es \<subseteq> policies_of p0 (es @ fs)"
  by (auto simp: policies_of_def)

lemma justified_history_Nil [simp]: "justified_history W p0 []"
  by (simp add: justified_history_def)

text \<open>A history can be extended by events without a child, or by one justified child.\<close>

lemma justified_history_quiet:
  assumes "justified_history W p0 es" "no_streamed new"
  shows "justified_history W p0 (es @ new)"
  unfolding justified_history_def
proof (intro allI impI)
  fix pre q post
  assume split: "es @ new = pre @ Spawned q # post"
  then consider us where "es = pre @ us" "us @ new = Spawned q # post"
    | us where "pre = es @ us" "new = us @ Spawned q # post"
    by (auto simp: append_eq_append_conv2)
  then show "justified W p0 pre q"
  proof cases
    case (1 us)
    with no_streamed_not_in [OF assms(2), of q] obtain us' where "us = Spawned q # us'"
      by (cases us) auto
    with 1 assms(1) show ?thesis by (simp add: justified_history_def)
  next
    case (2 us)
    with no_streamed_not_in [OF assms(2), of q] show ?thesis by simp
  qed
qed

lemma justified_history_spawn:
  assumes "justified_history W p0 es" "no_streamed new" "no_streamed rest" "justified W p0 (es @ new) q"
  shows "justified_history W p0 (es @ new @ Spawned q # rest)"
proof -
  from justified_history_quiet [OF assms(1,2)] have old: "justified_history W p0 (es @ new)" .
  have "justified_history W p0 ((es @ new) @ [Spawned q])"
    unfolding justified_history_def
  proof (intro allI impI)
    fix pre q' post
    assume split: "(es @ new) @ [Spawned q] = pre @ Spawned q' # post"
    show "justified W p0 pre q'"
    proof (cases post rule: rev_cases)
      case Nil
      with split assms(4) show ?thesis by simp
    next
      case (snoc post' e)
      with split have "es @ new = pre @ Spawned q' # post'" by simp
      with old show ?thesis by (simp add: justified_history_def)
    qed
  qed
  from justified_history_quiet [OF this assms(3)] show ?thesis by simp
qed

text \<open>Serving one request.\<close>

lemma process_request_handle:
  assumes "process_request x req ident ctx c b = (r, c', b')"
  shows "b_handle b' = b_handle b \<or> HandleStored (b_handle b') \<in> set (b_events b')"
proof (cases "tool req = AllowTool")
  case False
  with process_request_policies [OF assms] show ?thesis by (simp add: same_policies_def)
next
  case True
  with assms obtain r1 c1 where "handle_allow x (args req) ident (ctx_policy_path ctx) c b = (r1, c1, b')"
    by (auto simp: process_request_def split: prod.splits sum.splits)
  then show ?thesis
  proof (cases rule: handle_allow_cases)
    case (refused org repo reason)
    with refuse_allow_result(1) [OF refused] show ?thesis by simp
  next
    case (accepted a)
    from accepted(3) show ?thesis by (cases rule: apply_grant_cases) auto
  qed
qed

lemma runs_spec_ids:
  assumes "runs_spec x (child_spec_for prog req vars ident) q"
  shows "ran_proc q = child_ids (x_daemon x) ident (p_cwd (ran_proc q))"
  using runs_spec_identity [OF assms] by (simp add: child_ids_def)

lemma process_request_justified:
  assumes "process_request x req ident ctx c b = (r, c', b')" and "x \<in> W" "peer_identity x cred = Some ident"
    and "ctx_policy ctx \<in> policies_of p0 (b_events b)" "justified_history W p0 (b_events b)"
  shows "justified_history W p0 (b_events b')"
  using assms(1)
proof (cases rule: process_request_cases)
  case (no_child new)
  with justified_history_quiet [OF assms(5)] show ?thesis by simp
next
  case (passthrough creds rec q)
  have "permits x (policies_of p0 (b_events b)) ident rec"
    using passthrough by (simp add: permits_def)
  with passthrough runs_spec_command [OF passthrough(9)] runs_spec_ids [OF passthrough(9)] assms(2,3)
  have "justified W p0 (b_events b @ [Audited rec]) q"
    unfolding justified_def
    by (intro exI [where x = "b_events b"] exI [where x = rec] exI [where x = "[]"] exI [where x = x]
        exI [where x = cred] exI [where x = ident]) simp
  from justified_history_spawn [OF assms(5) _ _ this, of "[]"] passthrough(4) show ?thesis by simp
next
  case (mediated res creds vars keep agent acts q rest)
  let ?rec = "record_of x (resolved_entry ident req res)"
  have "permits x (policies_of p0 (b_events b)) ident ?rec"
    using mediated(2,3) assms(4) by (auto simp: permits_def record_of_def resolved_entry_def)
  with mediated runs_spec_command [OF mediated(8)] runs_spec_ids [OF mediated(8)] assms(2,3)
  have "justified W p0 (b_events b @ [Audited ?rec, AgentActions acts]) q"
    unfolding justified_def
    by (intro exI [where x = "b_events b"] exI [where x = ?rec] exI [where x = "[AgentActions acts]"] exI [where x = x]
        exI [where x = cred] exI [where x = ident]) (simp add: record_of_def resolved_entry_def)
  from justified_history_spawn [OF assms(5) _ mediated(7) this] mediated(6) show ?thesis by simp
qed

text \<open>The invariant of the daemon.\<close>

definition monitor_inv :: "outside set \<Rightarrow> policy \<Rightarrow> daemon \<Rightarrow> bool" where
  "monitor_inv W p0 d \<longleftrightarrow>
     justified_history W p0 (b_events (d_broker d)) \<and>
     b_handle (d_broker d) \<in> policies_of p0 (b_events (d_broker d)) \<and>
     (\<forall>t \<in> set (d_pending d). ctx_policy (fst (snd t)) \<in> policies_of p0 (b_events (d_broker d)))"

lemma monitor_inv_serve:
  assumes "handle_connection x cred ctx c b = (r, c', b')" and "x \<in> W"
    and "justified_history W p0 (b_events b)" "b_handle b \<in> policies_of p0 (b_events b)"
      "ctx_policy ctx \<in> policies_of p0 (b_events b)"
  shows "justified_history W p0 (b_events b') \<and> b_handle b' \<in> policies_of p0 (b_events b') \<and>
    policies_of p0 (b_events b) \<subseteq> policies_of p0 (b_events b')"
  using assms(1)
proof (cases rule: handle_connection_cases)
  case dropped
  with assms show ?thesis by simp
next
  case (processed ident req s)
  from process_request_extends [OF processed(3)] obtain new where new: "b_events b' = b_events b @ new" by blast
  then have sub: "policies_of p0 (b_events b) \<subseteq> policies_of p0 (b_events b')"
    by (simp add: policies_of_append)
  moreover have "b_handle b' \<in> policies_of p0 (b_events b')"
    using process_request_handle [OF processed(3)] assms(4) sub by (auto simp: policies_of_def)
  ultimately show ?thesis using process_request_justified [OF processed(3) assms(2) processed(1) assms(5,3)] by blast
qed

lemma monitor_inv_step:
  assumes "daemon_step W cfg d d'" "monitor_inv W p0 d"
  shows "monitor_inv W p0 d'"
  using assms(1)
proof (cases rule: daemon_step.cases)
  case (accept cred c)
  with assms(2) show ?thesis by (simp add: monitor_inv_def snapshot_def)
next
  case accept_failed
  with assms(2) show ?thesis by simp
next
  case (serve x before cred ctx c after r c' b')
  note inv = assms(2) [unfolded monitor_inv_def serve(3)]
  then have "ctx_policy ctx \<in> policies_of p0 (b_events (d_broker d))" by simp
  from monitor_inv_serve [OF serve(4,2) _ _ this] inv serve(1) show ?thesis
    by (auto simp: monitor_inv_def subset_iff)
next
  case stop
  with assms(2) show ?thesis by (simp add: monitor_inv_def)
qed

lemma monitor_inv_reachable:
  assumes "reachable W cfg b d" "b_events b = []"
  shows "monitor_inv W (b_handle b) d"
proof -
  from assms(1) have "(daemon_step W cfg)\<^sup>*\<^sup>* (initial b) d" by (simp add: reachable_def)
  then show ?thesis
  proof (induction rule: rtranclp_induct)
    case base
    with assms(2) show ?case by (simp add: monitor_inv_def initial_def policies_of_def)
  next
    case (step d d')
    then show ?case by (blast intro: monitor_inv_step)
  qed
qed


subsection \<open>What a reply depends on\<close>

text \<open>
  A step is uniform on a set of broker states if on all of them it gives the same answer, leaves the
  connection in the same state and adds the same events.
\<close>

definition uniform :: "broker set \<Rightarrow> (broker \<Rightarrow> 'r \<times> conn \<times> broker) \<Rightarrow> bool" where
  "uniform S f \<longleftrightarrow> (\<exists>r c new. \<forall>b\<in>S. \<exists>b'. f b = (r, c, b') \<and> b_events b' = b_events b @ new)"

lemma uniformI:
  assumes "\<And>b. b \<in> S \<Longrightarrow> \<exists>b'. f b = (r, c, b') \<and> b_events b' = b_events b @ new"
  shows "uniform S f"
  using assms unfolding uniform_def by blast

lemma uniform_same:
  assumes "uniform S f" "b1 \<in> S" "b2 \<in> S" "f b1 = (r1, c1, b1')" "f b2 = (r2, c2, b2')"
  shows "r1 = r2 \<and> c1 = c2 \<and> (\<exists>new. b_events b1' = b_events b1 @ new \<and> b_events b2' = b_events b2 @ new)"
proof -
  from assms(1) obtain r c new where f: "\<And>b. b \<in> S \<Longrightarrow> \<exists>b'. f b = (r, c, b') \<and> b_events b' = b_events b @ new"
    unfolding uniform_def by blast
  from f [OF assms(2)] f [OF assms(3)] assms(4,5) show ?thesis by auto
qed

text \<open>A uniform step after events that are always the same.\<close>

lemma uniform_after:
  assumes "uniform T f" "\<And>b. b \<in> S \<Longrightarrow> g b \<in> T \<and> b_events (g b) = b_events b @ pre"
  shows "uniform S (\<lambda>b. f (g b))"
proof -
  from assms(1) obtain r c new where f: "\<And>b. b \<in> T \<Longrightarrow> \<exists>b'. f b = (r, c, b') \<and> b_events b' = b_events b @ new"
    unfolding uniform_def by blast
  show ?thesis
    by (rule uniformI [where r = r and c = c and new = "pre @ new"]) (use f assms(2) in force)
qed

lemma uniform_answer: "uniform S (\<lambda>b. case m of (r, c) \<Rightarrow> (r, c, b))"
  by (cases m) (auto intro!: uniformI [where new = "[]"])

lemma uniform_probe: "uniform S (\<lambda>b. case m of (r, c) \<Rightarrow> (r, c, record_probe x i b))"
proof -
  obtain new where "\<And>b. b_events (record_probe x i b) = b_events b @ new"
  proof (cases "probe_call (x_fs x) (x_getenv x) i")
    case None
    with that [of "[]"] show thesis by (simp add: record_probe_def)
  next
    case (Some call)
    with that [of "if x_probe x (fst call) (snd call) = None then [] else [Probed (fst call) (snd call)]"]
    show thesis by (cases call) (simp add: record_probe_def)
  qed
  then show ?thesis by (cases m) (auto intro!: uniformI [where new = new])
qed

lemma uniform_deny: "uniform S (deny_request x e reason c)"
  by (rule uniformI [where r = "fst (send_denied x reason c)" and c = "snd (send_denied x reason c)" and
        new = "[Audited (record_of x (e\<lparr>ae_decision := AuditDeny reason\<rparr>))]"])
    (simp add: deny_request_def Let_def split: prod.split)

lemma uniform_refuse: "uniform S (refuse_allow x u as org repo reason c)"
  by (rule uniformI [where r = "fst (send_denied x reason c)" and c = "snd (send_denied x reason c)" and
        new = "[Audited (record_of x \<lparr>ae_user = u, ae_tool = ''allow'', ae_args = as, ae_org = org, ae_repo = repo,
          ae_branch = None, ae_operation = ''allow'', ae_decision = AuditDeny reason\<rparr>)]"])
    (simp add: refuse_allow_def audit_allow_def Let_def split: prod.split)

lemma stream_child_over_connection_uniform:
  "\<exists>c' new. \<forall>b. \<exists>b'. stream_child_over_connection x spec req c b = (c', b') \<and> b_events b' = b_events b @ new"
proof -
  obtain r rn s c1 where "stream_child (x_ser x) (x_de x) (x_getenv x) (x_kernel x) (x_daemon x)
      (x_children x) spec (if client_frames req then cn_in c else []) c = (r, rn, s, c1)"
    by (metis prod_cases4)
  then show ?thesis by (cases rn) (simp_all add: stream_child_over_connection_def)
qed

lemma uniform_passthrough: "uniform S (handle_gh_passthrough x req ident root c)"
proof (cases "load_user_credentials x (pid_username ident) root")
  case (Inl err)
  with uniform_answer show ?thesis by (simp add: handle_gh_passthrough_def [abs_def])
next
  case (Inr creds)
  let ?e = "\<lparr>ae_user = pid_username ident, ae_tool = ''gh'', ae_args = args req, ae_org = [], ae_repo = [],
    ae_branch = None, ae_operation = ''passthrough'', ae_decision = AuditPassthrough\<rparr>"
  let ?spec = "child_spec_for ''gh'' req (gh_env (x_getenv x) (token creds)) ident"
  obtain c' new where run: "\<And>b. \<exists>b'. stream_child_over_connection x ?spec req c b = (c', b') \<and> b_events b' = b_events b @ new"
    using stream_child_over_connection_uniform by metis
  show ?thesis
  proof (rule uniformI [where r = "Inr ()" and c = c' and new = "Audited (record_of x ?e) # new"])
    fix b
    from run [of "write_audit x ?e b"] Inr
    show "\<exists>b'. handle_gh_passthrough x req ident root c b = (Inr (), c', b') \<and>
        b_events b' = b_events b @ Audited (record_of x ?e) # new"
      by (auto simp: handle_gh_passthrough_def)
  qed
qed

lemma uniform_run_allowed: "uniform S (run_allowed x req ident root res c)"
proof (cases "load_user_credentials x (pid_username ident) root")
  case (Inl err)
  with uniform_answer show ?thesis by (simp add: run_allowed_def [abs_def])
next
  case (Inr creds)
  obtain be acts where be: "build_env x (tool req) res creds = (be, acts)" by fastforce
  show ?thesis
  proof (cases be)
    case (Inl err)
    with Inr be show ?thesis
      by (simp add: run_allowed_def [abs_def] uniform_after [where T = UNIV, OF uniform_answer])
  next
    case inr: (Inr v)
    obtain vars keep agent where v: "v = (vars, keep, agent)" by (metis prod_cases3)
    let ?spec = "child_spec_for (tool_name (tool req)) req vars ident"
    obtain c' new where run: "\<And>b. \<exists>b'. stream_child_over_connection x ?spec req c b = (c', b') \<and> b_events b' = b_events b @ new"
      using stream_child_over_connection_uniform by metis
    define rest where "rest = (case agent of None \<Rightarrow> [] | Some h \<Rightarrow> [AgentActions (agent_drop h)]) @
      (case keep of None \<Rightarrow> [] | Some k \<Rightarrow> [ScriptRemoved (script_path (askpass_script k))])"
    show ?thesis
    proof (rule uniformI [where r = "Inr ()" and c = c' and new = "AgentActions acts # new @ rest"])
      fix b
      from run [of "record_event (AgentActions acts) b"] Inr be inr v
      show "\<exists>b'. run_allowed x req ident root res c b = (Inr (), c', b') \<and>
          b_events b' = b_events b @ AgentActions acts # new @ rest"
        by (auto simp: run_allowed_def rest_def split: option.split)
    qed
  qed
qed

lemma uniform_mediated: "uniform S (process_mediated x req ident ctx c)"
proof (cases "tool req = Git \<and> \<not> git_is_remote_op (args req)")
  case True
  with uniform_deny show ?thesis by (simp add: process_mediated_def [abs_def] Let_def)
next
  case False
  show ?thesis
  proof (cases "resolve_request x req")
    case (Inl err)
    with False uniform_deny show ?thesis by (simp add: process_mediated_def [abs_def] Let_def if_not_P [OF False])
  next
    case (Inr res)
    note run = uniform_after [where T = UNIV and S = S, OF uniform_run_allowed [of _ x req ident "ctx_credentials_root ctx" res c],
        where g = "write_audit x (resolved_entry ident req res)"]
    show ?thesis
      by (cases "evaluate (x_glob x) (ctx_policy ctx) (policy_request_for (pid_username ident) res)")
        (simp_all add: process_mediated_def [abs_def] Let_def if_not_P [OF False] Inr uniform_deny run)
  qed
qed

text \<open>A grant by root also depends on the policy in force and on the policy file.\<close>

definition with_policies :: "broker \<Rightarrow> broker set" where
  "with_policies b = {b'. same_policies b b'}"

lemma uniform_apply_grant: "uniform (with_policies b0) (apply_grant x u as path a c)"
proof -
  obtain ar content where ar: "append_rule_atomically x path (grant_rule a) (b_policy_file b0) = (ar, content)"
    by fastforce
  have same: "b_policy_file b = b_policy_file b0" if "b \<in> with_policies b0" for b
    using that by (simp add: with_policies_def same_policies_def)
  let ?refuse = "\<lambda>reason. uniform UNIV (refuse_allow x u as (alr_org a) (alr_repo a) reason c)"
  show ?thesis
  proof (cases "pi_join (x_persist x)")
    case (Some err)
    with uniform_refuse show ?thesis by (simp add: apply_grant_def [abs_def])
  next
    case None
    show ?thesis
    proof (cases ar)
      case (Inl err)
      show ?thesis
        using uniform_after [where T = UNIV and S = "with_policies b0" and g = "\<lambda>b. b\<lparr>b_policy_file := content\<rparr>" and pre = "[]",
            OF uniform_refuse] None ar Inl same
        by (simp add: apply_grant_def [abs_def] uniform_def)
    next
      case (Inr yml)
      show ?thesis
      proof (cases "from_yaml (x_yaml_parse x) (x_glob x) yml")
        case e: (Inl err)
        show ?thesis
          using uniform_after [where T = UNIV and S = "with_policies b0" and
              g = "\<lambda>b. record_event (PolicyWritten yml) (b\<lparr>b_policy_file := content\<rparr>)" and pre = "[PolicyWritten yml]",
              OF uniform_refuse] None ar Inr e same
          by (simp add: apply_grant_def [abs_def] uniform_def)
      next
        case new: (Inr p)
        obtain r c' where sent: "then_send (stream_text x (confirmation a) c) (send_frame (x_ser x) (Exit 0)) = (r, c')"
          by fastforce
        let ?rec = "record_of x \<lparr>ae_user = u, ae_tool = ''allow'', ae_args = as, ae_org = alr_org a, ae_repo = alr_repo a,
          ae_branch = None, ae_operation = ''allow'', ae_decision = AuditAllow\<rparr>"
        show ?thesis
          by (rule uniformI [where r = r and c = c' and new = "[PolicyWritten yml, HandleStored p, Audited ?rec]"])
            (simp add: apply_grant_def None ar Inr new same sent audit_allow_def)
      qed
    qed
  qed
qed


lemma uniform_root_grant:
  assumes "pid_uid ident = 0"
  shows "uniform (with_policies b0) (handle_allow x as ident path c)"
proof -
  let ?u = "pid_username ident"
  have same: "b_handle b = b_handle b0" if "b \<in> with_policies b0" for b
    using that by (simp add: with_policies_def same_policies_def)
  show ?thesis
  proof (cases "parse_allow_args as ?u")
    case (Inl reason)
    with assms uniform_refuse show ?thesis by (simp add: handle_allow_def [abs_def])
  next
    case (Inr a)
    have "uniform (with_policies b0)
        (\<lambda>b. case validate_grant (alr_operations a) (b_handle b0) of
           Inl reason \<Rightarrow> refuse_allow x ?u as (alr_org a) (alr_repo a) reason c b
         | Inr _ \<Rightarrow> apply_grant x ?u as path a c b)"
      by (cases "validate_grant (alr_operations a) (b_handle b0)") (simp_all add: uniform_refuse uniform_apply_grant)
    with assms Inr same show ?thesis by (simp add: handle_allow_def uniform_def Let_def)
  qed
qed

lemma uniform_others_grant:
  assumes "pid_uid ident \<noteq> 0"
  shows "uniform S (handle_allow x as ident path c)"
  using assms uniform_refuse by (simp add: handle_allow_def [abs_def])

lemma uniform_closing:
  assumes "uniform S f"
  shows "uniform S (\<lambda>b. case f b of (Inl e, c', b') \<Rightarrow> (Inl e, c', b') | (Inr _, c', b') \<Rightarrow> (Inr (), shutdown c', b'))"
proof -
  from assms obtain r c new where f: "\<And>b. b \<in> S \<Longrightarrow> \<exists>b'. f b = (r, c, b') \<and> b_events b' = b_events b @ new"
    unfolding uniform_def by blast
  show ?thesis
  proof (cases r)
    case (Inl e)
    with f show ?thesis by (intro uniformI [where r = "Inl e" and c = c and new = new]) fastforce
  next
    case (Inr u)
    with f show ?thesis by (intro uniformI [where r = "Inr ()" and c = "shutdown c" and new = new]) fastforce
  qed
qed

lemma process_request_uniform:
  assumes "tool req \<noteq> AllowTool \<or> pid_uid ident \<noteq> 0 \<or> S \<subseteq> with_policies b0"
  shows "uniform S (process_request x req ident ctx c)"
proof (cases "tool req")
  case AllowTool
  have "uniform S (handle_allow x (args req) ident (ctx_policy_path ctx) c)"
  proof (cases "pid_uid ident = 0")
    case True
    with assms AllowTool have "S \<subseteq> with_policies b0" by simp
    with uniform_root_grant [OF True, of b0] show ?thesis unfolding uniform_def by (meson subsetD)
  qed (rule uniform_others_grant)
  from uniform_closing [OF this] AllowTool show ?thesis by (simp add: process_request_def [abs_def])
next
  case Gh
  then show ?thesis
    by (cases "gh_is_broker_op (args req)")
      (simp_all add: process_request_def [abs_def] uniform_mediated uniform_passthrough)
qed (simp_all add: process_request_def [abs_def] Let_def uniform_answer uniform_probe uniform_mediated)

lemma handle_connection_uniform:
  assumes "\<And>ident req s. peer_identity x cred = Some ident \<Longrightarrow> sock_read_frame (x_de_request x) (cn_in c) = (Inr req, s) \<Longrightarrow>
      tool req = AllowTool \<Longrightarrow> pid_uid ident = 0 \<Longrightarrow> S \<subseteq> with_policies b0"
  shows "uniform S (handle_connection x cred ctx c)"
proof (cases "peer_identity x cred")
  case None
  show ?thesis
    by (rule uniformI [where r = "Inr ()" and new = "[]" and c = "snd (send_denied x ''unknown caller'' c)"])
      (simp add: handle_connection_def None split: prod.split)
next
  case (Some ident)
  obtain fr s where fr: "sock_read_frame (x_de_request x) (cn_in c) = (fr, s)" by fastforce
  show ?thesis
  proof (cases fr)
    case (Inl e)
    show ?thesis
      by (rule uniformI [where r = "Inr ()" and new = "[]" and c = "snd (send_denied x ''malformed request'' (c\<lparr>cn_in := s\<rparr>))"])
        (simp add: handle_connection_def Some fr Inl split: prod.split)
  next
    case (Inr req)
    with assms Some fr have "uniform S (process_request x req ident ctx (c\<lparr>cn_in := s\<rparr>))"
      by (intro process_request_uniform) blast
    with Some fr Inr show ?thesis by (simp add: handle_connection_def [abs_def])
  qed
qed

subsection \<open>Complete replies\<close>

definition terminal :: "server_frame \<Rightarrow> bool" where
  "terminal f = (case f of Exit _ \<Rightarrow> True | Denied _ \<Rightarrow> True | _ \<Rightarrow> False)"

text \<open>Output frames, then at most one frame that ends the reply; a complete reply has it.\<close>

definition partial_reply :: "server_frame list \<Rightarrow> bool" where
  "partial_reply fs \<longleftrightarrow> list_all (\<lambda>f. \<not> terminal f) fs"

definition complete_reply :: "server_frame list \<Rightarrow> bool" where
  "complete_reply fs \<longleftrightarrow> (\<exists>body f. fs = body @ [f] \<and> partial_reply body \<and> terminal f)"

text \<open>What a handler adds to a connection: a complete reply, or a part of one and the reason.\<close>

definition replies :: "bool \<Rightarrow> conn \<Rightarrow> conn \<Rightarrow> bool" where
  "replies broken c c' \<longleftrightarrow>
     (\<exists>fs. cn_sent c' = cn_sent c @ fs \<and> (complete_reply fs \<or> partial_reply fs \<and> broken))"

lemma terminal_simps [simp]:
  "terminal (Exit code)" "terminal (Denied reason)" "\<not> terminal (StdoutChunk d)" "\<not> terminal (StderrChunk d)"
  "\<not> terminal (CredentialAuditFrame a)"
  by (simp_all add: terminal_def)

lemma chunks_partial: "list_all chunk_ok fs \<Longrightarrow> partial_reply fs"
  by (auto simp: partial_reply_def list_all_iff chunk_ok_def terminal_def split: server_frame.splits)

lemma complete_append: "partial_reply fs \<Longrightarrow> terminal f \<Longrightarrow> complete_reply (fs @ [f])"
  by (auto simp: complete_reply_def)

lemma complete_single [simp]: "complete_reply [f] = terminal f"
  by (auto simp: complete_reply_def partial_reply_def append_eq_Cons_conv)

lemma partial_simps [simp]: "partial_reply []" "partial_reply (f # fs) \<longleftrightarrow> \<not> terminal f \<and> partial_reply fs"
  by (simp_all add: partial_reply_def)

lemma replies_terminal:
  assumes "send_frame ser f c = (r, c')" "terminal f" "isl r \<longrightarrow> broken"
  shows "replies broken c c'"
  using send_frame_result [OF assms(1)] assms(2,3) by (cases r) (auto simp: replies_def)


lemma replies_after:
  assumes "cn_sent c1 = cn_sent c @ fs" "partial_reply fs" "replies broken c1 c'"
  shows "replies broken c c'"
proof -
  from assms(3) obtain gs where gs: "cn_sent c' = cn_sent c1 @ gs" "complete_reply gs \<or> partial_reply gs \<and> broken"
    by (auto simp: replies_def)
  from gs(2) assms(2) have "complete_reply (fs @ gs) \<or> partial_reply (fs @ gs) \<and> broken"
    by (auto simp: complete_reply_def partial_reply_def)
  with gs(1) assms(1) show ?thesis by (auto simp: replies_def)
qed

lemma replies_shutdown [simp]: "replies broken c (shutdown c') = replies broken c c'"
  by (simp add: replies_def shutdown_def)

lemma replies_then:
  assumes "then_send m k = (r, c')" "cn_sent (snd m) = cn_sent c @ fs" "partial_reply fs"
    and "\<And>u c1. m = (Inr u, c1) \<Longrightarrow> k c1 = (r, c') \<Longrightarrow> replies (isl r) c1 c'"
  shows "replies (isl r) c c'"
proof -
  obtain r1 c1 where m: "m = (r1, c1)" by fastforce
  show ?thesis
  proof (cases r1)
    case (Inl e)
    with assms(1-3) m show ?thesis by (auto simp: then_send_def replies_def)
  next
    case (Inr u)
    with assms(1) m have "k c1 = (r, c')" by (simp add: then_send_def)
    with replies_after [OF _ assms(3) assms(4)] assms(2) m Inr show ?thesis by simp
  qed
qed

lemma finish_explain_replies:
  assumes "finish_explain x code c = (r, c')"
  shows "replies (isl r) c c'"
proof -
  obtain sr c1 where sr: "send_frame (x_ser x) (Exit code) c = (sr, c1)" by fastforce
  with assms have "isl r = isl sr" "c' = (if isl sr then c1 else shutdown c1)"
    by (auto simp: finish_explain_def split: sum.splits)
  with replies_terminal [OF sr] show ?thesis by simp
qed

lemma report_replies:
  assumes "then_send (stream_text x txt c) (finish_explain x code) = (r, c')"
  shows "replies (isl r) c c'"
proof -
  obtain sr c1 where sr: "stream_text x txt c = (sr, c1)" by fastforce
  with send_frame_result [OF sr [unfolded stream_text_def]]
  have sent: "cn_sent (snd (stream_text x txt c)) = cn_sent c @ (case sr of Inl _ \<Rightarrow> [] | Inr _ \<Rightarrow> [StdoutChunk txt])"
    "partial_reply (case sr of Inl _ \<Rightarrow> [] | Inr _ \<Rightarrow> [StdoutChunk txt])" by (simp_all split: sum.split)
  show ?thesis by (rule replies_then [OF assms sent]) (erule finish_explain_replies)
qed

lemma explain_replies:
  assumes "handle_explain_request x req u p c = (r, c')"
  shows "replies (isl r) c c'"
  using assms
  by (auto simp: handle_explain_request_def explain_resolved_def Let_def split: if_splits sum.splits intro: report_replies)

lemma policy_replies:
  assumes "handle_policy_request x req u p c = (r, c')"
  shows "replies (isl r) c c'"
  using assms
  by (auto simp: handle_policy_request_def Let_def split: option.splits prod.splits intro: report_replies)

lemma check_replies:
  assumes "handle_check_request x inputs c = (r, c')"
  shows "replies (isl r) c c'"
proof -
  obtain all_ok out where run: "run_checks (x_fs x) (x_getenv x) (x_probe x) (x_dbg x) inputs = (all_ok, out)" by fastforce
  let ?audit = "CredentialAuditFrame (audit_credential_paths (x_fs x) (creds_root inputs) (user inputs))"
  let ?first = "if out \<noteq> [] then send_frame (x_ser x) (StdoutChunk out) c else (Inr (), c)"
  let ?m = "then_send ?first (send_frame (x_ser x) ?audit)"
  obtain r1 c1 where first: "?first = (r1, c1)" by fastforce
  then have one: "\<exists>fs. cn_sent c1 = cn_sent c @ fs \<and> partial_reply fs"
    by (auto split: if_splits sum.splits dest!: send_frame_result)
  have "\<exists>fs. cn_sent (snd ?m) = cn_sent c @ fs \<and> partial_reply fs"
  proof (cases r1)
    case (Inl e)
    with first one show ?thesis by (simp only: then_send_def prod.case sum.case snd_conv)
  next
    case (Inr u)
    obtain r2 c2 where second: "send_frame (x_ser x) ?audit c1 = (r2, c2)" by fastforce
    from one obtain fs where fs: "cn_sent c1 = cn_sent c @ fs" "partial_reply fs" by blast
    have m: "?m = (r2, c2)" using first second Inr by (simp only: then_send_def prod.case sum.case)
    show ?thesis unfolding m
      using send_frame_result [OF second] fs by (cases r2) (auto simp: partial_reply_def)
  qed
  then obtain fs where fs: "cn_sent (snd ?m) = cn_sent c @ fs" "partial_reply fs" by blast
  have "then_send ?m (finish_explain x (if all_ok then 0 else 1)) = (r, c')"
    using assms by (simp add: handle_check_request_def run)
  then show ?thesis by (rule replies_then [OF _ fs]) (erule finish_explain_replies)
qed

lemma denied_replies:
  assumes "send_denied x reason c = (r, c')"
  shows "replies (isl r) c c'"
  using replies_terminal [OF assms [unfolded send_denied_def]] by simp

lemma allow_replies:
  assumes "handle_allow x as ident path c b = (r, c', b')"
  shows "replies (isl r) c c'"
proof -
  have refusal: "replies (isl r) c c'" if "refuse_allow x u as' org repo reason c b0 = (r, c', b')" for u as' org repo reason b0
  proof -
    from that have "send_denied x reason c = (r, c')" by (simp add: refuse_allow_def Let_def split: prod.splits)
    then show ?thesis by (rule denied_replies)
  qed
  from assms show ?thesis
  proof (cases rule: handle_allow_cases)
    case (refused org repo reason)
    then show ?thesis by (rule refusal)
  next
    case (accepted a)
    from accepted(3) show ?thesis
    proof (cases rule: apply_grant_split)
      case (refuse reason)
      then show ?thesis by (rule refusal)
    next
      case (written old q yml reloaded)
      show ?thesis
      proof (cases reloaded)
        case (Inl e)
        with written(5) refusal show ?thesis by auto
      next
        case (Inr new)
        with written(5) have sent: "then_send (stream_text x (confirmation a) c) (send_frame (x_ser x) (Exit 0)) = (r, c')" by simp
        obtain sr c1 where sr: "stream_text x (confirmation a) c = (sr, c1)" by fastforce
        with send_frame_result [OF sr [unfolded stream_text_def]]
        have "cn_sent (snd (stream_text x (confirmation a) c)) = cn_sent c @ (case sr of Inl _ \<Rightarrow> [] | Inr _ \<Rightarrow> [StdoutChunk (confirmation a)])"
          "partial_reply (case sr of Inl _ \<Rightarrow> [] | Inr _ \<Rightarrow> [StdoutChunk (confirmation a)])" by (simp_all split: sum.split)
        from replies_then [OF sent this] replies_terminal show ?thesis by (metis terminal_simps(1))
      qed
    qed
  qed
qed

text \<open>Relaying a child fails when its pipes, its exit status or the connection cannot be read or written.\<close>

definition relay_failed :: "outside \<Rightarrow> request \<Rightarrow> peer \<Rightarrow> conn \<Rightarrow> conn \<Rightarrow> bool" where
  "relay_failed x req ident c c' \<longleftrightarrow>
     (\<exists>vars e rn s c1. stream_child (x_ser x) (x_de x) (x_getenv x) (x_kernel x) (x_daemon x) (x_children x)
        (child_spec_for (tool_name (tool req)) req vars ident) (if client_frames req then cn_in c else []) c =
          (Inl e, rn, s, c1) \<and> cn_sent c' = cn_sent c1)"

definition pipes_ok :: "outside \<Rightarrow> bool" where
  "pipes_ok x \<longleftrightarrow> (\<forall>cmd p. pipe_ok (Some (ch_stdout (x_children x cmd p))) \<and> pipe_ok (Some (ch_stderr (x_children x cmd p))))"

lemma stream_child_replies:
  assumes "stream_child_over_connection x (child_spec_for (tool_name (tool req)) req vars ident) req c b = (c', b')"
    and "pipes_ok x"
  shows "replies (relay_failed x req ident c c') c c'"
proof -
  let ?spec = "child_spec_for (tool_name (tool req)) req vars ident"
  let ?frames = "if client_frames req then cn_in c else []"
  obtain r rn s c1 where run: "stream_child (x_ser x) (x_de x) (x_getenv x) (x_kernel x) (x_daemon x)
      (x_children x) ?spec ?frames c = (r, rn, s, c1)"
    by (metis prod_cases4)
  have c': "cn_sent c' = cn_sent c1"
    using assms(1) run by (auto simp: stream_child_over_connection_def shutdown_def)
  have ok: "pipe_ok (Some (ch_stdout (x_children x cmd p))) \<and> pipe_ok (Some (ch_stderr (x_children x cmd p)))" for cmd p
    using assms(2) by (simp add: pipes_ok_def)
  note sent = conjunct2 [OF conjunct2 [OF stream_child_sent [OF run ok]]]
  have failed: "relay_failed x req ident c c'" if "r = Inl e" for e
    using run that c' unfolding relay_failed_def by blast
  show ?thesis
  proof (cases rn)
    case None
    show ?thesis
    proof (cases r)
      case (Inl e)
      with sent None failed c' show ?thesis by (intro replies_def [THEN iffD2] exI [where x = "[]"]) simp
    next
      case (Inr u)
      have "spawn (x_kernel x) (apply_privilege_drop (p_euid (x_daemon x)) ?spec (build_command (x_getenv x) ?spec)) (x_daemon x) \<noteq> Inr p" for p
        using stream_child_runs run None by (metis option.distinct(1) prod.inject)
      with sent None Inr c' show ?thesis by (auto simp: replies_def split: sum.splits)
    qed
  next
    case (Some q)
    with sent have "\<exists>chunks. list_all chunk_ok chunks \<and> (case r of
              Inl _ \<Rightarrow> cn_sent c1 = cn_sent c @ chunks
            | Inr _ \<Rightarrow> \<exists>code. cn_sent c1 = cn_sent c @ chunks @ [Exit code])"
      by (cases r) auto
    then obtain chunks where chunks: "list_all chunk_ok chunks" "case r of
              Inl _ \<Rightarrow> cn_sent c1 = cn_sent c @ chunks
            | Inr _ \<Rightarrow> \<exists>code. cn_sent c1 = cn_sent c @ chunks @ [Exit code]" by blast
    with c' failed show ?thesis
      by (cases r) (auto simp: replies_def chunks_partial intro!: complete_append)
  qed
qed


lemma replies_mono: "replies broken c c' \<Longrightarrow> (broken \<Longrightarrow> broken') \<Longrightarrow> replies broken' c c'"
  by (auto simp: replies_def)

lemma denied_and:
  assumes "(case send_denied x reason c of (q, c1) \<Rightarrow> (q, c1, f q c1)) = (r, c', b')"
  shows "replies (isl r) c c'"
  using assms denied_replies [of x reason c r c'] by (auto split: prod.splits)

lemma passthrough_replies:
  assumes "handle_gh_passthrough x req ident root c b = (r, c', b')" "pipes_ok x"
  and "tool req = Gh"
  shows "replies (isl r \<or> relay_failed x req ident c c') c c'"
proof (cases "load_user_credentials x (pid_username ident) root")
  case (Inl e)
  from denied_and [OF assms(1) [unfolded handle_gh_passthrough_def Inl sum.case]] show ?thesis
    by (rule replies_mono) simp
next
  case (Inr creds)
  with assms(1,3) have "\<exists>vars b1. stream_child_over_connection x (child_spec_for (tool_name (tool req)) req vars ident) req c b1 = (c', b')"
    by (auto simp: handle_gh_passthrough_def tool_name_def Let_def split: prod.splits)
  with stream_child_replies [OF _ assms(2)] show ?thesis by (blast intro: replies_mono)
qed

lemma run_allowed_replies:
  assumes "run_allowed x req ident root res c b = (r, c', b')" "pipes_ok x"
  shows "replies (isl r \<or> relay_failed x req ident c c') c c'"
proof (cases "load_user_credentials x (pid_username ident) root")
  case (Inl e)
  from denied_and [OF assms(1) [unfolded run_allowed_def Inl sum.case]] show ?thesis
    by (rule replies_mono) simp
next
  case (Inr creds)
  obtain be acts where be: "build_env x (tool req) res creds = (be, acts)" by fastforce
  show ?thesis
  proof (cases be)
    case (Inl e)
    from denied_and [OF assms(1) [unfolded run_allowed_def Inr sum.case be prod.case Inl]] show ?thesis
      by (rule replies_mono) simp
  next
    case inr: (Inr v)
    with assms(1) Inr be have "\<exists>vars b1 b2. stream_child_over_connection x (child_spec_for (tool_name (tool req)) req vars ident) req c b1 = (c', b2)"
      by (cases v) (auto simp: run_allowed_def Let_def split: prod.splits)
    with stream_child_replies [OF _ assms(2)] show ?thesis by (blast intro: replies_mono)
  qed
qed

lemma deny_request_replies:
  assumes "deny_request x e reason c b = (r, c', b')"
  shows "replies (isl r) c c'"
  using assms denied_replies [of x reason c r c'] by (auto simp: deny_request_def Let_def split: prod.splits)

lemma mediated_replies:
  assumes "process_mediated x req ident ctx c b = (r, c', b')" "pipes_ok x"
  shows "replies (isl r \<or> relay_failed x req ident c c') c c'"
  using assms(1)
proof (cases rule: process_mediated_cases)
  case (denied e reason)
  from deny_request_replies [OF denied] show ?thesis by (rule replies_mono) simp
next
  case (allowed res)
  from run_allowed_replies [OF allowed(3) assms(2)] show ?thesis .
qed

lemma process_request_replies:
  assumes "process_request x req ident ctx c b = (r, c', b')" "pipes_ok x"
  shows "replies (isl r \<or> relay_failed x req ident c c') c c'"
proof -
  have query: ?thesis if "replies (isl r) c c'" using that by (rule replies_mono) simp
  show ?thesis
  proof (cases "tool req")
    case AllowTool
    obtain r1 c1 b1 where h: "handle_allow x (args req) ident (ctx_policy_path ctx) c b = (r1, c1, b1)"
      by (metis prod_cases3)
    with assms(1) AllowTool have "isl r = isl r1" "c' = (if isl r1 then c1 else shutdown c1)"
      by (auto simp: process_request_def split: sum.splits)
    with allow_replies [OF h] show ?thesis by (intro query) (cases r1; simp)
  next
    case Explain
    with assms(1) explain_replies [of x req "pid_username ident" "ctx_policy ctx" c r c'] show ?thesis
      by (intro query) (auto simp: process_request_def split: prod.splits)
  next
    case PolicyTool
    with assms(1) policy_replies [of x req "pid_username ident" "ctx_policy ctx" c r c'] show ?thesis
      by (intro query) (auto simp: process_request_def split: prod.splits)
  next
    case Check
    with assms(1) check_replies show ?thesis
      by (intro query) (fastforce simp: process_request_def Let_def split: prod.splits)
  next
    case Git
    with assms(1) mediated_replies [OF _ assms(2)] show ?thesis by (auto simp: process_request_def)
  next
    case Gh
    with assms(1) mediated_replies [OF _ assms(2)] passthrough_replies [OF _ assms(2)] show ?thesis
      by (auto simp: process_request_def split: if_splits)
  qed
qed

subsection \<open>Properties\<close>

text \<open>
  C5. The whole history of the daemon is justified: in every state a started daemon can reach, whatever
  requests, grants and interleavings led there, each child in the history whose streams were relayed
  was preceded by its own audit record, with no other such child in between. (The processes of an
  ssh-agent and the probe of a check are events of their own.) The record names a user the kernel
  identified a peer as, the program and the arguments the child has; it is an \<open>allow\<close> backed by a
  policy that was loaded at the start or granted earlier in the same history, or a passthrough of a
  gh command outside the mediated set; and every user and group id of the child is that user's,
  unless the user is root or the daemon's own, whose children keep the daemon's ids.
\<close>

theorem daemon_history_justified:
  assumes "daemon_start x0 open_append runtime = Inr (cfg, b)" and "reachable W cfg b d"
    and "b_events (d_broker d) = pre @ Spawned q # post"
  shows "justified W (b_handle b) pre q"
proof -
  from daemon_start_ok [OF assms(1)] have "b_events b = []" by auto
  from monitor_inv_reachable [OF assms(2) this] assms(3) show ?thesis
    by (simp add: monitor_inv_def justified_history_def)
qed

text \<open>A daemon that was started, accepted one connection of alice and served her push.\<close>

definition push_conn :: conn where
  "push_conn = \<lparr>cn_in = [Chunk (frame_bytes ''r'')], cn_writer = quiet, cn_sent = [], cn_shut = False\<rparr>"

lemma push_served:
  assumes "ctx_policy ctx = example_policy" "ctx_credentials_root ctx = None"
  shows "\<exists>c' b' pre q post. handle_connection session_outside (Inr 1000) ctx push_conn b = (Inr (), c', b') \<and>
    b_events b' = b_events b @ pre @ Spawned q # post"
proof -
  have "sock_ok (cn_in push_conn)" by (simp add: push_conn_def)
  from read_frame_written [OF this, of "''r''" "[]" "x_de_request session_outside"] obtain s where
    s: "sock_read_frame (x_de_request session_outside) (cn_in push_conn) = (Inr session_request, s)"
    by (auto simp: push_conn_def session_outside_def unat_MAX_FRAME_LEN)
  let ?run = "\<lambda>ctx. process_request session_outside session_request alice_identity ctx (push_conn\<lparr>cn_in := s\<rparr>)"
  from session_runs obtain c1 b1 pre q post where run: "?run example_ctx example_broker = (Inr (), c1, b1)"
    "b_events b1 = b_events example_broker @ pre @ Spawned q # post" by blast
  have "tool session_request = Git" by (simp add: session_request_def example_push_def)
  then have med: "?run ctx = process_mediated session_outside session_request alice_identity ctx (push_conn\<lparr>cn_in := s\<rparr>)" for ctx
    by (simp add: process_request_def [abs_def])
  have "ctx_policy example_ctx = example_policy" "ctx_credentials_root example_ctx = None"
    by (simp_all add: example_ctx_def)
  then have same: "?run ctx = ?run example_ctx" unfolding med process_mediated_def [abs_def] assms by (simp only:)
  have "uniform {example_broker, b} (?run example_ctx)"
    using \<open>tool session_request = Git\<close> by (intro process_request_uniform) simp
  moreover obtain r2 c2 b2 where run2: "?run ctx b = (r2, c2, b2)" by (metis prod_cases3)
  ultimately have "r2 = Inr () \<and> (\<exists>new. b_events b1 = b_events example_broker @ new \<and> b_events b2 = b_events b @ new)"
    using uniform_same [of _ _ example_broker b, OF _ _ _ run(1) run2 [unfolded same]] by blast
  with run(2) have "r2 = Inr ()" "b_events b2 = b_events b @ pre @ Spawned q # post" by auto
  with run2 have "\<exists>c' b' pre q post. ?run ctx b = (Inr (), c', b') \<and> b_events b' = b_events b @ pre @ Spawned q # post" by blast
  then show ?thesis using s by (simp add: handle_connection_def session_peer)
qed

theorem daemon_history_justified_witness:
  "\<exists>cfg b d pre q post. daemon_start example_start example_open None = Inr (cfg, b) \<and>
     reachable {session_outside} cfg b d \<and> b_events (d_broker d) = pre @ Spawned q # post \<and>
     justified {session_outside} example_policy pre q"
proof -
  from example_start_ok obtain cfg b where
    start: "daemon_start example_start example_open None = Inr (cfg, b)" "b_handle b = example_policy" by blast
  then have ctx: "ctx_policy (snapshot cfg b) = example_policy" "ctx_credentials_root (snapshot cfg b) = None"
    by (auto simp: snapshot_def daemon_start_def example_start_def Let_def split: sum.splits)
  let ?d = "(initial b)\<lparr>d_pending := [(Inr 1000, snapshot cfg b, push_conn)]\<rparr>"
  from push_served [OF ctx] obtain c' b' pre q post where
    h: "handle_connection session_outside (Inr 1000) (snapshot cfg b) push_conn b = (Inr (), c', b')"
      "b_events b' = b_events b @ pre @ Spawned q # post" by blast
  have "daemon_step {session_outside} cfg (initial b) ?d"
    using daemon_step.accept [of "initial b" "{session_outside}" cfg "Inr 1000" push_conn] by (simp add: initial_def)
  moreover have "daemon_step {session_outside} cfg ?d (?d\<lparr>d_broker := b', d_pending := [] @ [], d_closed := d_closed ?d @ [c']\<rparr>)"
    using daemon_step.serve [of session_outside "{session_outside}" ?d "[]" "Inr 1000" "snapshot cfg b" push_conn "[]"
        "Inr ()" c' b' cfg] h(1)
    by (simp add: initial_def)
  ultimately have reach: "reachable {session_outside} cfg b (?d\<lparr>d_broker := b', d_pending := [] @ [], d_closed := d_closed ?d @ [c']\<rparr>)"
    unfolding reachable_def by (meson converse_rtranclp_into_rtranclp rtranclp.rtrancl_refl)
  have "b_events (d_broker (?d\<lparr>d_broker := b', d_pending := [] @ [], d_closed := d_closed ?d @ [c']\<rparr>)) =
      (b_events b @ pre) @ Spawned q # post" using h(2) by simp
  from daemon_history_justified [OF start(1) reach this] this start reach show ?thesis by metis
qed

text \<open>
  C6. One caller's answer tells nothing of the others: what a connection is answered, and what the
  daemon does for it, is a function of the connection, the policy it was accepted under and the world
  outside. It does not depend on the audit log, on what was done for others, or on grants made
  after it was accepted, except that root's own \<open>allow\<close> reads the policy in force and its file.
\<close>

theorem replies_isolated:
  assumes "handle_connection x cred ctx c b1 = (r1, c1, b1')" and "handle_connection x cred ctx c b2 = (r2, c2, b2')"
    and "\<And>ident req s. peer_identity x cred = Some ident \<Longrightarrow> sock_read_frame (x_de_request x) (cn_in c) = (Inr req, s) \<Longrightarrow>
      tool req = AllowTool \<Longrightarrow> pid_uid ident = 0 \<Longrightarrow> same_policies b1 b2"
  shows "r1 = r2 \<and> c1 = c2 \<and> (\<exists>new. b_events b1' = b_events b1 @ new \<and> b_events b2' = b_events b2 @ new)"
proof -
  have "uniform {b1, b2} (handle_connection x cred ctx c)"
    using assms(3) by (intro handle_connection_uniform [where ?b0.0 = b1]) (auto simp: with_policies_def)
  from uniform_same [OF this _ _ assms(1,2)] show ?thesis by simp
qed

theorem replies_isolated_witness:
  "\<exists>r c' b1' b2' new. let b2 = example_broker\<lparr>b_handle := \<lparr>rules = [], roles = []\<rparr>, b_events := [PolicyWritten ''x'']\<rparr> in
     handle_connection session_outside (Inr 1000) example_ctx push_conn example_broker = (r, c', b1') \<and>
     handle_connection session_outside (Inr 1000) example_ctx push_conn b2 = (r, c', b2') \<and>
     b_events b1' = new \<and> b_events b2' = PolicyWritten ''x'' # new"
proof -
  let ?b2 = "example_broker\<lparr>b_handle := \<lparr>rules = [], roles = []\<rparr>, b_events := [PolicyWritten ''x'']\<rparr>"
  obtain r1 c1 b1' where h1: "handle_connection session_outside (Inr 1000) example_ctx push_conn example_broker = (r1, c1, b1')"
    by (metis prod_cases3)
  obtain r2 c2 b2' where h2: "handle_connection session_outside (Inr 1000) example_ctx push_conn ?b2 = (r2, c2, b2')"
    by (metis prod_cases3)
  have "pid_uid ident \<noteq> 0" if "peer_identity session_outside (Inr 1000) = Some ident" for ident
    using that by (simp add: session_peer) (auto simp: alice_identity_def)
  with replies_isolated [OF h1 h2] have "r1 = r2 \<and> c1 = c2 \<and>
      (\<exists>new. b_events b1' = b_events example_broker @ new \<and> b_events b2' = b_events ?b2 @ new)" by blast
  with h1 h2 show ?thesis by (auto simp: example_broker_def)
qed

text \<open>
  C7. Every request gets a complete answer: output and then exactly one frame that ends it, an exit
  code or a denial. The only answers that break off are those of a connection that cannot be
  written, and of a child whose relay failed; and no answer goes on after the frame that ends it.
\<close>

theorem every_request_answered:
  assumes "process_request x req ident ctx c b = (r, c', b')" and "pipes_ok x"
  shows "\<exists>fs. cn_sent c' = cn_sent c @ fs \<and>
    (complete_reply fs \<or> partial_reply fs \<and> ((\<exists>e. r = Inl e) \<or> relay_failed x req ident c c'))"
  using process_request_replies [OF assms] by (auto simp: replies_def isl_def)

theorem every_request_answered_witness:
  "\<exists>c' b' fs. process_request session_outside session_request alice_identity example_ctx push_conn example_broker = (Inr (), c', b') \<and>
     cn_sent c' = fs \<and> (complete_reply fs \<or> partial_reply fs \<and> relay_failed session_outside session_request alice_identity push_conn c')"
proof -
  from session_runs obtain c' b' where run:
    "process_request session_outside session_request alice_identity example_ctx push_conn example_broker = (Inr (), c', b')" by blast
  have "pipes_ok session_outside"
    by (simp add: pipes_ok_def session_outside_def example_outside_def example_child_def pipe_ok_def)
  from every_request_answered [OF run this] run show ?thesis by (simp add: push_conn_def)
qed

end
