(* ===== verification/Test_Support.thy ===== *)
theory Test_Support
  imports Prelude Rust_Path
begin

section \<open>The repository's own tests\<close>

text \<open>
  What the theories \<open>*_Tests\<close> share. Each of them evaluates unit tests of the repository on the model: a
  table lists the tests of a test module by name, each with the truth value of its assertions, and a
  theorem says that all of them hold. So the model agrees with the program wherever the authors
  pinned the program's behaviour down.
\<close>

type_synonym test_table = "(string \<times> bool) list"

definition all_pass :: "test_table \<Rightarrow> bool" where
  "all_pass t = list_all snd t"

text \<open>\<open>unwrap\<close>, \<open>unwrap_err\<close> and \<open>expect\<close>, followed by assertions on what they give.\<close>

definition on_ok :: "'e + 'a \<Rightarrow> ('a \<Rightarrow> bool) \<Rightarrow> bool" where
  "on_ok r P = (case r of Inr v \<Rightarrow> P v | Inl _ \<Rightarrow> False)"

definition on_err :: "'e + 'a \<Rightarrow> ('e \<Rightarrow> bool) \<Rightarrow> bool" where
  "on_err r P = (case r of Inl e \<Rightarrow> P e | Inr _ \<Rightarrow> False)"

definition on_some :: "'a option \<Rightarrow> ('a \<Rightarrow> bool) \<Rightarrow> bool" where
  "on_some r P = (case r of Some v \<Rightarrow> P v | None \<Rightarrow> False)"

text \<open>\<open>str::contains\<close>.\<close>

definition contains :: "string \<Rightarrow> string \<Rightarrow> bool" where
  "contains s t = contains_str t s"

text \<open>A file system without files.\<close>

definition no_entry :: io_error where
  "no_entry = \<lparr>io_kind = NotFound, io_text = ''No such file or directory (os error 2)''\<rparr>"

definition no_files :: fs where
  "no_files = \<lparr>fs_symlink_metadata = (\<lambda>_. False), fs_metadata = (\<lambda>_. Inl no_entry), fs_read_to_string = (\<lambda>_. Inl no_entry)\<rparr>"

text \<open>
  The file system a test sets up: directories and files, made by the account the tests run as, with
  their permission bits, and \<open>/tmp\<close>.
\<close>

definition tester :: u32 where
  "tester = 1000"

definition made_file :: "u32 \<Rightarrow> metadata" where
  "made_file perms = \<lparr>md_kind = KFile, md_mode = 0x8000 + perms, md_uid = tester, md_dev = 0x801, md_ino = 12\<rparr>"

definition made_dir :: "u32 \<Rightarrow> metadata" where
  "made_dir perms = \<lparr>md_kind = KDir, md_mode = 0x4000 + perms, md_uid = tester, md_dev = 0x801, md_ino = 11\<rparr>"

definition tmp_metadata :: metadata where
  "tmp_metadata = \<lparr>md_kind = KDir, md_mode = 0x43FF, md_uid = 0, md_dev = 8, md_ino = 2\<rparr>"

definition test_fs :: "(path \<times> u32) list \<Rightarrow> (path \<times> string \<times> u32) list \<Rightarrow> fs" where
  "test_fs dirs files =
     \<lparr>fs_symlink_metadata = (\<lambda>p. p \<in> set (map fst dirs) \<or> p \<in> set (map fst files)),
      fs_metadata = (\<lambda>p.
        case map_of files p of
          Some (_, perms) \<Rightarrow> Inr (made_file perms)
        | None \<Rightarrow>
            (case map_of dirs p of
               Some perms \<Rightarrow> Inr (made_dir perms)
             | None \<Rightarrow> if p = ''/tmp'' then Inr tmp_metadata else Inl no_entry)),
      fs_read_to_string = (\<lambda>p. case map_of files p of Some (content, _) \<Rightarrow> Inr content | None \<Rightarrow> Inl no_entry)\<rparr>"

text \<open>Code equations that make trimming quick to evaluate: most characters are visible ASCII.\<close>

lemma visible_code [code]:
  "visible (Char b0 b1 b2 b3 b4 b5 b6 b7) \<longleftrightarrow>
     \<not> b7 \<and> (b6 \<or> b5) \<and> (b6 \<or> b0 \<or> b1 \<or> b2 \<or> b3 \<or> b4) \<and> \<not> (b0 \<and> b1 \<and> b2 \<and> b3 \<and> b4 \<and> b5 \<and> b6)"
  by (cases b0; cases b1; cases b2; cases b3; cases b4; cases b5; cases b6; cases b7; simp add: visible_def of_char_def)

lemma trim_start_code [code]:
  "trim_start s =
     (case s of
        [] \<Rightarrow> []
      | c # r \<Rightarrow>
          if visible c then s
          else if c \<in> set [CHR 0x20, CHR 0x09, CHR 0x0A] then trim_start r
          else trim_codes ws_codes s)"
proof (cases s)
  case (Cons c r)
  have "visible c \<Longrightarrow> trim_start (c # r) = c # r" by (rule trim_start_visible)
  moreover have "trim_codes ws_codes (c # r) = trim_start (c # r)" by (simp add: trim_start_def)
  ultimately show ?thesis using Cons by auto
qed simp

definition trim_rev :: "string \<Rightarrow> string" where
  "trim_rev s = trim_codes (map rev ws_codes) s"

lemma trim_end_code [code]: "trim_end s = rev (trim_rev (rev s))"
  by (simp add: trim_end_def trim_rev_def)

lemma trim_rev_code [code]:
  "trim_rev s =
     (case s of
        [] \<Rightarrow> []
      | c # r \<Rightarrow>
          if visible c then s
          else if c \<in> set [CHR 0x20, CHR 0x0A] then trim_rev r
          else trim_codes (map rev ws_codes) s)"
proof (cases s)
  case Nil
  then show ?thesis by (simp add: trim_rev_def trim_codes.simps)
next
  case (Cons c r)
  have "trim_rev (c # r) = rev (trim_end (rev r @ [c]))" by (simp add: trim_end_code)
  moreover have "trim_rev r = rev (trim_end (rev r))" by (simp add: trim_end_code)
  moreover have "trim_codes (map rev ws_codes) (c # r) = trim_rev (c # r)" by (simp add: trim_rev_def)
  ultimately show ?thesis using Cons trim_end_space [of "rev r"] trim_end_newline [of "rev r"] trim_end_visible [of c "rev r"]
    by auto
qed

lemma take_token_code [code]:
  "take_token s =
     (case s of
        [] \<Rightarrow> []
      | c # r \<Rightarrow>
          if visible c then c # take_token r
          else if c \<in> set [CHR 0x20, CHR 0x09, CHR 0x0A] then []
          else if strip_any ws_codes s = None then c # take_token r else [])"
  by (cases s) auto

end
