(* ===== verification/Resolver_Tests.thy ===== *)
theory Resolver_Tests
  imports Test_Support Resolver
begin

section \<open>Tests of the resolver\<close>

text \<open>
  The test modules of \<open>src/src/resolver.rs\<close>. The temporary directories are empty, and no directory
  above them is a repository.
\<close>

definition url_tests :: test_table where
  "url_tests =
     [(''scp_like_with_git_suffix'',
         on_ok (parse_github_remote ''git@github.com:acme/web.git'') (\<lambda>r. gr_org r = ''acme'' \<and>
           gr_repo r = ''web'' \<and> gr_scheme r = Ssh)),
      (''scp_like_without_suffix'',
         on_ok (parse_github_remote ''git@github.com:acme/web'') (\<lambda>r. gr_repo r = ''web'')),
      (''ssh_uri'',
         on_ok (parse_github_remote ''ssh://git@github.com/acme/web.git'') (\<lambda>r. gr_scheme r = Ssh \<and>
           gr_org r = ''acme'')),
      (''https_uri'',
         on_ok (parse_github_remote ''https://github.com/acme/web'') (\<lambda>r. gr_scheme r = Https \<and>
           gr_repo r = ''web'')),
      (''https_uri_with_dot_git'',
         on_ok (parse_github_remote ''https://github.com/acme/web.git'') (\<lambda>r. gr_repo r = ''web'')),
      (''non_github_host_rejected'',
         on_err (parse_github_remote ''git@gitlab.com:acme/web.git'') (\<lambda>e. e = NonGithubHost
           ''gitlab.com'')),
      (''ssh_uri_non_github_rejected'',
         on_err (parse_github_remote ''ssh://git@bitbucket.org/acme/web'') (\<lambda>e. case e of NonGithubHost
           _ \<Rightarrow> True | _ \<Rightarrow> False)),
      (''malformed_url_rejected'',
         on_err (parse_github_remote ''not a url'') (\<lambda>e. case e of InvalidRemoteUrl _ \<Rightarrow> True
           | _ \<Rightarrow> False)),
      (''missing_repo_rejected'',
         on_err (parse_github_remote ''git@github.com:acme'') (\<lambda>e. case e of InvalidRemoteUrl _
           \<Rightarrow> True | _ \<Rightarrow> False)),
      (''parse_authority_path_with_port'',
         on_ok (parse_github_remote ''https://github.com:443/acme/web'') (\<lambda>r. gr_org r = ''acme'' \<and>
           gr_repo r = ''web'' \<and> gr_scheme r = Https)),
      (''parse_authority_path_with_userinfo_and_port'',
         on_ok (parse_github_remote ''https://user@github.com:443/acme/web.git'') (\<lambda>r. gr_org r =
           ''acme'' \<and> gr_repo r = ''web'' \<and> gr_scheme r = Https)),
      (''parse_authority_path_with_port_non_github_rejected'',
         on_err (parse_github_remote ''https://gitlab.com:443/acme/web'') (\<lambda>e. e = NonGithubHost
           ''gitlab.com''))]"

definition config_tests :: test_table where
  "config_tests =
     [(''parse_origin_quoted'',
         parse_remote_url (''[remote '' @ [CHR 0x22] @ ''origin'' @ [CHR 0x22] @ '']'' @ [CHR 0x0A, CHR 0x09] @
           ''url = git@github.com:acme/web.git'' @ [CHR 0x0A]) = Some ''git@github.com:acme/web.git''),
      (''parse_first_remote_when_no_origin'',
         parse_remote_url (''[remote '' @ [CHR 0x22] @ ''upstream'' @ [CHR 0x22] @ '']'' @ [CHR 0x0A, CHR 0x09]
           @ ''url = https://github.com/acme/web.git'' @ [CHR 0x0A]) = Some ''https://github.com/acme/web.git''),
      (''origin_preferred_over_other'',
         parse_remote_url (''[remote '' @ [CHR 0x22] @ ''upstream'' @ [CHR 0x22] @ '']'' @ [CHR 0x0A, CHR 0x09]
           @ ''url = https://github.com/acme/up.git'' @ [CHR 0x0A] @ ''[remote '' @ [CHR 0x22] @ ''origin'' @
           [CHR 0x22] @ '']'' @ [CHR 0x0A, CHR 0x09] @ ''url = https://github.com/acme/web.git'' @ [CHR 0x0A]) =
           Some ''https://github.com/acme/web.git''),
      (''comments_ignored'',
         parse_remote_url (''# comment'' @ [CHR 0x0A] @ ''[remote '' @ [CHR 0x22] @ ''origin'' @ [CHR 0x22] @
           '']'' @ [CHR 0x0A, CHR 0x09] @ ''url = git@github.com:acme/web.git'' @ [CHR 0x0A]) \<noteq> None)]"

definition discovery_tests :: test_table where
  "discovery_tests =
     [(''absolute_gitdir_pointer_stands_on_its_own'',
         private_dir_from_pointer ''/co/wt'' ''gitdir: /main/.git/worktrees/wt'' = Some
           ''/main/.git/worktrees/wt''),
      (''relative_gitdir_pointer_joins_the_dir_holding_the_git_file'',
         private_dir_from_pointer ''/super/vendor/sub'' ''gitdir: ../../.git/modules/vendor/sub'' = Some
           ''/super/vendor/sub/../../.git/modules/vendor/sub''),
      (''content_without_a_gitdir_prefix_is_rejected'',
         private_dir_from_pointer ''/co/wt'' (''/main/.git/worktrees/wt'' @ [CHR 0x0A]) = None),
      (''empty_git_file_is_rejected'',
         private_dir_from_pointer ''/co/wt'' [] = None),
      (''gitdir_prefix_naming_no_path_is_rejected'',
         private_dir_from_pointer ''/co/wt'' (''gitdir:   '' @ [CHR 0x0A]) = None),
      (''trailing_newline_is_trimmed_from_the_gitdir_pointer'',
         private_dir_from_pointer ''/co/wt'' (''gitdir: /main/.git/worktrees/wt'' @ [CHR 0x0A]) = Some
           ''/main/.git/worktrees/wt''),
      (''trailing_whitespace_is_trimmed_from_the_gitdir_pointer'',
         private_dir_from_pointer ''/co/wt'' (''gitdir: /main/.git/worktrees/wt  '' @ [CHR 0x09, CHR 0x0A]) =
           Some ''/main/.git/worktrees/wt''),
      (''relative_commondir_joins_the_private_dir'',
         common_dir_from_pointer ''/main/.git/worktrees/wt'' (Some ''../..'') =
           ''/main/.git/worktrees/wt/../..''),
      (''absolute_commondir_stands_on_its_own'',
         common_dir_from_pointer ''/main/.git/worktrees/wt'' (Some ''/main/.git'') = ''/main/.git''),
      (''trailing_newline_is_trimmed_from_the_commondir_value'',
         common_dir_from_pointer ''/main/.git/worktrees/wt'' (Some (''../..'' @ [CHR 0x0A])) =
           ''/main/.git/worktrees/wt/../..''),
      (''absent_commondir_leaves_the_private_dir_as_the_common_dir'',
         common_dir_from_pointer ''/super/.git/modules/vendor/sub'' None = ''/super/.git/modules/vendor/sub''),
      (''empty_commondir_leaves_the_private_dir_as_the_common_dir'',
         common_dir_from_pointer ''/super/.git/modules/vendor/sub'' (Some [CHR 0x0A]) =
           ''/super/.git/modules/vendor/sub''),
      (''head_naming_a_branch_yields_the_branch_name'',
         parse_head_branch (''ref: refs/heads/feature/x'' @ [CHR 0x0A]) = Some ''feature/x''),
      (''detached_head_yields_no_branch'',
         parse_head_branch (''9c1f0a2b3c4d5e6f7a8b9c0d1e2f3a4b5c6d7e8f'' @ [CHR 0x0A]) = None),
      (''head_naming_a_ref_outside_refs_heads_yields_no_branch'',
         parse_head_branch (''ref: refs/tags/v1'' @ [CHR 0x0A]) = None)]"

definition argv_tests_1 :: test_table where
  "argv_tests_1 =
     [(''classify_gh_pr_create'',
         on_ok (classify_gh [''pr'', ''create'', ''--title'', ''x'']) (\<lambda>op. op = PrOpen)),
      (''classify_gh_issue_close'',
         on_ok (classify_gh [''issue'', ''close'', ''42'']) (\<lambda>op. op = IssueClose)),
      (''classify_gh_release_create'',
         on_ok (classify_gh [''release'', ''create'', ''v1'']) (\<lambda>op. op = ReleaseCreate)),
      (''classify_gh_release_delete'',
         on_ok (classify_gh [''release'', ''delete'', ''v1'', ''--yes'']) (\<lambda>op. op = ReleaseDelete)),
      (''classify_gh_release_edit'',
         on_ok (classify_gh [''release'', ''edit'', ''v1'', ''--title'', ''v1.0.0'']) (\<lambda>op. op =
           ReleaseEdit)),
      (''classify_gh_release_upload'',
         on_ok (classify_gh [''release'', ''upload'', ''v1'', ''/tmp/asset.tar.gz'']) (\<lambda>op. op =
           ReleaseUpload)),
      (''classify_gh_release_delete_asset'',
         on_ok (classify_gh [''release'', ''delete-asset'', ''v1'', ''asset.tar.gz'', ''--yes'']) (\<lambda>op.
           op = ReleaseDeleteAsset)),
      (''classify_gh_release_list'',
         on_ok (classify_gh [''release'', ''list'', ''--limit'', ''10'']) (\<lambda>op. op = ReleaseList)),
      (''classify_gh_release_view'',
         on_ok (classify_gh [''release'', ''view'', ''v1'']) (\<lambda>op. op = ReleaseView)),
      (''classify_gh_release_download'',
         on_ok (classify_gh [''release'', ''download'', ''v1'', ''--dir'', ''/tmp'']) (\<lambda>op. op =
           ReleaseDownload)),
      (''classify_gh_unknown_rejected'',
         on_err (classify_gh [''pr'', ''frobnicate'']) (\<lambda>e. case e of UnknownGhSubcommand _
           \<Rightarrow> True | _ \<Rightarrow> False)),
      (''classify_gh_api_user'',
         on_ok (classify_gh [''api'', ''user'']) (\<lambda>op. op = GhApiRead ''user'')),
      (''classify_gh_api_post_rejected'',
         on_err (classify_gh [''api'', ''-X'', ''POST'', ''repos/x'']) (\<lambda>e. case e of UnknownGhCommand _
           \<Rightarrow> True | _ \<Rightarrow> False)),
      (''classify_gh_api_delete_rejected'',
         on_err (classify_gh [''api'', ''--method'', ''DELETE'', ''repos/x'']) (\<lambda>e. case e of
           UnknownGhCommand _ \<Rightarrow> True | _ \<Rightarrow> False)),
      (''classify_gh_api_explicit_get_allowed'',
         on_ok (classify_gh [''api'', ''-X'', ''GET'', ''user'']) (\<lambda>op. op = GhApiRead ''user'')),
      (''classify_gh_api_nested_path'',
         on_ok (classify_gh [''api'', ''repos/acme/web'', ''--jq'', ''.id'']) (\<lambda>op. op = GhApiRead
           ''repos/acme/web'')),
      (''classify_gh_api_missing_path'',
         on_err (classify_gh [''api'']) (\<lambda>e. case e of MissingGhArgument _ \<Rightarrow> True | _
           \<Rightarrow> False)),
      (''classify_gh_api_input_flag_before_path'',
         on_ok (classify_gh [''api'', ''--input'', ''/tmp/body.json'', ''repos/acme/web'']) (\<lambda>op. op =
           GhApiRead ''repos/acme/web'')),
      (''classify_gh_api_jq_flag_before_path'',
         on_ok (classify_gh [''api'', ''--jq'', ''.name'', ''repos/acme/web'']) (\<lambda>op. op = GhApiRead
           ''repos/acme/web''))]"

definition argv_tests_2 :: test_table where
  "argv_tests_2 =
     [(''classify_gh_api_field_flag_before_path'',
         on_ok (classify_gh [''api'', ''-F'', ''name=value'', ''repos/acme/web'']) (\<lambda>op. op = GhApiRead
           ''repos/acme/web'')),
      (''classify_gh_api_boolean_flag_does_not_consume_path'',
         on_ok (classify_gh [''api'', ''--paginate'', ''repos/acme/web/issues'']) (\<lambda>op. op = GhApiRead
           ''repos/acme/web/issues'')),
      (''classify_gh_api_attached_short_value_consumes_no_following_token'',
         on_err (classify_gh [''api'', ''-XPOST'', ''repos/acme/web'']) (\<lambda>e. case e of UnknownGhCommand
           msg \<Rightarrow> contains msg ''POST'' | _ \<Rightarrow> False)),
      (''classify_gh_api_equals_joined_value_consumes_no_following_token'',
         on_ok (classify_gh [''api'', ''--jq=.name'', ''repos/acme/web'']) (\<lambda>op. op = GhApiRead
           ''repos/acme/web'')),
      (''classify_gh_api_value_flag_with_no_path_is_missing_argument'',
         on_err (classify_gh [''api'', ''--input'', ''/tmp/body.json'']) (\<lambda>e. case e of
           MissingGhArgument _ \<Rightarrow> True | _ \<Rightarrow> False)),
      (''classify_gh_pr_create_boolean_fill_flag_unaffected_by_api_table'',
         on_ok (classify_gh [''pr'', ''create'', ''-f'', ''--title'', ''Add stdin forwarding'']) (\<lambda>op.
           op = PrOpen)),
      (''classify_gh_pr_comment'',
         on_ok (classify_gh [''pr'', ''comment'', ''42'', ''--body'', ''hi'']) (\<lambda>op. op = PrComment)),
      (''classify_gh_pr_review'',
         on_ok (classify_gh [''pr'', ''review'', ''42'', ''--approve'']) (\<lambda>op. op = PrReview)),
      (''classify_gh_issue_comment'',
         on_ok (classify_gh [''issue'', ''comment'', ''42'', ''--body'', ''hi'']) (\<lambda>op. op =
           IssueComment)),
      (''classify_gh_release_create_with_target_and_asset'',
         on_ok (classify_gh [''release'', ''create'', ''v1.0.0'', ''--target'', ''main'', ''--title'',
           ''v1.0.0'', ''--generate-notes'', ''/tmp/myapp-1.0.0.tar.gz'']) (\<lambda>op. op = ReleaseCreate)),
      (''extract_repo_short_flag'',
         extract_repo_flag [''pr'', ''create'', ''-R'', ''other/proj''] = Some ''other/proj''),
      (''extract_repo_long_flag'',
         extract_repo_flag [''pr'', ''create'', ''--repo'', ''other/proj''] = Some ''other/proj''),
      (''extract_repo_long_flag_equals'',
         extract_repo_flag [''pr'', ''create'', ''--repo=other/proj''] = Some ''other/proj''),
      (''first_non_flag_skips_dashes'',
         first_non_flag [''-c'', ''x=y'', ''push'', ''origin''] = Some ''push''),
      (''branch_from_refspec_simple'',
         branch_from_refspec no_files ''feature/x'' None = ''feature/x''),
      (''branch_from_refspec_with_target'',
         branch_from_refspec no_files ''HEAD:refs/heads/main'' None = ''main''),
      (''branch_from_refspec_local_to_remote_strips_refs_heads'',
         branch_from_refspec no_files ''feature/x:refs/heads/release/v1'' None = ''release/v1''),
      (''branch_from_refspec_remote_plain_branch_name'',
         branch_from_refspec no_files ''feature/x:main'' None = ''main'')]"

definition argv_tests_3 :: test_table where
  "argv_tests_3 =
     [(''branch_from_refspec_empty_remote_falls_back_to_local'',
         branch_from_refspec no_files ''feature/x:'' None = ''feature/x''),
      (''branch_from_refspec_head_to_head_falls_back'',
         branch_from_refspec no_files ''HEAD:HEAD'' None = ''HEAD''),
      (''branch_from_refspec_strips_refs_heads'',
         branch_from_refspec no_files ''refs/heads/release/v1'' None = ''release/v1'')]"

text \<open>The temporary directory of a test, which is empty.\<close>

definition tempdir :: path where
  "tempdir = ''/tmp/repo''"

definition hint_tests :: test_table where
  "hint_tests =
     [(''resolve_git_push_with_url_hint'',
         on_ok (resolve_git no_files [''push'', ''origin'', ''main''] tempdir (Some
           ''git@github.com:acme/web.git'') None) (\<lambda>r. rr_org r = ''acme'' \<and> rr_repo r = ''web''
           \<and> rr_operation r = Push)),
      (''resolve_git_fetch_with_url_hint'',
         on_ok (resolve_git no_files [''fetch''] tempdir (Some ''git@github.com:acme/web.git'') None)
           (\<lambda>r. rr_org r = ''acme'' \<and> rr_repo r = ''web'' \<and> rr_operation r = Fetch)),
      (''resolve_gh_pr_create_with_url_hint'',
         on_ok (resolve_gh no_files [''pr'', ''create'', ''--title'', ''x''] tempdir (Some
           ''git@github.com:acme/web.git'') None) (\<lambda>r. rr_org r = ''acme'' \<and> rr_repo r = ''web''
           \<and> rr_operation r = PrOpen)),
      (''resolve_gh_pr_create_uses_branch_hint'',
         on_ok (resolve_gh no_files [''pr'', ''create'', ''--title'', ''x''] tempdir (Some
           ''git@github.com:acme/web.git'') (Some ''feature/x'')) (\<lambda>r. rr_org r = ''acme'' \<and>
           rr_repo r = ''web'' \<and> rr_operation r = PrOpen \<and> rr_branch r = Some ''feature/x'')),
      (''resolve_git_push_explicit_refspec_beats_hint'',
         on_ok (resolve_git no_files [''push'', ''origin'', ''feature/x''] tempdir (Some
           ''git@github.com:acme/web.git'') (Some ''main'')) (\<lambda>r. rr_branch r = Some ''feature/x'')),
      (''resolve_git_push_uses_hint_when_no_refspec'',
         on_ok (resolve_git no_files [''push''] tempdir (Some ''git@github.com:acme/web.git'') (Some ''main''))
           (\<lambda>r. rr_branch r = Some ''main'')),
      (''resolve_git_push_no_hint_no_repo'',
         on_err (resolve_git no_files [''push'', ''origin'', ''main''] tempdir None None) (\<lambda>e. case e of
           NoRepoContext _ \<Rightarrow> True | _ \<Rightarrow> False)),
      (''resolve_gh_release_create_with_target_and_asset_from_cwd_remote'',
         on_ok (resolve_gh no_files [''release'', ''create'', ''v1.0.0'', ''--target'', ''main'', ''--title'',
           ''v1.0.0'', ''--generate-notes'', ''/tmp/myapp-1.0.0.tar.gz''] tempdir (Some
           ''https://github.com/acme/myapp.git'') None) (\<lambda>r. rr_org r = ''acme'' \<and> rr_repo r =
           ''myapp'' \<and> rr_operation r = ReleaseCreate))]"

subsection \<open>All of them hold\<close>

lemma url_tests_pass: "all_pass url_tests"
  by code_simp

lemma config_tests_pass: "all_pass config_tests"
  by code_simp

lemma discovery_tests_pass: "all_pass discovery_tests"
  by code_simp

lemma argv_tests_1_pass: "all_pass argv_tests_1"
  by code_simp

lemma argv_tests_2_pass: "all_pass argv_tests_2"
  by code_simp

lemma argv_tests_3_pass: "all_pass argv_tests_3"
  by code_simp

lemma hint_tests_pass: "all_pass hint_tests"
  by code_simp

end
