(* ===== verification/Policy_Tests.thy ===== *)
theory Policy_Tests
  imports Test_Support Policy
begin

section \<open>Tests of the policy engine\<close>

text \<open>
  The test module of \<open>src/src/policy.rs\<close>. The YAML parser is a parameter of the model, so a test's document
  is given as the fields it has, and the glob compiler is the one the patterns of the tests need.
\<close>

text \<open>
  The documents of the tests, as the mapping of fields the YAML parser hands to \<open>serde\<close>: the operations
  field and the entries of a role are read by the two \<open>Deserialize\<close> implementations of the program, an
  absent \<open>branches\<close> field takes its default, and an unknown field is refused.
\<close>

definition de_error_text :: "de_error \<Rightarrow> string" where
  "de_error_text e =
     (case e of
        UnknownVariant t \<Rightarrow>
          ''unknown variant '' @ [CHR 0x60] @ t @ [CHR 0x60] @ '', expected '' @ [CHR 0x60] @ ''push'' @ [CHR 0x60] @
          '' or '' @ [CHR 0x60] @ ''...'' @ [CHR 0x60]
      | InvalidType \<Rightarrow> ''invalid type'')"

definition rule_doc ::
    "string \<Rightarrow> string \<Rightarrow> string \<Rightarrow> yaml \<Rightarrow> string list option \<Rightarrow> effect \<Rightarrow> string list \<Rightarrow> string + rule" where
  "rule_doc u org repo ops branches eff unknown =
     (if unknown \<noteq> [] then Inl (''unknown field '' @ hd unknown)
      else (case deserialize_operations_spec ops of
              Inl e \<Rightarrow> Inl (de_error_text e)
            | Inr spec \<Rightarrow>
                Inr \<lparr>rule_user = u, rule_org = org, rule_repo = repo, rule_spec = spec,
                     rule_branches = unwrap_or default_branches branches, rule_effect = eff\<rparr>))"

fun rules_doc :: "(string + rule) list \<Rightarrow> string + rule list" where
  "rules_doc [] = Inr []"
| "rules_doc (r # rs) =
     (case r of Inl e \<Rightarrow> Inl e | Inr v \<Rightarrow> (case rules_doc rs of Inl e \<Rightarrow> Inl e | Inr vs \<Rightarrow> Inr (v # vs)))"

fun roles_doc :: "(string \<times> yaml list) list \<Rightarrow> string + (string \<times> operation list) list" where
  "roles_doc [] = Inr []"
| "roles_doc ((name, ys) # rs) =
     (case visit_seq [] ys of
        Inl e \<Rightarrow> Inl (de_error_text e)
      | Inr ops \<Rightarrow> (case roles_doc rs of Inl e \<Rightarrow> Inl e | Inr vs \<Rightarrow> Inr ((name, ops) # vs)))"

definition document :: "(string \<times> yaml list) list \<Rightarrow> (string + rule) list \<Rightarrow> string + policy" where
  "document rls rs =
     (case roles_doc rls of
        Inl e \<Rightarrow> Inl e
      | Inr ros \<Rightarrow> (case rules_doc rs of Inl e \<Rightarrow> Inl e | Inr rus \<Rightarrow> Inr \<lparr>rules = rus, roles = ros\<rparr>))"

definition op_names :: "string list \<Rightarrow> yaml" where
  "op_names names = YSeq (map YStr names)"

text \<open>The rule of most tests, for alice on acme/web, and the policy with only that rule.\<close>

definition alice_web :: "yaml \<Rightarrow> string list option \<Rightarrow> string + rule" where
  "alice_web spec branches = rule_doc ''alice'' ''acme'' ''web'' spec branches EffAllow []"

text \<open>
  The glob compiler on the patterns of the tests: \<open>*\<close> stands for any text, and no other special
  character occurs.
\<close>

fun star_match :: "string \<Rightarrow> string \<Rightarrow> bool" where
  "star_match [] t = (t = [])"
| "star_match (c # p) t =
     (if c = CHR ''*'' then list_ex (\<lambda>n. star_match p (drop n t)) [0..<Suc (length t)]
      else (case t of [] \<Rightarrow> False | d # t' \<Rightarrow> c = d \<and> star_match p t'))"

definition star_glob :: glob where
  "star_glob pat = Inr (star_match pat)"

definition load_doc :: "string + policy \<Rightarrow> policy_error + policy" where
  "load_doc doc = from_yaml (\<lambda>_. doc) star_glob []"

definition decides :: "string + policy \<Rightarrow> policy_request \<Rightarrow> (decision \<Rightarrow> bool) \<Rightarrow> bool" where
  "decides doc q P = on_ok (load_doc doc) (\<lambda>p. P (evaluate star_glob p q))"

definition is_deny :: "decision \<Rightarrow> bool" where
  "is_deny d = (case d of Deny _ \<Rightarrow> True | Allow \<Rightarrow> False)"

definition is_allow :: "decision \<Rightarrow> bool" where
  "is_allow d = (d = Allow)"

definition test_req :: "string \<Rightarrow> string \<Rightarrow> string \<Rightarrow> operation \<Rightarrow> string option \<Rightarrow> policy_request" where
  "test_req u org repo operation branch =
     \<lparr>req_user = u, req_org = org, req_repo = repo, req_operation = operation, req_branch = branch\<rparr>"

definition policy_tests_1 :: test_table where
  "policy_tests_1 =
     [(''allow_exact_match'',
         decides (document [] [(alice_web (op_names [''push'']) (Some [''main'']))]) (test_req ''alice''
           ''acme'' ''web'' Push (Some ''main'')) is_allow),
      (''default_deny_when_no_rule_matches'',
         decides (document [] [(alice_web (op_names [''push'']) (Some [''main'']))]) (test_req ''bob'' ''acme''
           ''web'' Push (Some ''main'')) (\<lambda>d. case d of Deny reason \<Rightarrow> contains reason
           ''no matching rule'' | Allow \<Rightarrow> False)),
      (''first_match_wins'',
         decides (document [] [(rule_doc ''*'' ''acme'' ''web'' (op_names [''push'']) (Some [''*'']) EffDeny
           []), (rule_doc ''*'' ''acme'' ''*'' (op_names [''push'']) (Some [''*'']) EffAllow [])]) (test_req
           ''alice'' ''acme'' ''web'' Push (Some ''main'')) is_deny),
      (''wildcard_user_matches_anyone'',
         decides (document [] [(rule_doc ''*'' ''acme'' ''web'' (op_names [''push'']) (Some [''main'']) EffAllow
           [])]) (test_req ''dave'' ''acme'' ''web'' Push (Some ''main'')) is_allow),
      (''branch_glob_release_wildcard'',
         decides (document [] [(alice_web (op_names [''push'']) (Some [''release/*'']))]) (test_req ''alice''
           ''acme'' ''web'' Push (Some ''release/v1.2'')) is_allow \<and> decides (document [] [(alice_web
           (op_names [''push'']) (Some [''release/*'']))]) (test_req ''alice'' ''acme'' ''web'' Push (Some
           ''main'')) is_deny),
      (''operation_mismatch_no_match'',
         decides (document [] [(alice_web (op_names [''push'', ''fetch'']) (Some [''*'']))]) (test_req ''alice''
           ''acme'' ''web'' PrMerge (Some ''main'')) is_deny)]"

definition policy_tests_2 :: test_table where
  "policy_tests_2 =
     [(''unknown_operation_rejected'',
         on_err (load_doc (document [] [(alice_web (op_names [''frobnicate'']) (Some [''*'']))])) (\<lambda>e.
           contains (policy_error_text e) ''frobnicate'')),
      (''empty_operations_rejected'',
         on_err (load_doc (document [] [(alice_web (op_names []) (Some [''*'']))])) (\<lambda>e. e =
           EmptyOperations 0)),
      (''branchless_operation_ignores_branch'',
         decides (document [] [(alice_web (op_names [''issue_open'']) (Some [''main'']))]) (test_req ''alice''
           ''acme'' ''web'' IssueOpen None) is_allow),
      (''unknown_field_rejected'',
         on_err (load_doc (document [] [(rule_doc ''alice'' ''acme'' ''web'' (op_names [''push'']) (Some
           [''*'']) EffAllow [''surprise''])])) (\<lambda>_. True)),
      (''missing_branches_defaults_to_wildcard'',
         on_ok (load_doc (document [] [(alice_web (op_names [''push'']) None)])) (\<lambda>p. rule_branches
           (rules p ! 0) = [''*'']) \<and> decides (document [] [(alice_web (op_names [''push'']) None)])
           (test_req ''alice'' ''acme'' ''web'' Push (Some ''anything'')) is_allow),
      (''pull_has_branch_is_false'',
         \<not> has_branch Pull),
      (''gh_api_read_has_branch_is_false'',
         \<not> has_branch (GhApiRead ''user'')),
      (''policy_loads_gh_api_read'',
         on_ok (load_doc (document [] [(rule_doc ''alice'' ''*'' ''*'' (op_names [''gh_api_read'']) None
           EffAllow [])])) (\<lambda>p. rule_spec (rules p ! 0) = OpList [GhApiRead []]))]"

definition policy_tests_3 :: test_table where
  "policy_tests_3 =
     [(''gh_api_read_allowed_user_scope'',
         decides (document [] [(rule_doc ''alice'' ''*'' ''*'' (op_names [''gh_api_read'']) None EffAllow [])])
           (test_req ''alice'' ''*'' ''*'' (GhApiRead ''user'') None) is_allow),
      (''gh_api_read_ignores_branch'',
         decides (document [] [(rule_doc ''alice'' ''*'' ''*'' (op_names [''gh_api_read'']) (Some [''main''])
           EffAllow [])]) (test_req ''alice'' ''*'' ''*'' (GhApiRead ''repos/acme/web'') (Some ''anything''))
           is_allow),
      (''gh_api_read_default_deny'',
         decides (document [] [(alice_web (op_names [''push'']) None)]) (test_req ''alice'' ''*'' ''*''
           (GhApiRead ''user'') None) is_deny),
      (''policy_loads_release_lifecycle_ops'',
         on_ok (load_doc (document [] [(alice_web (op_names [''release_delete'', ''release_edit'',
           ''release_upload'', ''release_delete_asset'', ''release_list'', ''release_view'',
           ''release_download'']) None)])) (\<lambda>p. rule_spec (rules p ! 0) = OpList [ReleaseDelete,
           ReleaseEdit, ReleaseUpload, ReleaseDeleteAsset, ReleaseList, ReleaseView, ReleaseDownload])),
      (''release_lifecycle_op_rule_does_not_match_other_release_ops'',
         decides (document [] [(alice_web (op_names [''release_delete'']) None)]) (test_req ''alice'' ''acme''
           ''web'' ReleaseDelete None) is_allow \<and> decides (document [] [(alice_web (op_names
           [''release_delete'']) None)]) (test_req ''alice'' ''acme'' ''web'' ReleaseEdit None) is_deny \<and>
           decides (document [] [(alice_web (op_names [''release_delete'']) None)]) (test_req ''alice'' ''acme''
           ''web'' ReleaseUpload None) is_deny \<and> decides (document [] [(alice_web (op_names
           [''release_delete'']) None)]) (test_req ''alice'' ''acme'' ''web'' ReleaseDeleteAsset None) is_deny
           \<and> decides (document [] [(alice_web (op_names [''release_delete'']) None)]) (test_req ''alice''
           ''acme'' ''web'' ReleaseList None) is_deny \<and> decides (document [] [(alice_web (op_names
           [''release_delete'']) None)]) (test_req ''alice'' ''acme'' ''web'' ReleaseView None) is_deny \<and>
           decides (document [] [(alice_web (op_names [''release_delete'']) None)]) (test_req ''alice'' ''acme''
           ''web'' ReleaseDownload None) is_deny)]"

definition policy_tests_4 :: test_table where
  "policy_tests_4 =
     [(''release_lifecycle_ops_have_no_branch'',
         \<not> has_branch ReleaseDelete \<and> \<not> has_branch ReleaseEdit \<and> \<not> has_branch
           ReleaseUpload \<and> \<not> has_branch ReleaseDeleteAsset \<and> \<not> has_branch ReleaseList \<and>
           \<not> has_branch ReleaseView \<and> \<not> has_branch ReleaseDownload),
      (''policy_with_pull_loads'',
         on_ok (load_doc (document [] [(alice_web (op_names [''pull'']) None)])) (\<lambda>p. rule_spec (rules p
           ! 0) = OpList [Pull])),
      (''fetch_rule_does_not_match_pull'',
         decides (document [] [(alice_web (op_names [''fetch'']) None)]) (test_req ''alice'' ''acme'' ''web''
           Pull None) is_deny \<and> decides (document [] [(alice_web (op_names [''pull'']) None)]) (test_req
           ''alice'' ''acme'' ''web'' Pull None) is_allow),
      (''builtin_roles_available_without_declaration'',
         decides (document [] [(alice_web (YStr ''read-only'') None)]) (test_req ''alice'' ''acme'' ''web''
           Fetch None) is_allow \<and> decides (document [] [(alice_web (YStr ''read-only'') None)]) (test_req
           ''alice'' ''acme'' ''web'' ReleaseList None) is_allow \<and> decides (document [] [(alice_web (YStr
           ''read-only'') None)]) (test_req ''alice'' ''acme'' ''web'' ReleaseDownload None) is_allow),
      (''maintain_role_grants_release_delete'',
         decides (document [] [(alice_web (YStr ''maintain'') None)]) (test_req ''alice'' ''acme'' ''web''
           ReleaseDelete None) is_allow),
      (''maintain_role_grants_release_create'',
         decides (document [] [(alice_web (YStr ''maintain'') None)]) (test_req ''alice'' ''acme'' ''web''
           ReleaseCreate None) is_allow)]"

definition policy_tests_5 :: test_table where
  "policy_tests_5 =
     [(''write_role_denies_release_delete'',
         decides (document [] [(alice_web (YStr ''write'') None)]) (test_req ''alice'' ''acme'' ''web''
           ReleaseDelete None) is_deny),
      (''read_only_role_grants_release_view'',
         decides (document [] [(alice_web (YStr ''read-only'') None)]) (test_req ''alice'' ''acme'' ''web''
           ReleaseView None) is_allow),
      (''admin_role_superset_of_maintain'',
         on_some (map_of builtin_roles ''admin'') (\<lambda>admin. on_some (map_of builtin_roles ''maintain'')
           (\<lambda>maintain. list_all (\<lambda>op. list_ex (\<lambda>granted. same_kind granted op) admin)
           maintain))),
      (''rule_matches_via_builtin_role'',
         decides (document [] [(alice_web (YStr ''write'') None)]) (test_req ''alice'' ''acme'' ''web'' PrOpen
           None) is_allow \<and> decides (document [] [(alice_web (YStr ''write'') None)]) (test_req ''alice''
           ''acme'' ''web'' ReleaseCreate None) is_deny),
      (''role_resolved_at_eval_time'',
         decides (document [(''write'', map YStr [''release_create''])] [(alice_web (YStr ''write'') None)])
           (test_req ''alice'' ''acme'' ''web'' ReleaseCreate None) is_allow \<and> decides (document
           [(''write'', map YStr [''release_create''])] [(alice_web (YStr ''write'') None)]) (test_req ''alice''
           ''acme'' ''web'' Push (Some ''main'')) is_deny),
      (''user_defined_role_matches'',
         decides (document [(''reviewer'', map YStr [''pr_review'', ''pr_comment''])] [(alice_web (YStr
           ''reviewer'') None)]) (test_req ''alice'' ''acme'' ''web'' PrReview None) is_allow \<and> decides
           (document [(''reviewer'', map YStr [''pr_review'', ''pr_comment''])] [(alice_web (YStr ''reviewer'')
           None)]) (test_req ''alice'' ''acme'' ''web'' PrComment None) is_allow \<and> decides (document
           [(''reviewer'', map YStr [''pr_review'', ''pr_comment''])] [(alice_web (YStr ''reviewer'') None)])
           (test_req ''alice'' ''acme'' ''web'' PrMerge None) is_deny)]"

definition policy_tests_6 :: test_table where
  "policy_tests_6 =
     [(''user_role_overrides_builtin'',
         decides (document [(''read-only'', map YStr [''pr_review''])] [(alice_web (YStr ''read-only'') None)])
           (test_req ''alice'' ''acme'' ''web'' Fetch None) is_deny \<and> decides (document [(''read-only'',
           map YStr [''pr_review''])] [(alice_web (YStr ''read-only'') None)]) (test_req ''alice'' ''acme''
           ''web'' PrReview None) is_allow),
      (''unknown_role_reference_rejected'',
         on_err (load_doc (document [] [(alice_web (YStr ''maintainer'') None)])) (\<lambda>e. contains
           (policy_error_text e) ''maintainer'')),
      (''role_with_unknown_operation_rejected'',
         on_err (load_doc (document [(''bogus'', map YStr [''frobnicate''])] [(alice_web (YStr ''bogus'')
           None)])) (\<lambda>e. contains (policy_error_text e) ''frobnicate'')),
      (''empty_role_rejected'',
         on_err (load_doc (document [(''empty'', map YStr [])] [(alice_web (YStr ''empty'') None)]))
           (\<lambda>e. contains (policy_error_text e) ''empty'')),
      (''inline_operations_list_still_matches'',
         decides (document [] [(alice_web (op_names [''push'', ''fetch'']) (Some [''*'']))]) (test_req ''alice''
           ''acme'' ''web'' Push (Some ''main'')) is_allow \<and> decides (document [] [(alice_web (op_names
           [''push'', ''fetch'']) (Some [''*'']))]) (test_req ''alice'' ''acme'' ''web'' Fetch None) is_allow),
      (''role_push_respects_branch_globs'',
         decides (document [] [(alice_web (YStr ''write'') (Some [''release/*'']))]) (test_req ''alice''
           ''acme'' ''web'' Push (Some ''release/v1.2'')) is_allow \<and> decides (document [] [(alice_web (YStr
           ''write'') (Some [''release/*'']))]) (test_req ''alice'' ''acme'' ''web'' Push (Some ''main''))
           is_deny)]"

definition policy_tests_7 :: test_table where
  "policy_tests_7 =
     [(''pull_ignores_branch_field'',
         decides (document [] [(alice_web (op_names [''pull'']) (Some [''main'']))]) (test_req ''alice''
           ''acme'' ''web'' Pull None) is_allow)]"

subsection \<open>All of them hold\<close>

lemma policy_tests_1_pass: "all_pass policy_tests_1"
  by code_simp

lemma policy_tests_2_pass: "all_pass policy_tests_2"
  by code_simp

lemma policy_tests_3_pass: "all_pass policy_tests_3"
  by code_simp

lemma policy_tests_4_pass: "all_pass policy_tests_4"
  by code_simp

lemma policy_tests_5_pass: "all_pass policy_tests_5"
  by code_simp

lemma policy_tests_6_pass: "all_pass policy_tests_6"
  by code_simp

lemma policy_tests_7_pass: "all_pass policy_tests_7"
  by code_simp

end
