(* ===== verification/Doctor_Tests.thy ===== *)
theory Doctor_Tests
  imports Policy_Tests Doctor
begin

section \<open>Tests of the doctor\<close>

text \<open>The test module of \<open>src/src/cmd/doctor.rs\<close>.\<close>

text \<open>
  The host of the tests: a directory \<open>/tmp/t\<close> that the test made and owns, and nothing in it but the files
  a test writes; the tests do not run as root, and no account is called \<open>ghbrk\<close>.
\<close>

definition test_metadata :: metadata where
  "test_metadata = \<lparr>md_kind = KDir, md_mode = 0x41C0, md_uid = 1000, md_dev = 0x801, md_ino = 77\<rparr>"

definition test_world :: "(path \<Rightarrow> io_error + opened) \<Rightarrow> string + policy \<Rightarrow> doctor_world" where
  "test_world opens doc =
     \<lparr>dw_runtime = None, dw_getenv = (\<lambda>_. None), dw_cwd = Inr ''/tmp/t'',
      dw_fs = no_files\<lparr>fs_metadata := \<lambda>p. if p = ''/tmp/t'' \<or> p = ''/tmp'' then Inr test_metadata else Inl no_entry\<rparr>,
      dw_open = opens, dw_read_yaml = (\<lambda>_. doc), dw_glob = star_glob,
      dw_connect = (\<lambda>_. Inl no_entry), dw_ser_request = (\<lambda>_. Inl ''unused''),
      dw_de = (\<lambda>_. Inl ''unused''), dw_user_from_name = (\<lambda>_. Inr None)\<rparr>"

definition no_document :: "string + policy" where
  "no_document = Inl ''mapping values are not allowed in this context''"

definition bare_world :: doctor_world where
  "bare_world = test_world (\<lambda>_. Inl no_entry) no_document"

definition denied_entry :: io_error where
  "denied_entry = \<lparr>io_kind = PermissionDenied, io_text = ''Permission denied (os error 13)''\<rparr>"

definition on_error :: "permission_verdict \<Rightarrow> (string \<Rightarrow> bool) \<Rightarrow> bool" where
  "on_error v P = (case v of Error detail \<Rightarrow> P detail | _ \<Rightarrow> False)"

definition on_warning :: "permission_verdict \<Rightarrow> (string \<Rightarrow> bool) \<Rightarrow> bool" where
  "on_warning v P = (case v of Warning detail \<Rightarrow> P detail | _ \<Rightarrow> False)"

definition PASSING_CREDENTIAL_LINES :: "string" where
  "PASSING_CREDENTIAL_LINES =
     ''SSH key: OK'' @ [CHR 0x0A] @ ''Token: OK'' @ [CHR 0x0A] @ ''GitHub API: OK (user: x)'' @ [CHR 0x0A]"

definition BROKER_CHECK_FAILED :: "i32" where
  "BROKER_CHECK_FAILED = 1"

definition doctor_tests_1 :: test_table where
  "doctor_tests_1 =
     [(''policy_missing_file_reports_missing'',
         (case policy_status bare_world ''/tmp/t/nonexistent.yaml'' of (v, msg) \<Rightarrow> on_error v
           (\<lambda>_. True) \<and> contains msg ''Policy: MISSING'')),
      (''policy_valid_file_reports_ok'',
         fst (policy_status (test_world (\<lambda>_. Inr (Inr ''rules'')) (document [] [rule_doc ''*'' ''acme''
           ''*'' (op_names [''push'']) None EffAllow []])) ''/tmp/f'') = VerdictOk),
      (''policy_invalid_yaml_reports_invalid'',
         (case policy_status (test_world (\<lambda>_. Inr (Inr ''not: valid'')) no_document) ''/tmp/f'' of (v,
           msg) \<Rightarrow> on_error v (\<lambda>_. True) \<and> contains msg ''INVALID''))]"

definition doctor_tests_2 :: test_table where
  "doctor_tests_2 =
     [(''classify_permissions_tiers_by_path_kind'',
         classify_permissions File 4242 4242 0x180 0x180 = VerdictOk \<and> classify_permissions File 4242 4242
           0x180 0x8180 = VerdictOk \<and> on_warning (classify_permissions File 4242 4242 0x180 0x1A0)
           (\<lambda>d. contains d ''640'') \<and> on_warning (classify_permissions File 4242 4242 0x180 0x1A4)
           (\<lambda>d. contains d ''644'') \<and> on_error (classify_permissions File 4242 4242 0x180 0x190)
           (\<lambda>d. contains d ''620'') \<and> on_error (classify_permissions File 4242 4242 0x180 0x1B6)
           (\<lambda>d. contains d ''666'') \<and> on_error (classify_permissions File 4242 1000 0x180 0x180)
           (\<lambda>d. contains d ''1000'' \<and> contains d ''4242'') \<and> on_error (classify_permissions
           File 4242 1000 0x180 0x1B6) (\<lambda>d. True) \<and> classify_permissions Directory 0 0 0x1ED 0x1ED
           = VerdictOk \<and> classify_permissions Directory 0 0 0x1C0 0x1C0 = VerdictOk \<and> on_warning
           (classify_permissions Directory 0 0 0x1C0 0x1E0) (\<lambda>d. contains d ''740'') \<and> on_error
           (classify_permissions Directory 0 0 0x1C0 0x1C8) (\<lambda>d. contains d ''710'') \<and> on_error
           (classify_permissions Directory 0 0 0x1C0 0x1D0) (\<lambda>d. contains d ''720'') \<and> on_error
           (classify_permissions Directory 0 0 0x1ED 0x1EF) (\<lambda>d. contains d ''757'') \<and> on_error
           (classify_permissions Directory 0 1000 0x1ED 0x1ED) (\<lambda>d. contains d ''1000'' \<and> contains
           d ''0'') \<and> classify_permissions Socket 4242 4242 0x1B0 0x1B0 = VerdictOk \<and>
           classify_permissions Socket 4242 4242 0x1B0 0x180 = VerdictOk \<and> on_error (classify_permissions
           Socket 4242 4242 0x1B0 0x1B6) (\<lambda>d. contains d ''666'') \<and> on_error (classify_permissions
           Socket 4242 4242 0x1B0 0x1B4) (\<lambda>d. contains d ''664'') \<and> on_error (classify_permissions
           Socket 4242 1000 0x1B0 0x1B0) (\<lambda>d. contains d ''1000'' \<and> contains d ''4242''))]"

definition doctor_tests_3 :: test_table where
  "doctor_tests_3 =
     [(''config_dir_from_policy_path_uses_parent'',
         config_dir_from_policy_path ''/etc/ghbrk/policy.yaml'' = ''/etc/ghbrk''),
      (''config_dir_from_bare_policy_path_falls_back_to_default'',
         config_dir_from_policy_path ''policy.yaml'' = DEFAULT_CONFIG_DIR),
      (''config_dir_missing_path_reports_error'',
         on_error (fst (check_config_dir_permissions bare_world ''/tmp/t/absent'')) (\<lambda>d. contains d
           ''cannot stat'')),
      (''config_dir_owned_by_non_root_reports_error'',
         on_error (fst (check_config_dir_permissions bare_world ''/tmp/t'')) (\<lambda>d. contains d
           ''owner uid'')),
      (''socket_missing_path_reports_error_or_owner_warning'',
         (case fst (check_socket_permissions bare_world ''/tmp/t/absent.sock'') of Error detail \<Rightarrow>
           contains detail ''cannot stat'' | Warning detail \<Rightarrow> contains detail SOCKET_OWNER_USER |
           VerdictOk \<Rightarrow> False)),
      (''aggregate_exit_is_success_when_all_ok'',
         aggregate_exit [VerdictOk, VerdictOk, VerdictOk] = EXIT_SUCCESS),
      (''aggregate_exit_is_success_when_only_warnings'',
         aggregate_exit [VerdictOk, Warning ''read-path widening'', Warning ''another''] = EXIT_SUCCESS),
      (''aggregate_exit_fails_when_any_error_present'',
         aggregate_exit [VerdictOk, Warning ''read-path'', Error ''write-path''] = EXIT_FAILURE),
      (''aggregate_exit_of_empty_is_success'',
         aggregate_exit [] = EXIT_SUCCESS),
      (''verdict_from_success_maps_true_to_ok'',
         verdict_from_success True ''unused detail'' = VerdictOk),
      (''verdict_from_success_maps_false_to_error_with_detail'',
         on_error (verdict_from_success False ''daemon unreachable'') (\<lambda>d. d = ''daemon unreachable'')),
      (''policy_permission_denied_is_silent'',
         (case policy_status (test_world (\<lambda>_. Inl denied_entry) no_document) ''/tmp/f'' of (v, msg)
           \<Rightarrow> v = VerdictOk \<and> msg = []))]"

definition doctor_tests_4 :: test_table where
  "doctor_tests_4 =
     [(''daemon_unreachable_reports_unreachable'',
         (case check_daemon_and_creds bare_world ''/tmp/t/absent.sock'' None of (daemon_ok, checks, _)
           \<Rightarrow> \<not> daemon_ok \<and> \<not> cv_credentials_ok checks \<and> cv_credential_paths
           checks = [] \<and> cv_shared_filesystem checks = VerdictOk)),
      (''caller_tmp_identity_reports_own_tmp_stat'',
         on_ok (fs_metadata (dw_fs bare_world) ''/tmp'') (\<lambda>meta. on_ok (caller_tmp_identity bare_world)
           (\<lambda>ident. tmp_dev ident = md_dev meta \<and> tmp_ino ident = md_ino meta))),
      (''split_out_shared_filesystem_line_extracts_matching_line'',
         split_out_shared_filesystem_line (''SSH key: OK'' @ [CHR 0x0A] @ ''Token: OK'' @ [CHR 0x0A] @
           ''Shared filesystem: OK'' @ [CHR 0x0A] @ ''GitHub API: OK (user: x)'' @ [CHR 0x0A]) = (Some
           ''Shared filesystem: OK'', PASSING_CREDENTIAL_LINES)),
      (''credentials_pass_when_every_line_reports_ok_despite_a_failing_exit_code'',
         credentials_passed BROKER_CHECK_FAILED PASSING_CREDENTIAL_LINES []),
      (''credentials_fail_when_a_credential_line_reports_a_failure'',
         \<not> credentials_passed BROKER_CHECK_FAILED (''SSH key: OK'' @ [CHR 0x0A] @ ''Token: MISSING'' @ [CHR
           0x0A] @ ''GitHub API: SKIPPED (no token available)'' @ [CHR 0x0A]) []),
      (''credentials_treat_a_skipped_check_as_passing'',
         credentials_passed BROKER_CHECK_FAILED (''SSH key: OK'' @ [CHR 0x0A] @ ''Token: OK'' @ [CHR 0x0A] @
           ''GitHub API: SKIPPED (no token available)'' @ [CHR 0x0A]) []),
      (''credentials_fail_for_an_unrecognised_line_when_the_exit_code_failed'',
         \<not> credentials_passed BROKER_CHECK_FAILED (''ghbrk check: invalid user name '' @ [CHR 0x22] @
           ''../etc'' @ [CHR 0x22, CHR 0x0A]) []),
      (''credentials_pass_for_an_unrecognised_line_when_the_exit_code_succeeded'',
         credentials_passed 0 (''Some check a newer daemon added: PENDING'' @ [CHR 0x0A]) []),
      (''credentials_fail_when_a_credential_path_audit_reports_an_error'',
         \<not> credentials_passed 0 PASSING_CREDENTIAL_LINES [Error ''mode 0620 is group-writable'']),
      (''credentials_pass_when_a_credential_path_audit_only_warns'',
         credentials_passed 0 PASSING_CREDENTIAL_LINES [Warning ''mode 0640 is group-readable'']),
      (''credentials_pass_when_the_broker_reported_no_credential_lines'',
         credentials_passed BROKER_CHECK_FAILED [] []),
      (''shared_filesystem_verdict_is_ok_for_a_passing_line'',
         shared_filesystem_verdict ''Shared filesystem: OK'' = VerdictOk),
      (''shared_filesystem_verdict_is_an_error_naming_the_failing_line'',
         on_error (shared_filesystem_verdict
           ''Shared filesystem: ERROR (caller /tmp is dev 8:1, broker /tmp is dev 0:34)'') (\<lambda>d. d =
           ''Shared filesystem: ERROR (caller /tmp is dev 8:1, broker /tmp is dev 0:34)'')),
      (''split_out_shared_filesystem_line_reports_none_when_absent'',
         split_out_shared_filesystem_line (''SSH key: OK'' @ [CHR 0x0A] @ ''Token: OK'' @ [CHR 0x0A]) = (None,
           (''SSH key: OK'' @ [CHR 0x0A] @ ''Token: OK'' @ [CHR 0x0A])))]"

subsection \<open>All of them hold\<close>

lemma doctor_tests_1_pass: "all_pass doctor_tests_1"
  by code_simp

lemma doctor_tests_2_pass: "all_pass doctor_tests_2"
  by (simp add: all_pass_def doctor_tests_2_def classify_permissions_def PERMISSION_BITS_def GROUP_OTHER_WRITE_def
      GROUP_OTHER_READ_def GROUP_OTHER_WRITE_EXEC_def OTHER_CONNECT_def on_error_def on_warning_def show_oct_def
      show_nat_def show_base.simps digit_char_def char_of_def bit_0 starts_with_def Let_def contains_def)

lemma doctor_tests_3_pass: "all_pass doctor_tests_3"
  by code_simp

lemma doctor_tests_4_pass: "all_pass doctor_tests_4"
  by code_simp

end
