(* ===== verification/Credentials_Tests.thy ===== *)
theory Credentials_Tests
  imports Test_Support Credentials
begin

section \<open>Tests of the credentials\<close>

text \<open>
  The test module of \<open>src/src/credentials.rs\<close>, but for its last test, which looks at the output of the
  tracing library.
\<close>

text \<open>A file under the temporary directory \<open>/tmp/t\<close> of a test, and the two credential files of a user.\<close>

definition write_file :: "path \<Rightarrow> string \<Rightarrow> u32 \<Rightarrow> path \<times> string \<times> u32" where
  "write_file p contents mode = (p, contents, mode)"

definition write_user_creds :: "path \<Rightarrow> string \<Rightarrow> string \<Rightarrow> string \<Rightarrow> u32 \<Rightarrow> (path \<times> string \<times> u32) list" where
  "write_user_creds base u key tok mode =
     [write_file (path_join (path_join base u) SSH_KEY_FILE) key mode,
      write_file (path_join (path_join base u) TOKEN_FILE) tok mode]"

definition creds_of :: "(path \<times> string \<times> u32) list \<Rightarrow> string \<Rightarrow> credential_error + credentials" where
  "creds_of files u = load_credentials_from (test_fs [] files) ''/tmp/t'' u"

text \<open>The daemon's environment in a test: the variables it sets, and no other.\<close>

definition only_vars :: "(string \<times> string) list \<Rightarrow> string \<Rightarrow> string option" where
  "only_vars vars = map_of vars"

definition quoted_dbg :: "string \<Rightarrow> string" where
  "quoted_dbg t = [CHR 0x22] @ t @ [CHR 0x22]"

definition askpass_ok :: askpass_io where
  "askpass_ok =
     \<lparr>ai_tempfile = Inr ''/tmp/askpass.sh'', ai_write_line1 = Inr (), ai_write_line2 = Inr (),
      ai_metadata = Inr (made_file 0x180), ai_set_permissions = Inr ()\<rparr>"

definition credentials_tests_1 :: test_table where
  "credentials_tests_1 =
     [(''loads_when_modes_are_0600'',
         on_ok (creds_of (write_user_creds ''/tmp/t'' ''alice'' ''KEYDATA'' ''TOKENDATA'' 0x180) ''alice'')
           (\<lambda>c. strip_suffix ''alice/id_rsa'' (ssh_key_path c) \<noteq> None \<and> token c =
           ''TOKENDATA'')),
      (''trims_trailing_newline_from_token'',
         on_ok (creds_of (write_user_creds ''/tmp/t'' ''alice'' ''KEYDATA'' (''ghp_abc'' @ [CHR 0x0A]) 0x180)
           ''alice'') (\<lambda>c. token c = ''ghp_abc'')),
      (''missing_ssh_key_returns_key_not_found'',
         on_err (creds_of [write_file ''/tmp/t/alice/token'' ''T'' 0x180] ''alice'') (\<lambda>e. case e of
           KeyNotFound _ \<Rightarrow> True | _ \<Rightarrow> False)),
      (''missing_token_returns_token_not_found'',
         on_err (creds_of [write_file ''/tmp/t/alice/id_rsa'' ''K'' 0x180] ''alice'') (\<lambda>e. case e of
           TokenNotFound _ \<Rightarrow> True | _ \<Rightarrow> False)),
      (''permissive_ssh_key_mode_rejected'',
         on_err (creds_of (write_user_creds ''/tmp/t'' ''alice'' ''K'' ''T'' 0x1A4) ''alice'') (\<lambda>e. case
           e of PermissiveSshKey _ mode \<Rightarrow> mode = 0x1A4 | _ \<Rightarrow> False)),
      (''permissive_token_mode_rejected'',
         on_err (creds_of [write_file ''/tmp/t/alice/id_rsa'' ''K'' 0x180, write_file ''/tmp/t/alice/token''
           ''T'' 0x184] ''alice'') (\<lambda>e. case e of PermissiveToken _ mode \<Rightarrow> mode = 0x184 | _
           \<Rightarrow> False)),
      (''group_readable_token_rejected'',
         on_err (creds_of [write_file ''/tmp/t/alice/id_rsa'' ''K'' 0x180, write_file ''/tmp/t/alice/token''
           ''T'' 0x1A0] ''alice'') (\<lambda>e. case e of PermissiveToken _ mode \<Rightarrow> mode = 0x1A0 | _
           \<Rightarrow> False)),
      (''user_with_path_traversal_rejected'',
         on_err (creds_of [] ''../etc'') (\<lambda>e. case e of InvalidUser _ \<Rightarrow> True | _
           \<Rightarrow> False) \<and> on_err (creds_of [] ''alice/bob'') (\<lambda>e. case e of InvalidUser _
           \<Rightarrow> True | _ \<Rightarrow> False) \<and> on_err (creds_of [] []) (\<lambda>e. case e of
           InvalidUser _ \<Rightarrow> True | _ \<Rightarrow> False)),
      (''ssh_env_removed_git_safe_dir_still_works'',
         map_of (git_safe_dir_env) ''GIT_CONFIG_COUNT'' = Some ''1'' \<and> map_of (git_safe_dir_env)
           ''GIT_CONFIG_KEY_0'' = Some ''safe.directory'' \<and> map_of (git_safe_dir_env)
           ''GIT_CONFIG_VALUE_0'' = Some ''*'' \<and> map_of (git_safe_dir_env) ''GIT_SSH_COMMAND'' = None),
      (''gh_env_sets_gh_token'',
         gh_env (only_vars []) ''ghp_secret'' = [(''GH_TOKEN'', ''ghp_secret'')]),
      (''gh_env_forwards_gh_host_when_set'',
         map_of (gh_env (only_vars [(''GH_HOST'', ''mock-github'')]) ''ghp_secret'') ''GH_TOKEN'' = Some
           ''ghp_secret'' \<and> map_of (gh_env (only_vars [(''GH_HOST'', ''mock-github'')]) ''ghp_secret'')
           ''GH_HOST'' = Some ''mock-github''),
      (''gh_env_sets_enterprise_token_for_non_github_host'',
         map_of (gh_env (only_vars [(''GH_HOST'', ''mock-github'')]) ''ghp_secret'') ''GH_ENTERPRISE_TOKEN'' =
           Some ''ghp_secret'')]"

definition credentials_tests_2 :: test_table where
  "credentials_tests_2 =
     [(''gh_env_omits_enterprise_token_for_github_com'',
         list_all (\<lambda>(k, _). k \<noteq> ''GH_ENTERPRISE_TOKEN'') (gh_env (only_vars [(''GH_HOST'',
           ''github.com'')]) ''ghp_secret'')),
      (''gh_env_omits_gh_host_when_unset'',
         list_all (\<lambda>(k, _). k \<noteq> ''GH_HOST'') (gh_env (only_vars []) ''ghp_secret'')),
      (''gh_env_forwards_home_when_set'',
         list_ex (\<lambda>(k, v). k = ''HOME'' \<and> v = ''/run/ghbrk'') (gh_env (only_vars [(''HOME'',
           ''/run/ghbrk'')]) ''ghp_secret'')),
      (''gh_env_omits_home_when_unset'',
         list_all (\<lambda>(k, _). k \<noteq> ''HOME'') (gh_env (only_vars []) ''ghp_secret'')),
      (''https_git_env_sets_askpass_and_token_indirection'',
         on_ok (https_git_env askpass_ok \<lparr>ssh_key_path = ''/x'', token = ''ghp_https_secret''\<rparr>)
           (\<lambda>env. map_of (https_vars env) ''GIT_TERMINAL_PROMPT'' = Some ''0'' \<and> map_of (https_vars
           env) ''GHBRK_TOKEN'' = Some ''ghp_https_secret'' \<and> map_of (https_vars env) ''GIT_ASKPASS'' =
           Some (script_path (askpass_script env)) \<and> script_mode (askpass_script env) = 0x1C0 \<and> \<not>
           contains (script_content (askpass_script env)) ''ghp_https_secret'' \<and> contains (script_content
           (askpass_script env)) ''GHBRK_TOKEN'')),
      (''debug_format_redacts_token'',
         (let s = credentials_debug quoted_dbg \<lparr>ssh_key_path = ''/x/key'', token =
           ''ghp_supersecret_TOKENVALUE''\<rparr> in \<not> contains s ''ghp_supersecret_TOKENVALUE'' \<and>
           contains s ''redacted''))]"

subsection \<open>All of them hold\<close>

lemma credentials_tests_1_pass: "all_pass credentials_tests_1"
  by code_simp

lemma credentials_tests_2_pass: "all_pass credentials_tests_2"
  by code_simp

end
