(* ===== verification/Health_Tests.thy ===== *)
theory Health_Tests
  imports Test_Support Health_Check
begin

section \<open>Tests of the health check\<close>

text \<open>The test module of \<open>src/src/health_check.rs\<close>.\<close>

definition write_mode :: "path \<Rightarrow> string \<Rightarrow> u32 \<Rightarrow> path \<times> string \<times> u32" where
  "write_mode p contents mode = (p, contents, mode)"

definition test_inputs :: "string \<Rightarrow> tmp_identity option \<Rightarrow> check_inputs" where
  "test_inputs u caller = \<lparr>creds_root = ''/tmp/t'', user = u, ci_caller_tmp = caller\<rparr>"

text \<open>The stub \<open>gh\<close> a test installs: it ends with a status after printing to its two streams.\<close>

definition install_stub_gh :: "bool \<Rightarrow> string \<Rightarrow> string \<Rightarrow> probe" where
  "install_stub_gh success out err = (\<lambda>_ _. Some \<lparr>po_success = success, po_stdout = out, po_stderr = err\<rparr>)"

definition no_vars :: "string \<Rightarrow> string option" where
  "no_vars = (\<lambda>_. None)"

definition github_api_line :: "probe \<Rightarrow> string \<times> bool" where
  "github_api_line probe =
     (case check_github_api (test_fs [] [write_mode ''/tmp/t/token'' ''tok'' 0x1A4]) no_vars probe ''/tmp/t/token'' True of
        (ok, out) \<Rightarrow> (out, ok))"

definition checks_of :: "(path \<times> string \<times> u32) list \<Rightarrow> probe \<Rightarrow> string \<Rightarrow> tmp_identity option \<Rightarrow> bool \<times> string" where
  "checks_of files probe u caller = run_checks (test_fs [] files) no_vars probe (\<lambda>t. t) (test_inputs u caller)"

definition no_gh :: probe where
  "no_gh = (\<lambda>_ _. None)"

definition own_tmp :: tmp_identity where
  "own_tmp = \<lparr>tmp_dev = md_dev tmp_metadata, tmp_ino = md_ino tmp_metadata\<rparr>"

definition entry_of :: "credential_audit \<Rightarrow> string \<Rightarrow> (path_audit \<Rightarrow> bool) \<Rightarrow> bool" where
  "entry_of audit label P = on_some (find (\<lambda>e. pa_label e = label) (audit_entries audit)) P"

definition health_tests_1 :: test_table where
  "health_tests_1 =
     [(''ping_github_reports_ok_with_login_from_stdout'',
         (case ping_github no_vars (install_stub_gh True (''octocat'' @ [CHR 0x0A]) []) ''tok'' of GithubOk
           login \<Rightarrow> login = ''octocat'' | _ \<Rightarrow> False) \<and> (case github_api_line
           (install_stub_gh True (''octocat'' @ [CHR 0x0A]) []) of (line, ok) \<Rightarrow> ok \<and> contains
           line ''GitHub API: OK (user: octocat)'')),
      (''ping_github_reports_invalid_token_on_http_401'',
         ping_github no_vars (install_stub_gh False [] (''gh: Bad credentials (HTTP 401)'' @ [CHR 0x0A]))
           ''tok'' = InvalidToken \<and> (case github_api_line (install_stub_gh False []
           (''gh: Bad credentials (HTTP 401)'' @ [CHR 0x0A])) of (line, ok) \<Rightarrow> \<not> ok \<and>
           contains line ''GitHub API: INVALID TOKEN'')),
      (''ping_github_reports_unreachable_for_unrelated_failure'',
         ping_github no_vars (install_stub_gh False [] (''dial tcp: lookup api.github.com: no such host'' @ [CHR
           0x0A])) ''tok'' = Unreachable \<and> (case github_api_line (install_stub_gh False []
           (''dial tcp: lookup api.github.com: no such host'' @ [CHR 0x0A])) of (line, ok) \<Rightarrow> \<not>
           ok \<and> contains line ''GitHub API: UNREACHABLE'')),
      (''run_checks_reports_missing_files'',
         (case checks_of [] no_gh ''alice'' None of (ok, s) \<Rightarrow> \<not> ok \<and> contains s
           ''SSH key: MISSING'' \<and> contains s ''Token: MISSING'')),
      (''run_checks_reports_ok_for_well_formed_credentials'',
         (case checks_of [write_mode ''/tmp/t/alice/id_rsa'' ''KEY'' 0x180, write_mode ''/tmp/t/alice/token''
           ''tok'' 0x180] (install_stub_gh False [] (''connection refused'' @ [CHR 0x0A])) ''alice'' None of
           (ok, s) \<Rightarrow> contains s ''SSH key: OK'' \<and> contains s ''Token: OK'' \<and> \<not> ok
           \<and> contains s ''GitHub API: UNREACHABLE'')),
      (''run_checks_rejects_invalid_user'',
         (case checks_of [] no_gh ''../etc'' None of (ok, s) \<Rightarrow> \<not> ok \<and> contains s
           ''ghbrk check:'')),
      (''run_checks_reports_shared_filesystem_when_credential_path_is_invalid'',
         (case checks_of [] no_gh ''../etc'' (Some own_tmp) of (ok, s) \<Rightarrow> \<not> ok \<and> contains s
           ''ghbrk check:'' \<and> contains s ''Shared filesystem:'')),
      (''run_checks_omits_shared_filesystem_line_when_identity_absent'',
         (case checks_of [] no_gh ''alice'' None of (ok, s) \<Rightarrow> \<not> contains s
           ''Shared filesystem:'')),
      (''run_checks_reports_ok_for_matching_tmp_identity'',
         (case checks_of [] no_gh ''alice'' (Some own_tmp) of (ok, s) \<Rightarrow> contains s
           ''Shared filesystem: OK''))]"

definition health_tests_2 :: test_table where
  "health_tests_2 =
     [(''run_checks_reports_error_for_mismatched_tmp_identity'',
         (case checks_of [] no_gh ''alice'' (Some (own_tmp\<lparr>tmp_ino := tmp_ino own_tmp + 1\<rparr>)) of
           (ok, s) \<Rightarrow> \<not> ok \<and> contains s ''Shared filesystem: ERROR'' \<and> contains s
           ''PrivateTmp='' \<and> contains s ''/etc/systemd/system/ghbrk.service'' \<and> \<not> contains s
           ''reinstall'')),
      (''check_shared_filesystem_reports_error_when_stat_fails'',
         (case check_shared_filesystem (test_fs [] []) ''/tmp/t/does-not-exist'' \<lparr>tmp_dev = 0, tmp_ino =
           0\<rparr> of (ok, s) \<Rightarrow> \<not> ok \<and> starts_with s SHARED_FILESYSTEM_LABEL \<and>
           contains s ''ERROR'' \<and> contains s ''cannot stat'')),
      (''audit_reports_owner_and_mode_for_dir_and_files'',
         (let audit = (audit_credential_paths (test_fs [(''/tmp/t/alice'', 0x1C0)] [write_mode
           ''/tmp/t/alice/id_rsa'' ''KEY'' 0x180, write_mode ''/tmp/t/alice/token'' ''tok'' 0x1A0]) ''/tmp/t''
           ''alice'') in entry_of audit ''Credential dir'' (\<lambda>e. pa_present e \<and> pa_observed_mode e =
           0x1C0 \<and> pa_observed_owner_uid e = tester \<and> strip_suffix ''/alice'' (pa_path e) \<noteq>
           None) \<and> entry_of audit ''SSH key'' (\<lambda>e. pa_present e \<and> pa_observed_mode e = 0x180
           \<and> pa_observed_owner_uid e = tester) \<and> entry_of audit ''Token'' (\<lambda>e. pa_present e
           \<and> pa_observed_mode e = 0x1A0))),
      (''audit_marks_missing_paths_absent_with_zeroed_owner_mode'',
         (let audit = audit_credential_paths (test_fs [] []) ''/tmp/t'' ''ghost'' in length (audit_entries
           audit) = 3 \<and> list_all (\<lambda>e. \<not> pa_present e \<and> pa_observed_owner_uid e = 0 \<and>
           pa_observed_mode e = 0) (audit_entries audit))),
      (''audit_invalid_user_yields_no_entries'',
         audit_entries (audit_credential_paths (test_fs [] []) ''/tmp/t'' ''../etc'') = []),
      (''tmp_mount_root_reports_private_namespace_root'',
         tmp_mount_root (''25 30 8:1 / / rw,relatime shared:1 - ext4 /dev/sda1 rw'' @ [CHR 0x0A] @
           ''113 25 0:34 /systemd-private-9302792eb91a42bbbeef83f282d9bd85-ghbrk.service-ApAiqY/tmp /tmp rw,nosuid,nodev shared:60 - tmpfs tmpfs rw''
           @ [CHR 0x0A]) = Some ''/systemd-private-9302792eb91a42bbbeef83f282d9bd85-ghbrk.service-ApAiqY/tmp''),
      (''tmp_mount_root_reports_none_for_plain_root'',
         tmp_mount_root (''25 30 8:1 / / rw,relatime shared:1 - ext4 /dev/sda1 rw'' @ [CHR 0x0A] @
           ''40 25 8:1 / /tmp rw,relatime shared:1 - ext4 /dev/sda1 rw'' @ [CHR 0x0A]) = None),
      (''tmp_mount_root_reports_none_when_no_tmp_entry'',
         tmp_mount_root (''25 30 8:1 / / rw,relatime shared:1 - ext4 /dev/sda1 rw'' @ [CHR 0x0A]) = None),
      (''tmp_mount_root_uses_last_matching_entry'',
         tmp_mount_root (''25 30 8:1 /first /tmp rw shared:1 - ext4 /dev/sda1 rw'' @ [CHR 0x0A] @
           ''40 25 0:34 /systemd-private-abc/tmp /tmp rw shared:60 - tmpfs tmpfs rw'' @ [CHR 0x0A]) = Some
           ''/systemd-private-abc/tmp'')]"

subsection \<open>All of them hold\<close>

lemma health_tests_1_pass: "all_pass health_tests_1"
  by code_simp

lemma health_tests_2_pass: "all_pass health_tests_2"
  by code_simp

end
