(* ===== verification/Command_Tests.thy ===== *)
theory Command_Tests
  imports Test_Support Commands
begin

section \<open>Tests of the broker's helpers and the client commands\<close>

text \<open>
  The test modules of \<open>src/src/broker.rs\<close> and of \<open>git.rs\<close>, \<open>explain.rs\<close>, \<open>allow.rs\<close> and \<open>policy.rs\<close> in
  \<open>src/src/cmd/\<close>.
\<close>

subsection \<open>The broker\<close>

text \<open>The accounts of the host: the one the tests run as, and no other.\<close>

definition own_passwd :: passwd where
  "own_passwd = \<lparr>pw_name = ''tester'', pw_uid = tester, pw_gid = tester, pw_dir = ''/home/tester''\<rparr>"

definition own_host :: outside where
  "own_host = example_outside\<lparr>x_user_from_uid := (\<lambda>uid. if uid = tester then Inr (Some own_passwd) else Inr None)\<rparr>"

definition broker_tests :: test_table where
  "broker_tests =
     [(''current_uid_resolves_to_username'',
         on_some (username_for_uid own_host tester) (\<lambda>name. name \<noteq> [])),
      (''peer_identity_resolves_current_process'',
         on_some (peer_identity own_host (Inr tester)) (\<lambda>identity. pid_uid identity = tester \<and>
           pid_username identity \<noteq> [] \<and> pid_home identity \<noteq> [])),
      (''unknown_uid_returns_none'',
         username_for_uid own_host 0x7FFFFFFE = None),
      (''gh_api_is_broker_op'',
         gh_is_broker_op [''api'', ''user'']),
      (''gh_write_ops_are_broker_ops'',
         gh_is_broker_op [''pr'', ''create'', ''--title'', ''x''] \<and> gh_is_broker_op [''pr'', ''comment'',
           ''42'', ''--body'', ''hi''] \<and> gh_is_broker_op [''pr'', ''merge'', ''42''] \<and> gh_is_broker_op
           [''pr'', ''close'', ''42''] \<and> gh_is_broker_op [''pr'', ''review'', ''42'', ''--approve''] \<and>
           gh_is_broker_op [''issue'', ''create'', ''--title'', ''bug''] \<and> gh_is_broker_op [''issue'',
           ''comment'', ''1'', ''--body'', ''x''] \<and> gh_is_broker_op [''issue'', ''close'', ''1''] \<and>
           gh_is_broker_op [''release'', ''create'', ''v1.0.0''] \<and> gh_is_broker_op [''release'',
           ''delete'', ''v1.0.0'', ''--yes''] \<and> gh_is_broker_op [''release'', ''delete-asset'', ''v1.0.0'',
           ''asset.tar.gz'', ''--yes''] \<and> gh_is_broker_op [''release'', ''download'', ''v1.0.0''] \<and>
           gh_is_broker_op [''release'', ''edit'', ''v1.0.0'', ''--title'', ''v1.0.0''] \<and> gh_is_broker_op
           [''release'', ''list''] \<and> gh_is_broker_op [''release'', ''upload'', ''v1.0.0'',
           ''/tmp/asset.tar.gz''] \<and> gh_is_broker_op [''release'', ''view'', ''v1.0.0'']),
      (''gh_read_ops_are_passthrough'',
         \<not> gh_is_broker_op [''auth'', ''status''] \<and> \<not> gh_is_broker_op [''repo'', ''view''] \<and>
           \<not> gh_is_broker_op [''pr'', ''list''] \<and> \<not> gh_is_broker_op [''pr'', ''frobnicate'']
           \<and> \<not> gh_is_broker_op []),
      (''operation_name_covers_all_variants'',
         list_all (\<lambda>op. operation_name op \<noteq> []) [Push, Fetch, Pull, Clone, PrOpen, PrComment,
           PrMerge, PrClose, PrReview, IssueOpen, IssueComment, IssueClose, ReleaseCreate, GhApiRead ''user'']),
      (''allow_accepts_every_builtin_role_as_operand'',
         list_all (\<lambda>role. is_known_role role \<and> parse_operations_spec [role] = Inr (Role role))
           [''read-only'', ''write'', ''maintain'', ''admin''])]"

subsection \<open>git\<close>

definition git_tests :: test_table where
  "git_tests =
     [(''remote_subcommands_are_remote_ops'',
         is_remote_op [''push'', ''origin'', ''main''] \<and> is_remote_op [''fetch'', ''origin''] \<and>
           is_remote_op [''clone'', ''git@github.com:acme/repo.git''] \<and> is_remote_op [''pull'', ''origin'',
           ''main'']),
      (''remote_op_detected_behind_global_flags'',
         is_remote_op [''-c'', ''http.sslVerify=false'', ''push'', ''origin''] \<and> is_remote_op
           [''--git-dir'', ''/tmp/x/.git'', ''-c'', ''k=v'', ''clone'', ''url'']),
      (''local_subcommands_are_not_remote_ops'',
         \<not> is_remote_op [''status''] \<and> \<not> is_remote_op [''add'', ''.''] \<and> \<not> is_remote_op
           [''commit'', ''-m'', ''msg''] \<and> \<not> is_remote_op [''log'', ''--oneline'']),
      (''empty_args_are_not_remote_ops'',
         \<not> is_remote_op []),
      (''repo_hints_absent_outside_repo'',
         repo_hints (test_fs [(''/tmp/t'', 0x1C0)] []) ''/tmp/t'' = (None, None)),
      (''repo_hints_populated_from_plain_checkout'',
         repo_hints (test_fs [(''/tmp/t'', 0x1C0), (''/tmp/t/.git'', 0x1ED)] [(''/tmp/t/.git/config'',
           (''[remote '' @ [CHR 0x22] @ ''origin'' @ [CHR 0x22] @ '']'' @ [CHR 0x0A, CHR 0x09] @
           ''url = git@github.com:test/repo.git'' @ [CHR 0x0A]), 0x1A4), (''/tmp/t/.git/HEAD'',
           (''ref: refs/heads/feat'' @ [CHR 0x0A]), 0x1A4)]) ''/tmp/t'' = (Some
           ''git@github.com:test/repo.git'', Some ''feat''))]"

subsection \<open>explain\<close>

text \<open>A client that meets nothing: no broker, no repository, no variables.\<close>

definition bare_client :: client_world where
  "bare_client =
     \<lparr>cw_getenv = (\<lambda>_. None), cw_cwd = Inr ''/tmp/t'', cw_fs = no_files, cw_terminal = False, cw_stdin = [],
      cw_runtime = None, cw_connect = (\<lambda>_. Inl no_entry), cw_ser_request = (\<lambda>_. Inr ''r''),
      cw_ser = example_ser, cw_de = example_server_de, cw_dbg = (\<lambda>t. t)\<rparr>"

definition explain_tests :: test_table where
  "explain_tests =
     [(''explain_empty_args_fails'',
         rl_code (explain_run bare_client [] quiet quiet) = 1)]"

subsection \<open>allow\<close>

definition allow_tests :: test_table where
  "allow_tests =
     [(''rejects_malformed_repo_spec'',
         on_err (validate_repo_spec (\<lambda>t. t) ''not-a-repo-spec'') (\<lambda>_. True) \<and> on_err
           (validate_repo_spec (\<lambda>t. t) []) (\<lambda>_. True) \<and> on_err (validate_repo_spec
           (\<lambda>t. t) ''org/'') (\<lambda>_. True) \<and> on_err (validate_repo_spec (\<lambda>t. t)
           ''/repo'') (\<lambda>_. True) \<and> on_err (validate_repo_spec (\<lambda>t. t) ''org/repo/extra'')
           (\<lambda>_. True) \<and> on_err (validate_repo_spec (\<lambda>t. t) ''org repo'') (\<lambda>_. True)),
      (''accepts_valid_repo_spec'',
         on_ok (validate_repo_spec (\<lambda>t. t) ''acme/web'') (\<lambda>_. True) \<and> on_ok
           (validate_repo_spec (\<lambda>t. t) ''my-org/my-repo'') (\<lambda>_. True) \<and> on_ok
           (validate_repo_spec (\<lambda>t. t) ''Org123/repo.name'') (\<lambda>_. True) \<and> on_ok
           (validate_repo_spec (\<lambda>t. t) ''a/b'') (\<lambda>_. True)),
      (''assembles_args_without_user'',
         (let args = assemble_args ''acme/web'' [''write''] None in args = [''acme/web'', ''write''] \<and>
           ''--user'' \<notin> set args)),
      (''assembles_args_with_user'',
         assemble_args ''acme/web'' [''write''] (Some ''alice'') = [''acme/web'', ''write'', ''--user'',
           ''alice'']),
      (''assembles_args_with_multiple_operands'',
         assemble_args ''org/repo'' [''push'', ''pr_open''] (Some ''bob'') = [''org/repo'', ''push'',
           ''pr_open'', ''--user'', ''bob''])]"

subsection \<open>policy\<close>

definition policy_command_tests :: test_table where
  "policy_command_tests =
     [(''policy_rejects_malformed_specifier_no_slash'',
         \<not> is_valid_repo_spec ''notavalidspec''),
      (''policy_rejects_empty_org'',
         \<not> is_valid_repo_spec ''/repo''),
      (''policy_rejects_empty_repo'',
         \<not> is_valid_repo_spec ''org/''),
      (''policy_accepts_valid_org_repo'',
         is_valid_repo_spec ''acme/web''),
      (''policy_accepts_valid_with_hyphens'',
         is_valid_repo_spec ''my-org/my-repo''),
      (''policy_rejects_too_many_slashes'',
         \<not> is_valid_repo_spec ''acme/web/extra'')]"

subsection \<open>All of them hold\<close>

lemma broker_tests_pass: "all_pass broker_tests"
  by code_simp

lemma git_tests_pass: "all_pass git_tests"
  by code_simp

lemma explain_tests_pass: "all_pass explain_tests"
  by code_simp

lemma allow_tests_pass: "all_pass allow_tests"
  by code_simp

lemma policy_command_tests_pass: "all_pass policy_command_tests"
  by code_simp

end
