(* ===== verification/Stream_Tests.thy ===== *)
theory Stream_Tests
  imports Test_Support Gateway
begin

section \<open>Tests of the streams\<close>

text \<open>
  From the test modules of \<open>protocol.rs\<close>, \<open>audit.rs\<close>, \<open>executor.rs\<close> and \<open>cmd/gateway.rs\<close> in \<open>src/src/\<close>,
  the tests that do not depend on the text of the JSON encoding, on threads or on timing. Where a test
  sends 256 KiB, two bytes stand for them.
\<close>

subsection \<open>Limits\<close>

text \<open>Code equations on integers: the limits are large, and natural numbers are evaluated in unary.\<close>

lemma char_of_div: "char_of (unat n div 2 ^ k) = char_of (uint n div 2 ^ k)"
proof -
  have "char_of m = char_of (int m)" for m :: nat by (simp add: char_of_def bit_of_nat_iff_bit flip: bit_0)
  then have "char_of (unat n div 2 ^ k) = char_of (int (unat n div 2 ^ k))" .
  then show ?thesis by (simp add: zdiv_int)
qed

lemma to_be_bytes_code [code]:
  "to_be_bytes n =
     (let v = uint n in [char_of (v div 2 ^ 24), char_of (v div 2 ^ 16), char_of (v div 2 ^ 8), char_of (v div 2 ^ 0)])"
  unfolding Let_def char_of_div [symmetric] by (simp add: to_be_bytes_def)

lemma from_be_bytes_code [code]:
  "from_be_bytes bs =
     (case bs of
        [a, b, c, d] \<Rightarrow> word_of_int (of_char a * 2 ^ 24 + of_char b * 2 ^ 16 + of_char c * 2 ^ 8 + of_char d)
      | _ \<Rightarrow> 0)"
proof -
  have c: "word_of_nat (of_char a) = (word_of_int (of_char a) :: u32)" for a
    by (metis of_nat_of_char of_int_of_nat_eq)
  show ?thesis by (cases bs rule: from_be_bytes.cases) (simp_all add: c)
qed

lemma length_le_code: "length xs \<le> n \<longleftrightarrow> int (length xs) \<le> int n"
  by simp

lemma write_frame_code [code]:
  "write_frame ser w v =
     (case ser v of
        Inl e \<Rightarrow> (Inl (InvalidJson e), w)
      | Inr body \<Rightarrow>
          if int (length body) > uint MAX_FRAME_LEN then (Inl (EncodeTooLarge (length body)), w)
          else (case write_all w (to_be_bytes (word_of_int (int (length body)))) of
                  (Inl e, w') \<Rightarrow> (Inl (ProtocolIo e), w')
                | (Inr _, w') \<Rightarrow>
                    (case write_all w' body of
                       (Inl e, w'') \<Rightarrow> (Inl (ProtocolIo e), w'')
                     | (Inr _, w'') \<Rightarrow> (Inr (), w''))))"
proof -
  have "uint MAX_FRAME_LEN < int n \<longleftrightarrow> unat MAX_FRAME_LEN < n" for n by (simp add: unat_MAX_FRAME_LEN MAX_FRAME_LEN_def)
  then show ?thesis by (simp only: write_frame_def of_int_of_nat_eq)
qed

lemma read_pipe_code [code]:
  "read_pipe p =
     (case p of
        [] \<Rightarrow> (Inr [], [])
      | Inl e # rest \<Rightarrow> (Inl e, rest)
      | Inr bs # rest \<Rightarrow>
          if int (length bs) \<le> 8192 then (Inr bs, rest)
          else (Inr (take READ_BUF_SIZE bs), Inr (drop READ_BUF_SIZE bs) # rest))"
  by (simp add: read_pipe_def READ_BUF_SIZE_def split: list.split sum.split)

lemma buf_write_all_code [code]:
  "buf_write_all line l =
     (let needed = int (length line) + int (length (al_buf l)) in
        if needed < 8192 then (Inr (), l\<lparr>al_buf := al_buf l @ line\<rparr>)
        else (case (if 8192 < needed \<and> line \<noteq> [] then flush_buf l else (Inr (), l)) of
                (Inl e, l') \<Rightarrow> (Inl e, l')
              | (Inr _, l') \<Rightarrow>
                  if 8192 \<le> int (length line)
                  then (case file_write_all line (al_disk l') of (r, _, d) \<Rightarrow> (r, l'\<lparr>al_disk := d\<rparr>))
                  else (Inr (), l'\<lparr>al_buf := al_buf l' @ line\<rparr>)))"
proof -
  have fits: "length line < 8192 - length (al_buf l) \<longleftrightarrow> int (length line) + int (length (al_buf l)) < 8192"
    by linarith
  have over: "8192 - length (al_buf l) < length line \<longleftrightarrow> 8192 < int (length line) + int (length (al_buf l)) \<and> line \<noteq> []"
    by (cases line) auto
  have big: "8192 \<le> length line \<longleftrightarrow> 8192 \<le> int (length line)" by simp
  show ?thesis unfolding buf_write_all_def BUF_CAPACITY_def Let_def fits over big by simp
qed

subsection \<open>Frames\<close>

text \<open>A peer that sent these bytes and closed, and a decoder that takes nothing for a frame.\<close>

definition read_bytes :: "string \<Rightarrow> protocol_error + server_frame" where
  "read_bytes bs = fst (sock_read_frame (\<lambda>_. Inl ''expected ident'') [Chunk bs])"

definition frame_tests_1 :: test_table where
  "frame_tests_1 =
     [(''oversize_length_rejected'',
         read_bytes (to_be_bytes (MAX_FRAME_LEN + 1)) = Inl (FrameTooLarge (MAX_FRAME_LEN + 1))),
      (''truncated_body_parse_error'',
         read_bytes (to_be_bytes 100 @ replicate 40 (CHR 0x00)) = Inl (Truncated 100 40)),
      (''invalid_json_returns_parse_error'',
         on_err (read_bytes (to_be_bytes (of_nat (length ''not json'')) @ ''not json'')) (\<lambda>e. case e of
           InvalidJson _ \<Rightarrow> True | _ \<Rightarrow> False))]"

definition frame_tests_2 :: test_table where
  "frame_tests_2 =
     [(''empty_eof_returns_io_error'',
         on_err (read_bytes []) (\<lambda>e. case e of ProtocolIo _ \<Rightarrow> True | _ \<Rightarrow> False))]"

subsection \<open>The audit log\<close>

definition sample_record :: "audit_decision \<Rightarrow> audit_record" where
  "sample_record d =
     \<lparr>ar_timestamp = ''2026-04-26T12:00:00Z'', ar_user = ''alice'', ar_tool = ''git'', ar_args = [''push'', ''origin'', ''main''],
      ar_org = ''acme'', ar_repo = ''web'', ar_branch = Some ''main'', ar_operation = ''push'', ar_decision = d\<rparr>"

text \<open>
  An encoder that puts the decision, the reason and the user on a line, a log opened on the bytes the
  file has, and what the file has after records were written.
\<close>

definition line_json :: json_encoder where
  "line_json r =
     Inr (ar_user r @ '' '' @
       (case ar_decision r of AuditAllow \<Rightarrow> ''allow'' | AuditDeny reason \<Rightarrow> ''deny '' @ reason | AuditPassthrough \<Rightarrow> ''passthrough''))"

definition opened_on :: "string \<Rightarrow> audit_logger" where
  "opened_on bs =
     (case new_logger (\<lambda>_. Inr \<lparr>disk_bytes = bs, disk_plan = []\<rparr>) ''/tmp/t/audit.log'' of Inr l \<Rightarrow> l | Inl _ \<Rightarrow> example_logger)"

definition written :: "audit_decision list \<Rightarrow> audit_logger \<Rightarrow> audit_logger" where
  "written ds l = fold (\<lambda>d l. snd (audit_write line_json (sample_record d) l)) ds l"

definition log_lines :: "audit_logger \<Rightarrow> string list" where
  "log_lines l = lines (disk_bytes (al_disk l))"

definition audit_tests_1 :: test_table where
  "audit_tests_1 =
     [(''writes_one_json_line_per_record'',
         log_lines (snd (audit_flush (written [AuditAllow, AuditDeny ''no matching rule''] (opened_on [])))) =
           [''alice allow'', ''alice deny no matching rule'']),
      (''appends_across_logger_reopens'',
         (let first = snd (audit_flush (written [AuditAllow] (opened_on []))); second = snd (audit_flush
           (written [AuditDeny ''second''] (opened_on (disk_bytes (al_disk (audit_drop first)))))) in length
           (log_lines second) = 2))]"

definition audit_tests_2 :: test_table where
  "audit_tests_2 =
     [(''flush_on_drop_persists_records'',
         (let l = audit_drop (written [AuditAllow] (opened_on [])) in disk_bytes (al_disk l) \<noteq> [] \<and>
           length (log_lines l) = 1))]"

subsection \<open>Children\<close>

text \<open>
  The tests run as an ordinary account, so the kernel refuses to change the identity; \<open>true\<close> and
  \<open>false\<close> write nothing and end with 0 and with 1.
\<close>

definition own_proc :: proc where
  "own_proc =
     \<lparr>p_ruid = tester, p_euid = tester, p_suid = tester, p_rgid = tester, p_egid = tester, p_sgid = tester,
      p_groups = [], p_cwd = ''/''\<rparr>"

definition own_kernel :: kernel where
  "own_kernel =
     \<lparr>k_fork = None, k_grants = (\<lambda>call _. case call of ChDir _ \<Rightarrow> True | _ \<Rightarrow> False), k_chdir_error = drop_error, k_exec = (\<lambda>_ _. None)\<rparr>"

definition true_false :: children where
  "true_false cmd p =
     \<lparr>ch_stdout = [], ch_stderr = [], ch_sched = [], ch_input_turns = 1, ch_stdin = [],
      ch_wait = Inr (Exited (if cmd_program cmd = ''true'' then 0 else 1))\<rparr>"

definition test_spec :: "string \<Rightarrow> u32 option \<Rightarrow> child_spec" where
  "test_spec program uid =
     \<lparr>cs_program = program, cs_args = [], cs_env = [], cs_cwd = ''/'', cs_uid = uid, cs_gid = uid,
      cs_supplementary_gids = [], cs_home = None\<rparr>"

definition last_frame :: "child_spec \<Rightarrow> server_frame option" where
  "last_frame spec =
     (case stream_child (\<lambda>_. Inr ''{}'') example_de (\<lambda>_. None) own_kernel own_proc true_false spec [] example_conn of
        (_, _, _, c) \<Rightarrow> if cn_sent c = [] then None else Some (last (cn_sent c)))"

definition executor_tests :: test_table where
  "executor_tests =
     [(''exit_code_zero_on_success'',
         last_frame (test_spec ''true'' None) = Some (Exit 0)),
      (''uid_zero_skips_drop_and_runs_normally'',
         last_frame (test_spec ''true'' (Some 0)) = Some (Exit 0)),
      (''drop_to_foreign_uid_as_non_root_fails_closed'',
         on_some (last_frame (test_spec ''true'' (Some 12345))) (\<lambda>f. case f of Denied _ \<Rightarrow>
           True | _ \<Rightarrow> False)),
      (''home_override_only_when_caller_absent'',
         last_frame ((test_spec ''true'' (Some 0))\<lparr>cs_env := [(''HOME'', ''/caller/home'')], cs_home :=
           Some ''/peer/home''\<rparr>) = Some (Exit 0)),
      (''exit_code_nonzero_on_failure'',
         on_some (last_frame (test_spec ''false'' None)) (\<lambda>f. case f of Exit code \<Rightarrow> code
           \<noteq> 0 | _ \<Rightarrow> False))]"

subsection \<open>The client\<close>

text \<open>
  A stub broker answers with an exit frame, here one byte \<open>x\<close>; a request is one byte \<open>r\<close>, and what the
  client sent after it is read back frame by frame.
\<close>

definition exit_de :: server_decoder where
  "exit_de b = (if b = ''x'' then Inr (Exit 0) else if b = ''y'' then Inr (Exit 3) else Inl ''expected ident'')"

definition stub_broker :: "string \<Rightarrow> write_event list \<Rightarrow> link" where
  "stub_broker reply events =
     \<lparr>lk_responses = [Chunk (to_be_bytes (of_nat (length reply)) @ reply)], lk_writes = events, lk_turns = 4\<rparr>"

primrec client_frames_of :: "nat \<Rightarrow> sock \<Rightarrow> client_frame list" where
  "client_frames_of 0 s = []"
| "client_frames_of (Suc n) s =
     (case sock_read_frame example_de s of
        (Inl _, _) \<Rightarrow> []
      | (Inr f, s') \<Rightarrow> f # (if f = StdinEof then [] else client_frames_of n s'))"

definition stdin_bytes :: "client_frame list \<Rightarrow> string" where
  "stdin_bytes fs = concat (map (\<lambda>f. case f of StdinChunk d \<Rightarrow> d | StdinEof \<Rightarrow> []) fs)"

definition relay_gh :: "link \<Rightarrow> pipe option \<Rightarrow> relay_result" where
  "relay_gh lk stdin =
     relay_request (\<lambda>_. Inr ''r'') example_ser exit_de (\<lambda>_. Inr lk)
       \<lparr>tool = Gh, args = [''pr'', ''create'', ''--body-file'', ''-''], cwd = ''/work/repo'', remote_url = None,
        head_branch_hint = None, client_frames = stdin \<noteq> None, caller_tmp = None\<rparr>
       ''/tmp/t/broker.sock'' stdin quiet quiet"

text \<open>The frames after the request, which takes five bytes.\<close>

definition sent_frames :: "relay_result \<Rightarrow> client_frame list" where
  "sent_frames r = (case rl_sent r of None \<Rightarrow> [] | Some h \<Rightarrow> client_frames_of 4 [Chunk (drop 5 (wr_out (wh_writer h)))])"

definition relay_alone :: "(path \<Rightarrow> io_error + link) \<Rightarrow> tool \<Rightarrow> string list \<Rightarrow> path \<Rightarrow> relay_result" where
  "relay_alone connect t as socket =
     relay
       \<lparr>cw_getenv = (\<lambda>_. None), cw_cwd = Inr ''/tmp/t'', cw_fs = no_files, cw_terminal = False, cw_stdin = [],
        cw_runtime = None, cw_connect = connect, cw_ser_request = (\<lambda>req. Inr (if client_frames req then ''f'' else ''r'')),
        cw_ser = example_ser, cw_de = exit_de, cw_dbg = (\<lambda>t. t)\<rparr>
       t as ''/tmp/t'' socket None None quiet quiet"

definition gateway_tests_1 :: test_table where
  "gateway_tests_1 =
     [(''socket_path_defaults_when_env_unset'',
         socket_path_from_env (\<lambda>_. None) = DEFAULT_SOCKET_PATH),
      (''missing_socket_reports_connection_error'',
         (let r = relay_alone (\<lambda>_. Inl no_entry) Git [''push'', ''origin'', ''main'']
           ''/tmp/t/absent.sock'' in rl_code r = GATEWAY_ERROR_EXIT \<and> contains (wr_out (rl_err r))
           ''cannot connect to broker'' \<and> contains (wr_out (rl_err r)) ''/tmp/t/absent.sock'')),
      (''only_child_spawning_tools_forward_stdin'',
         caller_stdin Git False \<noteq> None \<and> caller_stdin Gh False \<noteq> None \<and> caller_stdin
           Check False = None \<and> caller_stdin Explain False = None \<and> caller_stdin PolicyTool False =
           None \<and> caller_stdin AllowTool False = None),
      (''piped_stdin_reaches_broker_as_chunks_then_eof'',
         (let r = relay_gh (stub_broker ''x'' []) (Some [Inr (''body text'' @ [CHR 0x0A])]); frames =
           sent_frames r in rl_code r = 0 \<and> stdin_bytes frames = (''body text'' @ [CHR 0x0A]) \<and> last
           frames = StdinEof \<and> length (filter (\<lambda>f. f = StdinEof) frames) = 1)),
      (''exhausted_stdin_source_sends_only_eof'',
         (let r = relay_gh (stub_broker ''x'' []) (Some []) in rl_code r = 0 \<and> sent_frames r = [StdinEof])),
      (''terminal_stdin_sends_eof_without_reading'',
         on_some (caller_stdin Gh True) (\<lambda>terminal. let r = relay_gh (stub_broker ''x'' []) (Some
           (source_pipe [Inr ''typed''] terminal)) in rl_code r = 0 \<and> sent_frames r = [StdinEof])),
      (''explain_request_sends_no_client_frames'',
         (let r = relay_alone (\<lambda>_. Inr (stub_broker ''x'' [])) Explain [''git'', ''push'', ''origin'',
           ''main''] ''/tmp/t/broker.sock'' in rl_code r = 0 \<and> on_some (rl_sent r) (\<lambda>h. wr_out
           (wh_writer h) = to_be_bytes 1 @ ''r'')))]"

definition gateway_tests_2 :: test_table where
  "gateway_tests_2 =
     [(''broken_stdin_pipe_preserves_exit_code'',
         (let r = relay_gh (stub_broker ''y'' [WriteOk, WriteOk, WriteFail 0 early_eof, WriteFail 0 early_eof])
           (Some [Inr ''xx'']) in rl_code r = 3 \<and> wr_out (rl_err r) = []))]"

subsection \<open>All of them hold\<close>

lemma frame_tests_1_pass: "all_pass frame_tests_1"
  by code_simp

lemma frame_tests_2_pass: "all_pass frame_tests_2"
  by code_simp

lemma audit_tests_1_pass: "all_pass audit_tests_1"
  by code_simp

lemma audit_tests_2_pass: "all_pass audit_tests_2"
  by code_simp

lemma executor_tests_pass: "all_pass executor_tests"
  by code_simp

lemma gateway_tests_1_pass: "all_pass gateway_tests_1"
  by code_simp

lemma gateway_tests_2_pass: "all_pass gateway_tests_2"
  by code_simp

end
