(* ===== verification/Spec2Isabelle.thy ===== *)
theory Spec2Isabelle
  imports Commands Agent_Proxy Session Monitor
    Resolver_Tests Policy_Tests Doctor_Tests Credentials_Tests Health_Tests Command_Tests Stream_Tests
begin

text \<open>
  A verification of \<open>ghbrk\<close>, a privilege boundary for \<open>git\<close> and \<open>gh\<close>: users without credentials of
  their own ask a daemon over a Unix socket to run a command, and the daemon runs it as the user, with
  the user's credentials, if a policy allows it.

  \<^bold>\<open>The program and its model.\<close> A client (\<open>src/src/cmd/\<close>) builds one request and relays the three standard
  streams; the daemon accepts connections, identifies the peer by its uid, resolves what the command
  would do to which repository and branch, evaluates the policy, records the decision, loads the
  credentials and spawns the child. One theory models one part, in the order of the calls:

  \<^item> \<open>Prelude\<close>, \<open>Rust_Str\<close>, \<open>Rust_Path\<close>: results as sums with the error on the left, I/O errors, machine
    integers as words, and what the program uses of Rust's strings, paths and formatting.
  \<^item> \<open>Policy\<close> (\<open>policy.rs\<close>): operations, roles, rules, validation, evaluation.
  \<^item> \<open>Protocol\<close> (\<open>protocol.rs\<close>): the frames and their length-prefixed encoding. A socket is the list of
    the chunks its reads deliver; a writer holds the bytes written and the outcomes of the writes to come.
  \<^item> \<open>Resolver_Repo\<close>, \<open>Resolver\<close> (\<open>resolver.rs\<close>): remote URLs, git configuration and discovery; then
    the classification of git and gh commands.
  \<^item> \<open>Audit_Log\<close> (\<open>audit.rs\<close>): the buffered logger over a disk whose writes may be short or fail.
  \<^item> \<open>Credentials\<close>, \<open>Agent_Proxy\<close> (\<open>credentials.rs\<close>): credential files, environments, the life of an
    ssh-agent as a list of actions; the proxy in front of it as a step relation.
  \<^item> \<open>Executor\<close> (\<open>executor.rs\<close>): the command, the privilege drop between fork and exec, the relays of
    input and output, the select loop as a step relation on two futures, the exit status.
  \<^item> \<open>Health_Check\<close> (\<open>health_check.rs\<close>): the checks the daemon runs on request.
  \<^item> \<open>Broker_Base\<close>, \<open>Broker_Allow\<close>, \<open>Broker_Query\<close>, \<open>Broker\<close> (\<open>broker.rs\<close>): shared parts; \<open>allow\<close>; the
    filters and the queries \<open>explain\<close> and \<open>policy\<close>; the request pipeline and the accept loop. The record
    \<open>broker\<close> is the daemon's shared state (policy in force, policy file, audit log) with the history of
    what it did; \<open>conn\<close> is one connection; \<open>daemon_step\<close> interleaves accepting, serving and stopping, with
    the policy of each connection taken when it was accepted.
  \<^item> \<open>Daemon\<close> (\<open>cmd/daemon.rs\<close> and the listener of \<open>broker.rs\<close>): start-up, the socket, its owner and its modes.
  \<^item> \<open>Gateway\<close>, \<open>Commands\<close> (\<open>cmd/gateway.rs\<close>, \<open>git.rs\<close>, \<open>gh.rs\<close>, \<open>allow.rs\<close>, \<open>explain.rs\<close>, \<open>policy.rs\<close>,
    \<open>main.rs\<close>): the client's relay, as loops and as its select loop, and the subcommands.
  \<^item> \<open>Doctor\<close>, \<open>Doctor_Report\<close> (\<open>cmd/doctor.rs\<close>): the audits of the installation, and the agreement of the
    client's reading of the health report with what the daemon found.
  \<^item> \<open>Session\<close>, \<open>Monitor\<close>: the composition. \<open>Session\<close> puts the client's relay, the broker's pipeline and the
    child of one request together; \<open>Monitor\<close> is about every history of a started daemon.
  \<^item> \<open>Test_Support\<close> and the theories named \<open>*_Tests\<close>: the repository's own unit tests, evaluated on the
    model. Each table lists tests by name, in the order of the test module, with their assertions; the
    lemmas \<open>*_pass\<close> say that all of them hold. They check the model against the authors' expectations.

  \<^bold>\<open>Interfaces.\<close> \<open>first_match\<close> (rule lists decided by the first applicable rule; \<open>engine\<close> on the policy),
  \<open>byte_source\<close> (a reader that delivers its content in pieces; \<open>sock\<close>), \<open>subcommand_scan\<close> (scanners for
  the first non-flag argument; \<open>resolver_scan\<close> and \<open>broker_scan\<close>, hence their agreement), \<open>append_only\<close>
  (what was written stays; \<open>audit_file\<close> and \<open>frames_sent\<close>), \<open>credential_store\<close> (\<open>store\<close>).

  \<^bold>\<open>What is proved.\<close> In this theory, for the whole request pipeline: every process the daemon starts for a
  request is preceded by a recorded decision that permits it, except the fixed probe of a health check;
  the child whose streams are relayed runs as the caller (as the daemon for root and the daemon's own
  user) with the caller's credentials only; a started daemon never has an invalid policy; nothing but
  root's \<open>allow\<close> changes the policy; \<open>explain\<close> predicts the decision. In \<open>Monitor\<close>, over all
  interleavings: every relayed child in a daemon's history is justified by a record before it; a peer's
  reply depends on that peer's connection and the policy it was accepted under only, unless it is root's
  own \<open>allow\<close>; and every request is answered completely, unless the connection or the child's pipes fail.
  In \<open>Session\<close>: what an allowed child prints, and its exit code, is what the client prints and exits with.
  Per component: evaluation and validation against declarative specifications; a grant is all or nothing,
  puts the whole new file in force, and adds only the decisions it should to those of the old file;
  resolving follows a stated grammar of the command line and agrees with the client's hints; the two
  ends' filters agree; remote URLs are parsed exactly; frames, audit lines and \<open>allow\<close> requests
  round-trip; the privilege drop, credential loading, socket set-up and start-up fail closed; both
  directions of a session are exact end to end, in any fragmentation and interleaving; the client ends
  when the broker answers, whatever its input does, and its select loop refines the sequential loops;
  the doctor grades exactly what is exposed, and what its success means is stated with its exceptions.
  \<open>repo_flag_bypasses_policy\<close>, \<open>concurrent_grants_lose_one\<close> and the lemmas named \<open>*_misread\<close>,
  \<open>api_fields_resolve_as_read\<close> and \<open>user_operand_reparsed\<close> show where the code falls short of its intent.

  \<^bold>\<open>Parameters.\<close> The YAML and JSON libraries, the glob compiler, the file system, the user and group
  database, the kernel's answers to system calls, child processes (what they print and how they end),
  the outcome of the GitHub probe (that it was started is an event of the daemon's history) and the
  clock are arguments, gathered in the records \<open>outside\<close>, \<open>client_world\<close>, \<open>listen_host\<close> and the like; what a
  theorem needs of them is a hypothesis (\<open>yaml_sound\<close> says that YAML reads back what it prints). There
  is no fuel: loops are structural or have a measure (bytes or reads left). A pipe or socket of the
  model delivers finitely many bytes; where a direction may go on for ever or stay silent, in the
  client's select loop, the input is any future and the turns are any schedule (\<open>select_loop\<close>). The
  number of turns the runtime gives the input side of a session before the output ends is a number the
  environment chooses (\<open>ch_input_turns\<close>, \<open>lk_turns\<close>).

  \<^bold>\<open>Not modelled.\<close> clap's argument parser and the module declarations (\<open>lib.rs\<close>, \<open>cmd/mod.rs\<close>), which hold
  no logic; tracing output; the two halves of one \<open>serve\<close> step are not interleaved with other connections
  except for the rewrite of the policy file, which is split into its read and its rename; time, apart from the
  bounded number of polls; packaging, integration tests and documents. Of the unit tests, those that look at
  the JSON or YAML libraries' own text, at tracing output, at threads or at timing are left out.
\<close>

section \<open>The broker as a reference monitor\<close>

text \<open>
  C1. Complete mediation: while handling a request the daemon only starts a process for a request that
  was decided before. There are three kinds. The child whose streams are relayed is the requested
  tool with the requested arguments, it is the only one of its kind, and before it an audit record
  of this caller and these arguments was handed to the log. The record is either an \<open>allow\<close>, and
  then the resolver found an operation, repository and branch, the policy the connection was
  accepted under allows them to the caller, and the record names them; or a \<open>passthrough\<close>, and then
  the request is a gh command outside the mediated set. The processes of an ssh-agent are started
  after such an \<open>allow\<close> record only. The third kind is the probe of a check request, the one process
  without a record: it is always the same command, with the caller's own token, and the only event.
\<close>

theorem complete_mediation:
  assumes "process_request x req ident ctx c b = (r, c', b')"
    and "b_events b' = b_events b @ pre @ e # post" and "starts_process e"
  shows "case e of
      Spawned q \<Rightarrow>
        cmd_program (ran_command q) = tool_name (tool req) \<and> cmd_args (ran_command q) = args req \<and>
        no_streamed pre \<and> no_streamed post \<and>
        (\<exists>rec. Audited rec \<in> set pre \<and> ar_user rec = pid_username ident \<and> ar_args rec = args req \<and>
           ar_tool rec = tool_name (tool req) \<and>
           (case ar_decision rec of
              AuditAllow \<Rightarrow>
                (\<exists>res. resolve_request x req = Inr res \<and>
                   evaluate (x_glob x) (ctx_policy ctx) (policy_request_for (pid_username ident) res) = Allow \<and>
                   ar_org rec = rr_org res \<and> ar_repo rec = rr_repo res \<and> ar_branch rec = rr_branch res \<and>
                   ar_operation rec = tag (rr_operation res))
            | AuditPassthrough \<Rightarrow> tool req = Gh \<and> \<not> gh_is_broker_op (args req)
            | AuditDeny _ \<Rightarrow> False))
    | AgentActions acts \<Rightarrow>
        (\<exists>res. Audited (record_of x (resolved_entry ident req res)) \<in> set pre \<and> resolve_request x req = Inr res \<and>
           evaluate (x_glob x) (ctx_policy ctx) (policy_request_for (pid_username ident) res) = Allow)
    | Probed argv vars \<Rightarrow>
        tool req = Check \<and> pre = [] \<and> post = [] \<and>
        argv = [''timeout'', ''10'', ''gh'', ''api'', ''user'', ''-q'', ''.login''] \<and>
        (\<exists>paths tok. credential_paths_in (unwrap_or credentials_dir (ctx_credentials_root ctx)) (pid_username ident) = Inr paths \<and>
           read_token_if_available (x_fs x) (cp_token paths) = Some tok \<and> vars = gh_env (x_getenv x) tok)
    | _ \<Rightarrow> False"
  using assms(1)
proof (cases rule: process_request_cases)
  case (no_child new)
  with assms(2) have new: "new = pre @ e # post" by simp
  from no_child(2) new have ns: "\<And>q. e \<noteq> Spawned q" by (auto simp: no_streamed_def)
  from no_child(3) consider (quiet) "no_process new"
    | (probe) argv vars where "tool req = Check" "new = [Probed argv vars]" "probe_call (x_fs x) (x_getenv x)
         \<lparr>creds_root = unwrap_or credentials_dir (ctx_credentials_root ctx), user = pid_username ident,
          ci_caller_tmp = caller_tmp req\<rparr> = Some (argv, vars)"
    | (agent) res rest where "new = Audited (record_of x (resolved_entry ident req res)) # rest" "list_all agent_event rest"
        "resolve_request x req = Inr res"
        "evaluate (x_glob x) (ctx_policy ctx) (policy_request_for (pid_username ident) res) = Allow"
    by blast
  then show ?thesis
  proof cases
    case quiet
    with new assms(3) show ?thesis by simp
  next
    case (probe argv vars)
    with new have "e = Probed argv vars" "pre = []" "post = []" by (simp_all add: Cons_eq_append_conv)
    with probe show ?thesis
      by (simp add: probe_call_Some gh_probe_command_def GH_PROBE_TIMEOUT_SECS_def)
  next
    case (agent res rest)
    from agent(1) new assms(3) obtain pre' where pre: "pre = Audited (record_of x (resolved_entry ident req res)) # pre'"
      "rest = pre' @ e # post" by (cases pre) auto
    with agent(2) assms(3) obtain acts where "e = AgentActions acts" by (cases e) auto
    with agent(3,4) pre(1) show ?thesis by auto
  qed
next
  case (passthrough creds rec q')
  from passthrough(4) assms(2) have split: "[Audited rec] @ Spawned q' # [] = pre @ e # post" by simp
  with assms(3) have e: "e = Spawned q'" by (auto simp: Cons_eq_append_conv)
  from spawn_split_unique [OF split [unfolded e]] have "pre = [Audited rec]" "post = []" by simp_all
  with e passthrough runs_spec_command [OF passthrough(9)] show ?thesis by (simp add: tool_name_def)
next
  case (mediated res creds vars keep agent acts q' rest)
  let ?rec = "record_of x (resolved_entry ident req res)"
  from mediated(6) assms(2) have split: "[Audited ?rec, AgentActions acts] @ Spawned q' # rest = pre @ e # post" by simp
  then obtain pre' where pre: "pre = Audited ?rec # pre'" "AgentActions acts # Spawned q' # rest = pre' @ e # post"
    using assms(3) by (cases pre) auto
  then have "e \<in> set (AgentActions acts # Spawned q' # rest)" by simp
  with mediated(9) assms(3) consider acts' where "e = AgentActions acts'" | "e = Spawned q'"
    by (cases e) (auto simp: list_all_iff)
  then show ?thesis
  proof cases
    case (1 acts')
    with mediated(2,3) pre(1) show ?thesis by auto
  next
    case 2
    from spawn_split_unique [OF split [unfolded 2] _ mediated(7)]
    have "pre = [Audited ?rec, AgentActions acts]" "post = rest" by simp_all
    with 2 mediated runs_spec_command [OF mediated(8)] show ?thesis by (auto simp: record_of_def resolved_entry_def)
  qed
qed

theorem complete_mediation_witness:
  "\<exists>c' b' pre q post.
     process_request example_outside example_push alice_identity example_ctx example_conn example_broker = (Inr (), c', b') \<and>
     b_events b' = b_events example_broker @ pre @ Spawned q # post \<and>
     cmd_program (ran_command q) = ''git'' \<and> cmd_args (ran_command q) = [''push'', ''origin'', ''main'']"
proof -
  from example_push_spawns obtain c' b' pre q post where run:
    "process_request example_outside example_push alice_identity example_ctx example_conn example_broker = (Inr (), c', b')"
    "b_events b' = b_events example_broker @ pre @ Spawned q # post" by blast
  from complete_mediation [OF run starts_process_simps(1)]
  have "cmd_program (ran_command q) = ''git''" "cmd_args (ran_command q) = [''push'', ''origin'', ''main'']"
    by (simp_all add: example_push_def tool_name_def)
  with run show ?thesis by blast
qed

text \<open>
  C2. A child runs as its caller, with its caller's credentials: every user and group id of the process
  whose streams are relayed is the caller's, its supplementary groups and its working directory are
  the caller's, and each token variable in its environment holds the token from the caller's own,
  checked credential file. The exception is a caller who is root or the daemon's own user: that
  child keeps the ids and groups of the daemon.
\<close>

theorem child_runs_as_caller:
  assumes "process_request x req ident ctx c b = (r, c', b')"
    and "b_events b' = b_events b @ pre @ Spawned q # post"
  shows "\<exists>creds.
    ran_proc q =
      (if pid_uid ident = 0 \<or> pid_uid ident = p_euid (x_daemon x) then (x_daemon x)\<lparr>p_cwd := cwd req\<rparr>
       else \<lparr>p_ruid = pid_uid ident, p_euid = pid_uid ident, p_suid = pid_uid ident, p_rgid = pid_gid ident,
         p_egid = pid_gid ident, p_sgid = pid_gid ident, p_groups = pid_supplementary_gids ident, p_cwd = cwd req\<rparr>) \<and>
    load_user_credentials x (pid_username ident) (ctx_credentials_root ctx) = Inr creds \<and>
    (\<forall>k v. k \<in> set token_variables \<longrightarrow> cmd_env (ran_command q) k = Some v \<longrightarrow> v = token creds)"
  using assms(1)
proof (cases rule: process_request_cases)
  case (no_child new)
  with assms(2) show ?thesis by simp
next
  case (passthrough creds rec q')
  from passthrough(4) assms(2) have "[Audited rec] @ Spawned q' # [] = pre @ Spawned q # post" by simp
  from spawn_split_unique [OF this] have q: "q' = q" by simp
  have "v = token creds" if "k \<in> set token_variables" "cmd_env (ran_command q) k = Some v" for k v
    using gh_env_token runs_spec_token [OF passthrough(9) [unfolded q] that(2,1)] that(1) by blast
  with runs_spec_identity [OF passthrough(9) [unfolded q], unfolded child_ids_def] passthrough(3) show ?thesis by blast
next
  case (mediated res creds vars keep agent acts q' rest)
  from mediated(6) assms(2)
  have "[Audited (record_of x (resolved_entry ident req res)), AgentActions acts] @ Spawned q' # rest =
      pre @ Spawned q # post" by simp
  from spawn_split_unique [OF this _ mediated(7)] have q: "q' = q" by simp
  have "v = token creds" if "k \<in> set token_variables" "cmd_env (ran_command q) k = Some v" for k v
    using build_env_token [OF mediated(5) runs_spec_token [OF mediated(8) [unfolded q] that(2,1)] that(1)] .
  with runs_spec_identity [OF mediated(8) [unfolded q], unfolded child_ids_def] mediated(4) show ?thesis by blast
qed

theorem child_runs_as_caller_witness:
  "\<exists>c' b' pre q post.
     process_request example_outside example_push alice_identity example_ctx example_conn example_broker = (Inr (), c', b') \<and>
     b_events b' = b_events example_broker @ pre @ Spawned q # post \<and>
     p_euid (ran_proc q) = 1000 \<and> p_cwd (ran_proc q) = ''/home/alice/w''"
proof -
  from example_push_spawns obtain c' b' pre q post where run:
    "process_request example_outside example_push alice_identity example_ctx example_conn example_broker = (Inr (), c', b')"
    "b_events b' = b_events example_broker @ pre @ Spawned q # post" by blast
  have "pid_uid alice_identity \<noteq> 0" "pid_uid alice_identity \<noteq> p_euid (x_daemon example_outside)"
    by (simp_all add: alice_identity_def example_daemon_def)
  with child_runs_as_caller [OF run] obtain creds where "ran_proc q =
      \<lparr>p_ruid = pid_uid alice_identity, p_euid = pid_uid alice_identity, p_suid = pid_uid alice_identity,
       p_rgid = pid_gid alice_identity, p_egid = pid_gid alice_identity, p_sgid = pid_gid alice_identity,
       p_groups = pid_supplementary_gids alice_identity, p_cwd = cwd example_push\<rparr>" by auto
  then have "p_euid (ran_proc q) = 1000" "p_cwd (ran_proc q) = ''/home/alice/w''"
    by (simp_all add: alice_identity_def example_push_def)
  with run show ?thesis by blast
qed

text \<open>
  C3. The policy in force is always valid: in every state a started daemon can reach, whatever requests,
  grants, failures and interleavings led there, the policy in force and the snapshot every accepted
  connection is judged by pass validation, and what was recorded is never taken back.
\<close>

theorem policy_always_valid:
  assumes "daemon_start x0 open_append runtime = Inr (cfg, b)" and "reachable W cfg b d"
    and "\<And>x. x \<in> W \<Longrightarrow> x_glob x = x_glob x0"
  shows "wf_policy (x_glob x0) (b_handle (d_broker d)) \<and>
    list_all (\<lambda>(_, ctx, _). wf_policy (x_glob x0) (ctx_policy ctx)) (d_pending d) \<and>
    (\<exists>new. b_events (d_broker d) = b_events b @ new)"
proof -
  from daemon_start_ok [OF assms(1)] have "wf_policy (x_glob x0) (b_handle b)" by (auto simp: from_yaml_ok)
  from daemon_inv_reachable [OF assms(2) this assms(3)] show ?thesis by (simp add: daemon_inv_def)
qed

theorem policy_always_valid_witness:
  "\<exists>cfg b d. daemon_start example_start example_open None = Inr (cfg, b) \<and> reachable {example_start} cfg b d \<and>
     length (d_closed d) = 1 \<and> wf_policy (x_glob example_start) (b_handle (d_broker d))"
proof -
  from example_start_ok obtain cfg b where start: "daemon_start example_start example_open None = Inr (cfg, b)" by blast
  let ?ctx = "snapshot cfg b"
  obtain r c' b' where h: "handle_connection example_start (Inr 0) ?ctx example_conn b = (r, c', b')"
    by (metis prod_cases3)
  let ?d = "\<lparr>d_broker = b', d_pending = [], d_closed = [c'], d_running = True\<rparr>"
  have "daemon_step {example_start} cfg (initial b) ((initial b)\<lparr>d_pending := [(Inr 0, ?ctx, example_conn)]\<rparr>)"
    using daemon_step.accept [of "initial b" "{example_start}" cfg "Inr 0" example_conn] by (simp add: initial_def)
  moreover have "daemon_step {example_start} cfg ((initial b)\<lparr>d_pending := [(Inr 0, ?ctx, example_conn)]\<rparr>) ?d"
    using daemon_step.serve [of example_start "{example_start}" "(initial b)\<lparr>d_pending := [(Inr 0, ?ctx, example_conn)]\<rparr>"
        "[]" "Inr 0" ?ctx example_conn "[]" r c' b' cfg] h
    by (simp add: initial_def)
  ultimately have reach: "reachable {example_start} cfg b ?d"
    unfolding reachable_def by (meson converse_rtranclp_into_rtranclp rtranclp.rtrancl_refl)
  have "length (d_closed ?d) = 1 \<and> wf_policy (x_glob example_start) (b_handle (d_broker ?d))"
    using policy_always_valid [OF start reach] by simp
  with start reach show ?thesis by blast
qed

text \<open>
  C4. Only root's \<open>allow\<close> changes the policy: any other request, by anyone, leaves the policy in force
  and the policy file exactly as they are.
\<close>

theorem policy_changed_only_by_root_allow:
  assumes "process_request x req ident ctx c b = (r, c', b')"
  shows "tool req = AllowTool \<and> pid_uid ident = 0 \<or>
    b_handle b' = b_handle b \<and> b_policy_file b' = b_policy_file b"
  using process_request_policies [OF assms] by (auto simp: same_policies_def)

theorem policy_changed_only_by_root_allow_witness:
  "\<exists>c' b'.
     process_request example_outside example_push alice_identity example_ctx example_conn example_broker = (Inr (), c', b') \<and>
     b_handle b' = example_policy \<and> b_policy_file b' = Inr ''old''"
proof -
  from example_push_spawns obtain c' b' where run:
    "process_request example_outside example_push alice_identity example_ctx example_conn example_broker = (Inr (), c', b')"
    by blast
  from policy_changed_only_by_root_allow [OF run] have "b_handle b' = example_policy" "b_policy_file b' = Inr ''old''"
    by (simp_all add: example_push_def example_broker_def)
  with run show ?thesis by blast
qed

text \<open>The decision an audit record carries.\<close>

definition audit_decision_of :: "decision \<Rightarrow> audit_decision" where
  "audit_decision_of d = (case d of Allow \<Rightarrow> AuditAllow | Deny reason \<Rightarrow> AuditDeny reason)"

text \<open>
  C8. \<open>ghbrk explain\<close> tells what would happen: whenever a git or gh request resolves, the explanation of
  the same arguments in the same directory reports exactly the resolved operation, repository and
  branch and the decision that running it takes, and running it first puts that decision in the
  audit log; if the decision is a denial, nothing else happens.
\<close>

theorem explain_predicts:
  assumes "tool req = Git \<or> tool req = Gh" and "resolve_request x req = Inr res"
    and "process_request x req ident ctx c b = (r, c', b')"
    and "d = evaluate (x_glob x) (ctx_policy ctx) (policy_request_for (pid_username ident) res)"
  shows "(\<exists>rest. b_events b' = b_events b @
        Audited (record_of x ((resolved_entry ident req res)\<lparr>ae_decision := audit_decision_of d\<rparr>)) # rest \<and>
      (d = Allow \<or> rest = [])) \<and>
    handle_explain_request x (req\<lparr>tool := Explain, args := tool_name (tool req) # args req\<rparr>) (pid_username ident)
        (ctx_policy ctx) c2 =
      then_send (stream_text x (explain_report (tool req) (tool_name (tool req)) (args req) res d) c2) (finish_explain x 0)"
proof
  have med: "\<not> (tool req = Git \<and> \<not> git_is_remote_op (args req))"
    and pm: "process_request x req ident ctx c b = process_mediated x req ident ctx c b"
    using assms(1,2) by (auto simp: process_request_def resolve_request_def resolve_for_tool_def
        dest: resolve_git_remote resolve_gh_mediated)
  have run: "(case d of
      Allow \<Rightarrow> run_allowed x req ident (ctx_credentials_root ctx) res c (write_audit x (resolved_entry ident req res) b)
    | Deny reason \<Rightarrow> deny_request x (resolved_entry ident req res) reason c b) = (r, c', b')"
    using assms(3) unfolding pm process_mediated_def Let_def if_not_P [OF med] assms(2) sum.case assms(4) .
  show "\<exists>rest. b_events b' = b_events b @
        Audited (record_of x ((resolved_entry ident req res)\<lparr>ae_decision := audit_decision_of d\<rparr>)) # rest \<and>
      (d = Allow \<or> rest = [])"
  proof (cases d)
    case Allow
    with run have "run_allowed x req ident (ctx_credentials_root ctx) res c
        (write_audit x (resolved_entry ident req res) b) = (r, c', b')" by simp
    from run_allowed_events [OF this] have "\<exists>new. b_events b' =
        b_events (write_audit x (resolved_entry ident req res) b) @ new" by auto
    moreover have "(resolved_entry ident req res)\<lparr>ae_decision := audit_decision_of d\<rparr> = resolved_entry ident req res"
      using Allow by (simp add: resolved_entry_def audit_decision_of_def)
    ultimately show ?thesis using Allow by simp
  next
    case (Deny reason)
    with run have "deny_request x (resolved_entry ident req res) reason c b = (r, c', b')" by simp
    from deny_request_result(1) [OF this] Deny show ?thesis
      by (simp add: audit_decision_of_def)
  qed
  show "handle_explain_request x (req\<lparr>tool := Explain, args := tool_name (tool req) # args req\<rparr>) (pid_username ident)
        (ctx_policy ctx) c2 =
      then_send (stream_text x (explain_report (tool req) (tool_name (tool req)) (args req) res d) c2) (finish_explain x 0)"
    using assms(1,2,4) med
    by (auto simp: handle_explain_request_def explain_resolved_def resolve_request_def resolve_for_tool_def tool_name_def
        Let_def)
qed

theorem explain_predicts_witness:
  "\<exists>c' b' rest. process_request example_outside example_push alice_identity example_ctx example_conn example_broker = (Inr (), c', b') \<and>
     b_events b' = b_events example_broker @
       Audited (record_of example_outside (resolved_entry alice_identity example_push push_resolved)) # rest"
proof -
  from example_push_spawns obtain c' b' where run:
    "process_request example_outside example_push alice_identity example_ctx example_conn example_broker = (Inr (), c', b')"
    by blast
  have "Allow = evaluate (x_glob example_outside) (ctx_policy example_ctx) (policy_request_for (pid_username alice_identity) push_resolved)"
    using example_push_allowed by (simp add: example_ctx_def alice_identity_def)
  from explain_predicts [OF _ example_push_resolved run this]
  have "\<exists>rest. b_events b' = b_events example_broker @
      Audited (record_of example_outside ((resolved_entry alice_identity example_push push_resolved)\<lparr>ae_decision := AuditAllow\<rparr>)) # rest"
    by (auto simp: example_push_def audit_decision_of_def)
  moreover have "(resolved_entry alice_identity example_push push_resolved)\<lparr>ae_decision := AuditAllow\<rparr> =
      resolved_entry alice_identity example_push push_resolved" by (simp add: resolved_entry_def)
  ultimately show ?thesis using run by auto
qed

end
